(* ===== verification/Snake_Prelude.thy ===== *)
theory Snake_Prelude
  imports Complex_Main "HOL-Library.Stream"
begin

text \<open>
  Shared vocabulary of the development: the fact collections the component theories
  fill, the error values of the model, and the generic facts about lists, streams,
  \<open>floor\<close> and decimal printing that more than one component uses.  Nothing here
  models a line of \<^verbatim>\<open>src/\<close>; the component theories import it.
\<close>

section \<open>Fact collections\<close>

named_theorems model_defs "defining equations of the operations of the model"
named_theorems inv_defs "defining equations of the invariants of the model"
named_theorems frame "fields an operation leaves unchanged"

section \<open>Errors as values\<close>

text \<open>
  The only exception the component can raise is the \<^verbatim>\<open>TypeError\<close> of a property
  read on \<^verbatim>\<open>undefined\<close> or \<^verbatim>\<open>null\<close> (\<^verbatim>\<open>snake[0].x\<close> on an empty array,
  \<^verbatim>\<open>foodRef.current.x\<close> before the first food is placed).  An operation that can
  raise returns \<open>error + 'a\<close>, with \<open>Inl\<close> for the exception.
\<close>

datatype error = TypeError

type_synonym 'a result = "error + 'a"

definition returns :: "'a result \<Rightarrow> bool" where
  "returns r \<longleftrightarrow> (case r of Inl _ \<Rightarrow> False | Inr _ \<Rightarrow> True)"

definition unit_interval :: "real stream \<Rightarrow> bool" where
  "unit_interval r \<longleftrightarrow> (\<forall>u\<in>sset r. 0 \<le> u \<and> u < 1)"

definition digit_char :: "nat \<Rightarrow> char" where
  "digit_char d = ''0123456789'' ! d"

fun string_of_nat :: "nat \<Rightarrow> string" where
  "string_of_nat n =
     (if n < 10 then [digit_char n] else string_of_nat (n div 10) @ [digit_char (n mod 10)])"

declare string_of_nat.simps [simp del]

lemma returns_simps [simp]: "returns (Inr x)" "\<not> returns (Inl e)"
  by (simp_all add: returns_def)

lemma returns_iff: "returns r \<longleftrightarrow> (\<exists>x. r = Inr x)"
  by (cases r) simp_all

section \<open>Lists\<close>

text \<open>
  A JavaScript array used as a deque: \<^verbatim>\<open>unshift\<close> is \<open>#\<close>, \<^verbatim>\<open>pop\<close> is
  \<^const>\<open>butlast\<close>.  The facts below are what the snake's invariant needs of them.
\<close>

lemma set_butlast_subset: "set (butlast xs) \<subseteq> set xs"
  by (auto dest: in_set_butlastD)

lemma ball_butlast: "\<forall>x\<in>set xs. P x \<Longrightarrow> \<forall>x\<in>set (butlast xs). P x"
  by (auto dest: in_set_butlastD)

lemma butlast_Cons_nonempty [simp]: "xs \<noteq> [] \<Longrightarrow> butlast (x # xs) \<noteq> []"
  by simp

lemma hd_butlast_Cons: "xs \<noteq> [] \<Longrightarrow> hd (butlast (x # xs)) = x"
  by simp

lemma length_butlast_Cons: "length (butlast (x # xs)) = length xs"
  by simp

lemma distinct_length_le_card:
  assumes "distinct xs" and "set xs \<subseteq> A" and "finite A"
  shows "length xs \<le> card A"
proof -
  from assms(1) have "length xs = card (set xs)"
    by (simp add: distinct_card)
  also from assms(2,3) have "\<dots> \<le> card A"
    by (rule card_mono [rotated])
  finally show ?thesis .
qed

lemma find_None_iff_all: "find P xs = None \<longleftrightarrow> (\<forall>x\<in>set xs. \<not> P x)"
  by (induction xs) auto

lemma find_Some_sat: "find P xs = Some x \<Longrightarrow> P x \<and> x \<in> set xs"
  by (induction xs) (auto split: if_splits)

lemma find_map: "find P (map f xs) = map_option f (find (\<lambda>x. P (f x)) xs)"
  by (induction xs) simp_all

section \<open>Streams of random numbers\<close>

text \<open>
  \<^verbatim>\<open>Math.random()\<close> is modelled by the stream of the values it is going to return.
  ECMAScript promises each value to lie in \<open>[0, 1)\<close>; \<open>unit_interval\<close> is that promise
  for the whole stream.  The values are \<^typ>\<open>real\<close>: the rounding of the IEEE double
  product \<^verbatim>\<open>Math.random() * 20\<close> is not modelled.
\<close>

lemma unit_interval_shd: "unit_interval r \<Longrightarrow> 0 \<le> shd r \<and> shd r < 1"
  by (simp add: unit_interval_def shd_sset)

lemma unit_interval_stl [intro]: "unit_interval r \<Longrightarrow> unit_interval (stl r)"
  by (auto simp: unit_interval_def dest: stl_sset)

lemma unit_interval_sdrop [intro]: "unit_interval r \<Longrightarrow> unit_interval (sdrop n r)"
  by (induction n arbitrary: r) auto

lemma unit_interval_snth: "unit_interval r \<Longrightarrow> 0 \<le> r !! n \<and> r !! n < 1"
  by (simp add: unit_interval_def)

lemma unit_interval_SCons [simp]:
  "unit_interval (u ## r) \<longleftrightarrow> 0 \<le> u \<and> u < 1 \<and> unit_interval r"
  by (auto simp: unit_interval_def)

lemma unit_interval_sconst [simp]: "unit_interval (sconst u) \<longleftrightarrow> 0 \<le> u \<and> u < 1"
  by (simp add: unit_interval_def)

lemma floor_scale_bounds:
  fixes u :: real and n :: int
  assumes "0 \<le> u" and "u < 1" and "0 < n"
  shows "0 \<le> \<lfloor>u * of_int n\<rfloor>" and "\<lfloor>u * of_int n\<rfloor> < n"
proof -
  from assms show "0 \<le> \<lfloor>u * of_int n\<rfloor>"
    by simp
  from assms have "u * of_int n < of_int n"
    by simp
  then show "\<lfloor>u * of_int n\<rfloor> < n"
    by (simp add: floor_less_iff)
qed

section \<open>Decimal printing\<close>

text \<open>
  JavaScript converts a number to a string when it is concatenated to one or
  interpolated into a template literal.  For the non-negative integers the component
  prints (the score) the result is the decimal numeral without leading zeros, which
  \<open>string_of_nat\<close> computes.
\<close>

lemma string_of_nat_digit: "n < 10 \<Longrightarrow> string_of_nat n = [digit_char n]"
  by (subst string_of_nat.simps) simp

end
