(* ===== verification/Browser.thy ===== *)
theory Browser
  imports Snake_Prelude
begin

text \<open>
  The part of the browser the component talks to: the table of interval timers behind
  \<^verbatim>\<open>setInterval\<close> and \<^verbatim>\<open>clearInterval\<close>, the random source behind
  \<^verbatim>\<open>Math.random\<close>, the messages shown by \<^verbatim>\<open>alert\<close>, the \<^verbatim>\<open>keydown\<close> listener of
  \<^verbatim>\<open>window\<close> and the 2D drawing context of the canvas.  None of it is code of the
  repository; it is modelled from the Web platform's contract, as little as the
  component relies on.  The operations are stated over \<open>'a browser_scheme\<close>, so that
  every state that extends the record (the component's state does) can use them.
\<close>

section \<open>State\<close>

text \<open>
  The two closures the component ever hands to \<^verbatim>\<open>setInterval\<close>: the game tick, and
  the arrow function that reloads the page.
\<close>

datatype callback = TickCb | ReloadCb

text \<open>
  What has been painted on the canvas, in order.  A rectangle and a text carry the
  \<^verbatim>\<open>fillStyle\<close> (and the \<^verbatim>\<open>font\<close>) that was current when they were drawn; an image
  carries its source.
\<close>

datatype draw_op =
    FillRect string int int int int
  | DrawImage string int int int int
  | FillText string string string int int

record browser =
  timers :: "nat \<rightharpoonup> callback \<times> nat"
  next_id :: nat
  rng :: "real stream"
  alerts :: "string list"
  listening :: bool
  fillStyle :: string
  font :: string
  painted :: "draw_op list"

section \<open>Operations\<close>

text \<open>\<^verbatim>\<open>setInterval(cb, ms)\<close> registers a repeating timer and returns its fresh handle.\<close>

definition setInterval :: "callback \<Rightarrow> nat \<Rightarrow> 'a browser_scheme \<Rightarrow> nat \<times> 'a browser_scheme" where
  "setInterval cb ms b =
     (next_id b, b\<lparr>timers := (timers b)(next_id b \<mapsto> (cb, ms)), next_id := Suc (next_id b)\<rparr>)"

text \<open>
  \<^verbatim>\<open>clearInterval(h)\<close> cancels the timer with handle \<open>h\<close>; a \<^verbatim>\<open>null\<close> handle and a
  handle that names no timer are ignored.
\<close>

definition clearInterval :: "nat option \<Rightarrow> 'a browser_scheme \<Rightarrow> 'a browser_scheme" where
  "clearInterval h b = (case h of None \<Rightarrow> b | Some i \<Rightarrow> b\<lparr>timers := (timers b)(i := None)\<rparr>)"

definition alert :: "string \<Rightarrow> 'a browser_scheme \<Rightarrow> 'a browser_scheme" where
  "alert msg b = b\<lparr>alerts := alerts b @ [msg]\<rparr>"

definition fillRect :: "int \<Rightarrow> int \<Rightarrow> int \<Rightarrow> int \<Rightarrow> 'a browser_scheme \<Rightarrow> 'a browser_scheme" where
  "fillRect px py w h b = b\<lparr>painted := painted b @ [FillRect (fillStyle b) px py w h]\<rparr>"

definition drawImage :: "string \<Rightarrow> int \<Rightarrow> int \<Rightarrow> int \<Rightarrow> int \<Rightarrow> 'a browser_scheme \<Rightarrow> 'a browser_scheme" where
  "drawImage img px py w h b = b\<lparr>painted := painted b @ [DrawImage img px py w h]\<rparr>"

definition fillText :: "string \<Rightarrow> int \<Rightarrow> int \<Rightarrow> 'a browser_scheme \<Rightarrow> 'a browser_scheme" where
  "fillText txt px py b = b\<lparr>painted := painted b @ [FillText (fillStyle b) (font b) txt px py]\<rparr>"

definition timers_fresh :: "'a browser_scheme \<Rightarrow> bool" where
  "timers_fresh b \<longleftrightarrow> (\<forall>i\<in>dom (timers b). i < next_id b)"

lemmas browser_defs [model_defs] =
  setInterval_def clearInterval_def alert_def fillRect_def drawImage_def fillText_def

section \<open>The timer table\<close>

text \<open>
  What the component relies on: a handle returned by \<^verbatim>\<open>setInterval\<close> is fresh,
  clearing is idempotent, and clearing the only timer empties the table.
\<close>

lemma setInterval_fresh:
  "timers_fresh b \<Longrightarrow> fst (setInterval cb ms b) \<notin> dom (timers b)"
  by (auto simp: timers_fresh_def setInterval_def)

lemma setInterval_timers:
  "timers (snd (setInterval cb ms b)) = (timers b)(fst (setInterval cb ms b) \<mapsto> (cb, ms))"
  by (simp add: setInterval_def)

lemma setInterval_keeps_fresh: "timers_fresh b \<Longrightarrow> timers_fresh (snd (setInterval cb ms b))"
  by (fastforce simp: timers_fresh_def setInterval_def dom_def less_Suc_eq split: if_splits)

lemma clearInterval_keeps_fresh: "timers_fresh b \<Longrightarrow> timers_fresh (clearInterval h b)"
  by (auto simp: timers_fresh_def clearInterval_def split: option.splits if_splits)

lemma clearInterval_idem: "clearInterval h (clearInterval h b) = clearInterval h b"
  by (simp add: clearInterval_def split: option.splits)

lemma clearInterval_only:
  "dom (timers b) \<subseteq> {i} \<Longrightarrow> timers (clearInterval (Some i) b) = Map.empty"
  by (auto simp: clearInterval_def fun_eq_iff domIff)

lemma clearInterval_empty: "timers b = Map.empty \<Longrightarrow> timers (clearInterval h b) = Map.empty"
  by (auto simp: clearInterval_def split: option.splits)

end
