(* ===== verification/Grid_Model.thy ===== *)
theory Grid_Model
  imports Browser
begin

text \<open>
  The data of the game (\<^verbatim>\<open>src/app/components/SnakeGame.js\<close>, lines 6 to 23): the
  board constants, the cells, and the mutable references the component keeps between
  renders, as one record that extends the browser's state.  The predicates that say
  when this data is well formed are defined here; the operations that keep them are
  in the component theories.
\<close>

section \<open>Board constants\<close>

definition tileCount :: int where
  "tileCount = 20"

definition boxSize :: int where
  "boxSize = 20"

definition canvasSize :: int where
  "canvasSize = tileCount * boxSize"

section \<open>Cells\<close>

text \<open>
  The object literal \<^verbatim>\<open>{ x, y }\<close>.  The fields are called \<open>cx\<close> and \<open>cy\<close>, because
  \<open>x\<close> and \<open>y\<close> are wanted as variables.  The component never mutates a cell and
  compares cells by their fields only, so a value type is faithful.  A direction is a
  cell as well, as in the source.
\<close>

datatype cell = Cell (cx: int) (cy: int)

section \<open>The component's state\<close>

text \<open>
  One field for each \<^verbatim>\<open>useRef\<close> of the component and one for its \<^verbatim>\<open>useState\<close>:
  \<^item> \<open>canvasRef\<close>: whether the canvas element is attached (\<^verbatim>\<open>null\<close> otherwise);
  \<^item> \<open>logoRef\<close>: the source of the food image, once the image object exists;
  \<^item> \<open>logoLoadedRef\<close>: whether the image has been loaded;
  \<^item> \<open>snakeRef\<close>: the snake, head first;
  \<^item> \<open>dirRef\<close>: the direction of travel;
  \<^item> \<open>foodRef\<close>: the food cell, \<^verbatim>\<open>null\<close> before the first one is placed;
  \<^item> \<open>scoreRef\<close>: the score;
  \<^item> \<open>runningRef\<close>: whether ticks advance the game;
  \<^item> \<open>intervalRef\<close>: the handle of the last interval timer set, \<^verbatim>\<open>null\<close> before;
  \<^item> \<open>score\<close>: the React state shown above the canvas.

  Three more fields hold what React keeps for the component: whether a change of
  \<open>score\<close> has asked for a new render that has not happened yet, and the two texts of
  the markup that depend on the state, as the last render has left them on the page
  (the score line of line 173 and the label of the pause button of line 209).
\<close>

record game = browser +
  canvasRef :: bool
  logoRef :: "string option"
  logoLoadedRef :: bool
  snakeRef :: "cell list"
  dirRef :: cell
  foodRef :: "cell option"
  scoreRef :: nat
  runningRef :: bool
  intervalRef :: "nat option"
  score :: nat
  renderPending :: bool
  scoreLine :: string
  pauseLabel :: string

text \<open>
  The state of a freshly loaded page, before the effect of the component has run: the
  initial values of the references, the markup of the first render (score 0, a game
  that runs), a canvas that React has attached, no timer, no listener, nothing
  painted.  The random source and the messages shown so far are
  what the page inherits from the world.
\<close>

definition page_load :: "real stream \<Rightarrow> string list \<Rightarrow> game" where
  "page_load r shown =
     \<lparr>timers = Map.empty, next_id = 1, rng = r, alerts = shown, listening = False,
      fillStyle = ''#000000'', font = ''10px sans-serif'', painted = [],
      canvasRef = True, logoRef = None, logoLoadedRef = False,
      snakeRef = [Cell (tileCount div 2) (tileCount div 2)], dirRef = Cell 1 0,
      foodRef = None, scoreRef = 0, runningRef = True, intervalRef = None, score = 0,
      renderPending = False, scoreLine = ''Score: 0'', pauseLabel = ''Pause''\<rparr>"

section \<open>Well-formedness\<close>

definition in_grid :: "cell \<Rightarrow> bool" where
  "in_grid c \<longleftrightarrow> 0 \<le> cx c \<and> cx c < tileCount \<and> 0 \<le> cy c \<and> cy c < tileCount"

text \<open>The four directions the key handler can store.\<close>

definition unit_dir :: "cell \<Rightarrow> bool" where
  "unit_dir d \<longleftrightarrow> d \<in> {Cell 0 (- 1), Cell 0 1, Cell (- 1) 0, Cell 1 0}"

definition opposite :: "cell \<Rightarrow> cell" where
  "opposite d = Cell (- cx d) (- cy d)"

text \<open>
  The snake is well formed when it has a head, lies on the board and does not cross
  itself.
\<close>

definition snake_ok :: "cell list \<Rightarrow> bool" where
  "snake_ok sn \<longleftrightarrow> sn \<noteq> [] \<and> list_all in_grid sn \<and> distinct sn"

text \<open>
  The model invariant relates the fields of the game: a well-formed snake, a unit
  direction, food on the board once it has been placed, a score that counts the
  segments the snake has gained and is mirrored in the React state, and a random
  source that keeps the promise of \<^verbatim>\<open>Math.random\<close>.
\<close>

definition model_inv :: "game \<Rightarrow> bool" where
  "model_inv s \<longleftrightarrow>
     snake_ok (snakeRef s) \<and> unit_dir (dirRef s) \<and>
     (\<forall>f. foodRef s = Some f \<longrightarrow> in_grid f) \<and>
     Suc (scoreRef s) = length (snakeRef s) \<and> score s = scoreRef s \<and>
     unit_interval (rng s)"

text \<open>
  The invariant of the food: it is on no cell of the snake.  It is kept apart from
  \<open>model_inv\<close> because the program keeps it only as long as the placer finds a free
  cell.
\<close>

definition food_clear :: "game \<Rightarrow> bool" where
  "food_clear s \<longleftrightarrow> (case foodRef s of None \<Rightarrow> True | Some f \<Rightarrow> f \<notin> set (snakeRef s))"

definition grid :: "cell set" where
  "grid = (\<lambda>(a, b). Cell a b) ` ({0..<tileCount} \<times> {0..<tileCount})"

section \<open>Example states\<close>

text \<open>
  A running game in the middle of a session, for the concrete instances of the
  theorems: the given snake, direction and food, the score that belongs to the
  snake's length, the tick timer under handle 1, the key listener registered, and a
  random source that offers the cell \<open>(5, 5)\<close> for ever.
\<close>

definition scenario :: "cell list \<Rightarrow> cell \<Rightarrow> cell option \<Rightarrow> game" where
  "scenario sn d f =
     (page_load (sconst (1 / 4)) [])
       \<lparr>timers := [1 \<mapsto> (TickCb, 120)], next_id := 2, listening := True,
        logoRef := Some ''/intuition-logo.png'', snakeRef := sn, dirRef := d, foodRef := f,
        scoreRef := length sn - 1, intervalRef := Some 1, score := length sn - 1,
        scoreLine := ''Score: '' @ string_of_nat (length sn - 1)\<rparr>"

section \<open>Facts\<close>

lemmas board_defs [model_defs] = tileCount_def boxSize_def canvasSize_def

lemmas grid_inv_defs [inv_defs] = in_grid_def unit_dir_def snake_ok_def model_inv_def

subsection \<open>The board is finite\<close>

lemma in_grid_iff: "in_grid c \<longleftrightarrow> c \<in> grid"
  by (cases c) (auto simp: in_grid_def grid_def image_iff)

lemma finite_grid: "finite grid"
  by (simp add: grid_def)

lemma card_grid: "card grid = 400"
proof -
  have "inj_on (\<lambda>(a, b). Cell a b) ({0..<tileCount} \<times> {0..<tileCount})"
    by (auto simp: inj_on_def)
  then have "card grid = card ({0..<tileCount} \<times> {0..<tileCount})"
    unfolding grid_def by (rule card_image)
  then show ?thesis
    by (simp add: tileCount_def)
qed

lemma snake_ok_length: "snake_ok sn \<Longrightarrow> length sn \<le> 400"
proof -
  assume ok: "snake_ok sn"
  then have "set sn \<subseteq> grid"
    by (auto simp: snake_ok_def list_all_iff in_grid_iff)
  with ok have "length sn \<le> card grid"
    by (intro distinct_length_le_card) (simp_all add: snake_ok_def finite_grid)
  then show ?thesis
    by (simp add: card_grid)
qed

lemma snake_ok_Cons:
  "snake_ok sn \<Longrightarrow> in_grid h \<Longrightarrow> h \<notin> set sn \<Longrightarrow> snake_ok (h # sn)"
  by (simp add: snake_ok_def)

lemma snake_ok_butlast_Cons:
  "snake_ok sn \<Longrightarrow> in_grid h \<Longrightarrow> h \<notin> set sn \<Longrightarrow> snake_ok (butlast (h # sn))"
  by (auto simp: snake_ok_def list_all_iff distinct_butlast dest: in_set_butlastD)

lemma unit_dir_cases:
  assumes "unit_dir d"
  obtains "d = Cell 0 (- 1)" | "d = Cell 0 1" | "d = Cell (- 1) 0" | "d = Cell 1 0"
  using assms by (auto simp: unit_dir_def)

lemma opposite_involutive [simp]: "opposite (opposite d) = d"
  by (cases d) (simp add: opposite_def)

lemma unit_dir_opposite: "unit_dir d \<Longrightarrow> unit_dir (opposite d) \<and> opposite d \<noteq> d"
  by (auto simp: unit_dir_def opposite_def)

subsection \<open>Food off the snake\<close>

lemma food_clear_iff: "food_clear s \<longleftrightarrow> (\<forall>f. foodRef s = Some f \<longrightarrow> f \<notin> set (snakeRef s))"
  by (simp add: food_clear_def split: option.split)

lemma food_clear_frame:
  "food_clear s \<Longrightarrow> foodRef t = foodRef s \<Longrightarrow> snakeRef t = snakeRef s \<Longrightarrow> food_clear t"
  by (simp add: food_clear_iff)

subsection \<open>The example states\<close>

lemma scenario_fields [simp]:
  "snakeRef (scenario sn d f) = sn" "dirRef (scenario sn d f) = d" "foodRef (scenario sn d f) = f"
  "scoreRef (scenario sn d f) = length sn - 1" "score (scenario sn d f) = length sn - 1"
  "runningRef (scenario sn d f)" "intervalRef (scenario sn d f) = Some 1"
  "canvasRef (scenario sn d f)" "logoRef (scenario sn d f) = Some ''/intuition-logo.png''"
  "\<not> logoLoadedRef (scenario sn d f)" "timers (scenario sn d f) = [1 \<mapsto> (TickCb, 120)]"
  "next_id (scenario sn d f) = 2" "rng (scenario sn d f) = sconst (1 / 4)"
  "alerts (scenario sn d f) = []" "listening (scenario sn d f)" "painted (scenario sn d f) = []"
  "\<not> renderPending (scenario sn d f)"
  by (simp_all add: scenario_def page_load_def)

lemma model_inv_scenario:
  "model_inv (scenario sn d f) \<longleftrightarrow>
     snake_ok sn \<and> unit_dir d \<and> (\<forall>c. f = Some c \<longrightarrow> in_grid c)"
  by (auto simp: model_inv_def snake_ok_def)

end
