(* ===== verification/Input_Controller.thy ===== *)
theory Input_Controller
  imports Grid_Model
begin

text \<open>
  The key handler: \<^verbatim>\<open>handleKey\<close> of \<^verbatim>\<open>src/app/components/SnakeGame.js\<close>, lines 53 to
  59, the listener the component registers for \<^verbatim>\<open>keydown\<close>.  It reads the direction
  once and then runs four independent \<^verbatim>\<open>if\<close> statements, each of which may store a
  new direction.  \<open>steer\<close> is the rule the four statements implement: a recognised key
  sets its direction unless that is the opposite of the stored one.
\<close>

section \<open>The handler\<close>

definition handleKey :: "string \<Rightarrow> game \<Rightarrow> game" where
  "handleKey key s =
     (let d = dirRef s;
          s1 = (if key = ''ArrowUp'' \<and> cy d \<noteq> 1 then s\<lparr>dirRef := Cell 0 (- 1)\<rparr> else s);
          s2 = (if key = ''ArrowDown'' \<and> cy d \<noteq> - 1 then s1\<lparr>dirRef := Cell 0 1\<rparr> else s1);
          s3 = (if key = ''ArrowLeft'' \<and> cx d \<noteq> 1 then s2\<lparr>dirRef := Cell (- 1) 0\<rparr> else s2);
          s4 = (if key = ''ArrowRight'' \<and> cx d \<noteq> - 1 then s3\<lparr>dirRef := Cell 1 0\<rparr> else s3)
      in s4)"

section \<open>Reference definitions\<close>

text \<open>The direction a key asks for; \<open>None\<close> for a key the game does not know.\<close>

definition key_dir :: "string \<Rightarrow> cell option" where
  "key_dir key =
     (if key = ''ArrowUp'' then Some (Cell 0 (- 1))
      else if key = ''ArrowDown'' then Some (Cell 0 1)
      else if key = ''ArrowLeft'' then Some (Cell (- 1) 0)
      else if key = ''ArrowRight'' then Some (Cell 1 0)
      else None)"

definition steer :: "string \<Rightarrow> cell \<Rightarrow> cell" where
  "steer key d =
     (case key_dir key of
        None \<Rightarrow> d
      | Some n \<Rightarrow> if n = opposite d then d else n)"

section \<open>Facts\<close>

lemmas input_defs [model_defs] = handleKey_def key_dir_def steer_def

lemma handleKey_frame: "handleKey key s = s\<lparr>dirRef := dirRef (handleKey key s)\<rparr>"
  by (simp add: handleKey_def Let_def)

lemma handleKey_other [frame, simp]:
  "snakeRef (handleKey key s) = snakeRef s" "foodRef (handleKey key s) = foodRef s"
  "scoreRef (handleKey key s) = scoreRef s" "score (handleKey key s) = score s"
  "runningRef (handleKey key s) = runningRef s" "intervalRef (handleKey key s) = intervalRef s"
  "canvasRef (handleKey key s) = canvasRef s" "logoRef (handleKey key s) = logoRef s"
  "logoLoadedRef (handleKey key s) = logoLoadedRef s"
  "timers (handleKey key s) = timers s" "next_id (handleKey key s) = next_id s"
  "rng (handleKey key s) = rng s" "alerts (handleKey key s) = alerts s"
  "listening (handleKey key s) = listening s" "painted (handleKey key s) = painted s"
  "fillStyle (handleKey key s) = fillStyle s" "font (handleKey key s) = font s"
  "renderPending (handleKey key s) = renderPending s" "scoreLine (handleKey key s) = scoreLine s"
  "pauseLabel (handleKey key s) = pauseLabel s"
  by (simp_all add: handleKey_def Let_def)

lemma dirRef_handleKey:
  "dirRef (handleKey key s) =
     (if key = ''ArrowUp'' then (if cy (dirRef s) \<noteq> 1 then Cell 0 (- 1) else dirRef s)
      else if key = ''ArrowDown'' then (if cy (dirRef s) \<noteq> - 1 then Cell 0 1 else dirRef s)
      else if key = ''ArrowLeft'' then (if cx (dirRef s) \<noteq> 1 then Cell (- 1) 0 else dirRef s)
      else if key = ''ArrowRight'' then (if cx (dirRef s) \<noteq> - 1 then Cell 1 0 else dirRef s)
      else dirRef s)"
  by (simp add: handleKey_def Let_def)

lemma steer_unit:
  assumes "unit_dir d"
  shows "steer key d =
     (if key = ''ArrowUp'' then (if cy d \<noteq> 1 then Cell 0 (- 1) else d)
      else if key = ''ArrowDown'' then (if cy d \<noteq> - 1 then Cell 0 1 else d)
      else if key = ''ArrowLeft'' then (if cx d \<noteq> 1 then Cell (- 1) 0 else d)
      else if key = ''ArrowRight'' then (if cx d \<noteq> - 1 then Cell 1 0 else d)
      else d)"
  using assms by (rule unit_dir_cases) (simp_all add: steer_def key_dir_def opposite_def)

lemma steer_unit_dir: "unit_dir d \<Longrightarrow> unit_dir (steer key d)"
  by (auto simp: steer_def key_dir_def unit_dir_def split: option.splits if_splits)

lemma steer_not_opposite: "unit_dir d \<Longrightarrow> steer key d \<noteq> opposite d"
  using unit_dir_opposite [of d] by (auto simp: steer_def split: option.splits)

lemma dirRef_handleKey_steer: "unit_dir (dirRef s) \<Longrightarrow> dirRef (handleKey key s) = steer key (dirRef s)"
  by (simp only: dirRef_handleKey steer_unit)

text \<open>
  The handler compares a key with the stored direction, not with the direction of the
  last move, so two keys can turn the stored direction around.
\<close>

lemma handleKey_twice_flip:
  assumes "unit_dir (dirRef s)"
  shows "\<exists>k1 k2. dirRef (handleKey k2 (handleKey k1 s)) = opposite (dirRef s)"
  using assms
proof (rule unit_dir_cases)
  assume "dirRef s = Cell 0 (- 1)"
  then have "dirRef (handleKey ''ArrowDown'' (handleKey ''ArrowLeft'' s)) = opposite (dirRef s)"
    by (simp add: dirRef_handleKey opposite_def)
  then show ?thesis by blast
next
  assume "dirRef s = Cell 0 1"
  then have "dirRef (handleKey ''ArrowUp'' (handleKey ''ArrowLeft'' s)) = opposite (dirRef s)"
    by (simp add: dirRef_handleKey opposite_def)
  then show ?thesis by blast
next
  assume "dirRef s = Cell (- 1) 0"
  then have "dirRef (handleKey ''ArrowRight'' (handleKey ''ArrowUp'' s)) = opposite (dirRef s)"
    by (simp add: dirRef_handleKey opposite_def)
  then show ?thesis by blast
next
  assume "dirRef s = Cell 1 0"
  then have "dirRef (handleKey ''ArrowLeft'' (handleKey ''ArrowUp'' s)) = opposite (dirRef s)"
    by (simp add: dirRef_handleKey opposite_def)
  then show ?thesis by blast
qed

section \<open>Properties of the key handler\<close>

text \<open>
  Claim C16.  On a state whose direction is one of the four unit directions,
  \<^verbatim>\<open>handleKey\<close> changes the direction by the rule \<open>steer\<close> (a recognised key sets its
  direction unless that is the opposite of the stored one; any other key is ignored)
  and changes nothing else.
\<close>

theorem handleKey_steer:
  assumes "unit_dir (dirRef s)"
  shows "handleKey key s = s\<lparr>dirRef := steer key (dirRef s)\<rparr>"
  using handleKey_frame [of key s] dirRef_handleKey_steer [OF assms, of key] by simp

theorem handleKey_steer_witness:
  "handleKey ''ArrowUp'' (page_load (sconst 0) []) = (page_load (sconst 0) [])\<lparr>dirRef := Cell 0 (- 1)\<rparr>
   \<and> handleKey ''ArrowLeft'' (page_load (sconst 0) []) = page_load (sconst 0) []
   \<and> handleKey ''a'' (page_load (sconst 0) []) = page_load (sconst 0) []"
proof -
  have unit: "unit_dir (dirRef (page_load (sconst 0) []))"
    by (simp add: page_load_def unit_dir_def)
  have "dirRef (page_load (sconst 0) []) = Cell 1 0"
    by (simp add: page_load_def)
  then show ?thesis
    by (simp add: handleKey_steer [OF unit] steer_def key_dir_def opposite_def)
qed

text \<open>
  Claim C15.  A key never turns the snake around: when the stored direction is a unit
  direction, the direction stored after \<^verbatim>\<open>handleKey\<close> is a unit direction and is not
  the opposite of the one that was stored when the key arrived.
\<close>

theorem handleKey_no_reverse:
  assumes "unit_dir (dirRef s)"
  shows "unit_dir (dirRef (handleKey key s)) \<and> dirRef (handleKey key s) \<noteq> opposite (dirRef s)"
  using assms by (simp add: dirRef_handleKey_steer steer_unit_dir steer_not_opposite)

theorem handleKey_no_reverse_witness:
  "unit_dir (dirRef (handleKey ''ArrowLeft'' (page_load (sconst 0) []))) \<and>
   dirRef (handleKey ''ArrowLeft'' (page_load (sconst 0) [])) \<noteq> Cell (- 1) 0"
proof -
  have "unit_dir (dirRef (page_load (sconst 0) []))"
    by (simp add: page_load_def unit_dir_def)
  from handleKey_no_reverse [OF this, of "''ArrowLeft''"] show ?thesis
    by (simp add: page_load_def opposite_def)
qed

end
