(* ===== verification/Food_Placer.thy ===== *)
theory Food_Placer
  imports Grid_Model
begin

text \<open>
  The food placer: \<^verbatim>\<open>spawnFood\<close> of \<^verbatim>\<open>src/app/components/SnakeGame.js\<close>, lines 26 to
  37.  It draws cells at random until one is off the snake, and gives up checking
  after 500 draws.  The \<^verbatim>\<open>do ... while\<close> loop is \<open>spawnLoop\<close>, a recursion on the
  counter \<^verbatim>\<open>tries\<close> that threads the random source; \<open>place_from\<close> is the same search
  by structural recursion on the number of checked draws that are left, and \<open>place\<close>
  says in one line which cell comes out.
\<close>

section \<open>The loop\<close>

text \<open>\<^verbatim>\<open>Math.floor(Math.random() * tileCount)\<close>, for the value \<open>u\<close> the call returns.\<close>

definition randomTile :: "real \<Rightarrow> int" where
  "randomTile u = \<lfloor>u * of_int tileCount\<rfloor>"

text \<open>The loop condition \<^verbatim>\<open>snake.some((s) => s.x === x && s.y === y)\<close>.\<close>

definition onSnake :: "cell list \<Rightarrow> int \<Rightarrow> int \<Rightarrow> bool" where
  "onSnake snake x y = list_ex (\<lambda>s. cx s = x \<and> cy s = y) snake"

text \<open>
  One iteration draws \<open>x\<close>, then \<open>y\<close>, counts the try, leaves the loop when more than
  500 tries were made, and otherwise repeats while the cell is on the snake.
\<close>

function spawnLoop :: "cell list \<Rightarrow> nat \<Rightarrow> real stream \<Rightarrow> cell \<times> real stream" where
  "spawnLoop snake tries r =
     (let x = randomTile (shd r);
          y = randomTile (shd (stl r));
          r' = stl (stl r);
          tries' = tries + 1
      in if tries' > 500 then (Cell x y, r')
         else if onSnake snake x y then spawnLoop snake tries' r'
         else (Cell x y, r'))"
  by pat_completeness auto
termination
  by (relation "measure (\<lambda>(snake, tries, r). 501 - tries)") auto

declare spawnLoop.simps [simp del]

definition spawnFood :: "game \<Rightarrow> cell \<times> game" where
  "spawnFood s = (let (c, r) = spawnLoop (snakeRef s) 0 (rng s) in (c, s\<lparr>rng := r\<rparr>))"

section \<open>Reference definitions\<close>

text \<open>The \<open>k\<close>-th cell the random source offers: draws \<open>2k\<close> and \<open>2k + 1\<close>.\<close>

definition sample_at :: "real stream \<Rightarrow> nat \<Rightarrow> cell" where
  "sample_at r k = Cell (randomTile (r !! (2 * k))) (randomTile (r !! (2 * k + 1)))"

text \<open>
  The search with \<open>n\<close> checked draws left: the first offered cell is taken unchecked
  when none is left, and otherwise taken if it is off the snake.
\<close>

primrec place_from :: "nat \<Rightarrow> cell list \<Rightarrow> real stream \<Rightarrow> cell \<times> real stream" where
  "place_from 0 snake r = (sample_at r 0, sdrop 2 r)"
| "place_from (Suc n) snake r =
     (if sample_at r 0 \<in> set snake then place_from n snake (sdrop 2 r)
      else (sample_at r 0, sdrop 2 r))"

text \<open>
  What the placer promises: the first of the first 500 offered cells that is off the
  snake, and the 501st offered cell if there is none.
\<close>

definition place :: "cell list \<Rightarrow> real stream \<Rightarrow> cell \<times> real stream" where
  "place snake r =
     (case find (\<lambda>k. sample_at r k \<notin> set snake) [0..<500] of
        Some k \<Rightarrow> (sample_at r k, sdrop (2 * Suc k) r)
      | None \<Rightarrow> (sample_at r 500, sdrop 1002 r))"

text \<open>
  The placer finds a free cell for a snake: one of the 500 cells it checks is off the
  snake.
\<close>

definition finds :: "cell list \<Rightarrow> real stream \<Rightarrow> bool" where
  "finds snake r \<longleftrightarrow> (\<exists>k\<in>{0..<500}. sample_at r k \<notin> set snake)"

section \<open>Facts\<close>

lemmas food_defs [model_defs] = randomTile_def onSnake_def spawnFood_def

lemma onSnake_iff [simp]: "onSnake snake x y \<longleftrightarrow> Cell x y \<in> set snake"
  by (induction snake) (auto simp: onSnake_def intro: cell.expand)

lemma sample_at_0: "sample_at r 0 = Cell (randomTile (shd r)) (randomTile (shd (stl r)))"
  by (simp add: sample_at_def)

lemma sample_at_Suc: "sample_at r (Suc k) = sample_at (sdrop 2 r) k"
  by (simp add: sample_at_def sdrop_snth numeral_2_eq_2)

lemma sample_at_sdrop: "sample_at (sdrop (2 * j) r) k = sample_at r (j + k)"
  by (simp add: sample_at_def sdrop_snth algebra_simps)

lemma sdrop_2: "sdrop 2 r = stl (stl r)"
  by (simp add: numeral_2_eq_2)

lemma randomTile_bounds:
  "0 \<le> u \<Longrightarrow> u < 1 \<Longrightarrow> 0 \<le> randomTile u \<and> randomTile u < tileCount"
  using floor_scale_bounds [of u tileCount] by (simp add: randomTile_def tileCount_def)

lemma randomTile_snth:
  "unit_interval r \<Longrightarrow> 0 \<le> randomTile (r !! n) \<and> randomTile (r !! n) < tileCount"
  by (intro randomTile_bounds) (simp_all add: unit_interval_snth)

lemma in_grid_sample_at: "unit_interval r \<Longrightarrow> in_grid (sample_at r k)"
  unfolding in_grid_def sample_at_def cell.sel using randomTile_snth by blast

subsection \<open>The loop is the structural search\<close>

lemma spawnLoop_place_from: "spawnLoop snake tries r = place_from (500 - tries) snake r"
proof (induction snake tries r rule: spawnLoop.induct)
  case (1 snake tries r)
  show ?case
  proof (cases "500 < tries + 1")
    case True
    then show ?thesis
      by (simp add: spawnLoop.simps [of snake tries r] sample_at_0 sdrop_2)
  next
    case False
    then have left: "500 - tries = Suc (500 - (tries + 1))"
      by simp
    show ?thesis
    proof (cases "sample_at r 0 \<in> set snake")
      case True
      with False "1.IH" have "spawnLoop snake (tries + 1) (stl (stl r)) =
          place_from (500 - (tries + 1)) snake (stl (stl r))"
        by (simp add: sample_at_0)
      with True False show ?thesis
        by (simp add: spawnLoop.simps [of snake tries r] left sample_at_0 sdrop_2 del: diff_Suc_Suc)
    next
      case off: False
      with False show ?thesis
        by (simp add: spawnLoop.simps [of snake tries r] left sample_at_0 sdrop_2)
    qed
  qed
qed

subsection \<open>The structural search is the specification\<close>

lemma place_from_find:
  "place_from n snake r =
     (case find (\<lambda>k. sample_at r k \<notin> set snake) [0..<n] of
        Some k \<Rightarrow> (sample_at r k, sdrop (2 * Suc k) r)
      | None \<Rightarrow> (sample_at r n, sdrop (2 * Suc n) r))"
proof (induction n arbitrary: r)
  case 0
  show ?case by simp
next
  case (Suc n)
  have shift: "find (\<lambda>k. sample_at r k \<notin> set snake) (map Suc [0..<n]) =
      map_option Suc (find (\<lambda>k. sample_at (sdrop 2 r) k \<notin> set snake) [0..<n])"
    by (simp add: find_map sample_at_Suc)
  show ?case
  proof (cases "sample_at r 0 \<in> set snake")
    case True
    then show ?thesis
      by (simp add: Suc.IH upt_conv_Cons map_Suc_upt [symmetric] shift sample_at_Suc
          del: upt_Suc split: option.splits)
  next
    case False
    then show ?thesis
      by (simp add: upt_conv_Cons del: upt_Suc)
  qed
qed

lemma spawnLoop_eq_place: "spawnLoop snake 0 r = place snake r"
  by (simp add: spawnLoop_place_from place_from_find place_def split: option.split)

lemma spawnFood_eq:
  "spawnFood s = (fst (place (snakeRef s) (rng s)), s\<lparr>rng := snd (place (snakeRef s) (rng s))\<rparr>)"
  by (simp add: spawnFood_def spawnLoop_eq_place split_beta)

subsection \<open>What the specification gives\<close>

lemma place_free:
  assumes "k < 500" and "sample_at r k \<notin> set snake"
  obtains j where "j \<le> k" and "sample_at r j \<notin> set snake"
    and "place snake r = (sample_at r j, sdrop (2 * Suc j) r)"
proof -
  from assms have "find (\<lambda>k. sample_at r k \<notin> set snake) [0..<500] \<noteq> None"
    by (auto simp: find_None_iff_all)
  then obtain j where j: "find (\<lambda>k. sample_at r k \<notin> set snake) [0..<500] = Some j"
    by blast
  then have "sample_at r j \<notin> set snake" and "j < 500" and "\<forall>i<j. sample_at r i \<in> set snake"
    by (auto simp: find_Some_iff)
  with assms have "j \<le> k"
    by (meson not_le_imp_less)
  with j \<open>sample_at r j \<notin> set snake\<close> that show ?thesis
    by (simp add: place_def)
qed

lemma findsI: "k < 500 \<Longrightarrow> sample_at r k \<notin> set snake \<Longrightarrow> finds snake r"
  by (auto simp: finds_def)

lemma place_exhausted:
  "\<forall>k<500. sample_at r k \<in> set snake \<Longrightarrow> place snake r = (sample_at r 500, sdrop 1002 r)"
proof -
  assume "\<forall>k<500. sample_at r k \<in> set snake"
  then have "find (\<lambda>k. sample_at r k \<notin> set snake) [0..<500] = None"
    by (simp add: find_None_iff_all)
  then show ?thesis
    by (simp add: place_def)
qed

lemma place_cases:
  obtains j where "j \<le> 500" and "place snake r = (sample_at r j, sdrop (2 * Suc j) r)"
proof (cases "find (\<lambda>k. sample_at r k \<notin> set snake) [0..<500]")
  case None
  with that [of 500] show ?thesis
    by (simp add: place_def)
next
  case (Some j)
  then have "j < 500"
    by (auto dest: find_Some_sat)
  with Some that [of j] show ?thesis
    by (simp add: place_def)
qed

lemma sample_at_sconst [simp]: "sample_at (sconst u) k = Cell (randomTile u) (randomTile u)"
  by (simp add: sample_at_def)

lemma spawnFood_rng:
  obtains j where "j \<le> 500" and "fst (spawnFood s) = sample_at (rng s) j"
    and "snd (spawnFood s) = s\<lparr>rng := sdrop (2 * Suc j) (rng s)\<rparr>"
proof -
  obtain j where "j \<le> 500"
    and "place (snakeRef s) (rng s) = (sample_at (rng s) j, sdrop (2 * Suc j) (rng s))"
    by (rule place_cases)
  with that [of j] show ?thesis
    by (simp add: spawnFood_eq)
qed

lemma spawnFood_first:
  assumes "sample_at (rng s) 0 \<notin> set (snakeRef s)"
  shows "spawnFood s = (sample_at (rng s) 0, s\<lparr>rng := sdrop 2 (rng s)\<rparr>)"
proof -
  have "(0::nat) < 500"
    by simp
  from this assms obtain j where "j \<le> 0"
    and "place (snakeRef s) (rng s) = (sample_at (rng s) j, sdrop (2 * Suc j) (rng s))"
    by (rule place_free)
  then show ?thesis
    by (simp add: spawnFood_eq)
qed

lemma spawnFood_finds:
  assumes "finds (snakeRef s) (rng s)"
  shows "fst (spawnFood s) \<notin> set (snakeRef s)"
proof -
  from assms obtain k where "k < 500" and "sample_at (rng s) k \<notin> set (snakeRef s)"
    by (auto simp: finds_def)
  then obtain j where "sample_at (rng s) j \<notin> set (snakeRef s)"
    and "place (snakeRef s) (rng s) = (sample_at (rng s) j, sdrop (2 * Suc j) (rng s))"
    by (rule place_free)
  then show ?thesis
    by (simp add: spawnFood_eq)
qed

lemma spawnFood_fields [frame, simp]:
  "snakeRef (snd (spawnFood s)) = snakeRef s" "dirRef (snd (spawnFood s)) = dirRef s"
  "foodRef (snd (spawnFood s)) = foodRef s" "scoreRef (snd (spawnFood s)) = scoreRef s"
  "score (snd (spawnFood s)) = score s" "runningRef (snd (spawnFood s)) = runningRef s"
  "intervalRef (snd (spawnFood s)) = intervalRef s" "canvasRef (snd (spawnFood s)) = canvasRef s"
  "logoRef (snd (spawnFood s)) = logoRef s" "logoLoadedRef (snd (spawnFood s)) = logoLoadedRef s"
  "timers (snd (spawnFood s)) = timers s" "next_id (snd (spawnFood s)) = next_id s"
  "alerts (snd (spawnFood s)) = alerts s" "listening (snd (spawnFood s)) = listening s"
  "painted (snd (spawnFood s)) = painted s" "fillStyle (snd (spawnFood s)) = fillStyle s"
  "font (snd (spawnFood s)) = font s" "renderPending (snd (spawnFood s)) = renderPending s"
  "scoreLine (snd (spawnFood s)) = scoreLine s" "pauseLabel (snd (spawnFood s)) = pauseLabel s"
  by (simp_all add: spawnFood_eq)

lemma in_grid_spawnFood: "unit_interval (rng s) \<Longrightarrow> in_grid (fst (spawnFood s))"
  by (rule spawnFood_rng [of s]) (simp add: in_grid_sample_at)

lemma unit_interval_spawnFood:
  "unit_interval (rng s) \<Longrightarrow> unit_interval (rng (snd (spawnFood s)))"
  by (rule spawnFood_rng [of s]) (simp add: unit_interval_sdrop del: sdrop.simps)

section \<open>Properties of the food placer\<close>

text \<open>
  Claim C17.  The \<^verbatim>\<open>do ... while\<close> loop of \<^verbatim>\<open>spawnFood\<close>, entered with any value of
  \<^verbatim>\<open>tries\<close>, returns the first offered cell that is off the snake among the
  \<open>500 - tries\<close> it still checks, and the next offered cell unchecked when all of
  them are on the snake; it leaves the random source after the draws of that cell.
\<close>

theorem spawnLoop_first_free:
  "spawnLoop snake tries r =
     (case find (\<lambda>k. sample_at r k \<notin> set snake) [0..<500 - tries] of
        Some k \<Rightarrow> (sample_at r k, sdrop (2 * Suc k) r)
      | None \<Rightarrow> (sample_at r (500 - tries), sdrop (2 * Suc (500 - tries)) r))"
  by (simp only: spawnLoop_place_from place_from_find)

text \<open>
  Claim C12.  When one of the first 500 cells the random source offers is off the
  snake, the food that \<^verbatim>\<open>spawnFood\<close> returns is off the snake.
\<close>

theorem spawnFood_off_snake:
  assumes "k < 500" and "sample_at (rng s) k \<notin> set (snakeRef s)"
  shows "fst (spawnFood s) \<notin> set (snakeRef s)"
proof -
  from assms obtain j where "sample_at (rng s) j \<notin> set (snakeRef s)"
    and "place (snakeRef s) (rng s) = (sample_at (rng s) j, sdrop (2 * Suc j) (rng s))"
    by (rule place_free)
  then show ?thesis
    by (simp add: spawnFood_eq)
qed

theorem spawnFood_off_snake_witness:
  "fst (spawnFood (page_load (sconst (1 / 4)) [])) \<notin> set (snakeRef (page_load (sconst (1 / 4)) []))"
  by (rule spawnFood_off_snake [of 0])
    (simp_all add: page_load_def randomTile_def tileCount_def)

text \<open>
  Claim C18.  With a random source that keeps to \<open>[0, 1)\<close>, the food that
  \<^verbatim>\<open>spawnFood\<close> returns is a cell of the board and the random source it leaves keeps
  to \<open>[0, 1)\<close>.
\<close>

theorem spawnFood_in_grid:
  assumes "unit_interval (rng s)"
  shows "in_grid (fst (spawnFood s)) \<and> unit_interval (rng (snd (spawnFood s)))"
  using assms by (simp add: in_grid_spawnFood unit_interval_spawnFood)

theorem spawnFood_in_grid_witness:
  "in_grid (fst (spawnFood (page_load (sconst (1 / 4)) []))) \<and>
   unit_interval (rng (snd (spawnFood (page_load (sconst (1 / 4)) []))))"
  by (rule spawnFood_in_grid) (simp add: page_load_def)

text \<open>
  Claim C19.  \<^verbatim>\<open>spawnFood\<close> always returns, after at least one and at most 501
  iterations of its loop: it consumes \<open>2k\<close> random numbers for some \<open>k\<close> between 1 and
  501 and changes nothing else of the state.
\<close>

theorem spawnFood_draws:
  "\<exists>k. 1 \<le> k \<and> k \<le> 501 \<and> snd (spawnFood s) = s\<lparr>rng := sdrop (2 * k) (rng s)\<rparr>"
proof (rule spawnFood_rng [of s])
  fix j
  assume "j \<le> 500" and "snd (spawnFood s) = s\<lparr>rng := sdrop (2 * Suc j) (rng s)\<rparr>"
  then have "1 \<le> Suc j \<and> Suc j \<le> 501 \<and> snd (spawnFood s) = s\<lparr>rng := sdrop (2 * Suc j) (rng s)\<rparr>"
    by simp
  then show ?thesis
    by blast
qed

text \<open>
  Claim C20.  When the first 500 cells the random source offers are all on the snake,
  \<^verbatim>\<open>spawnFood\<close> returns the 501st offered cell without looking at the snake.  The
  witness is a board with 399 free cells on which the food lands on the snake.
\<close>

theorem spawnFood_exhausted:
  assumes "\<forall>k<500. sample_at (rng s) k \<in> set (snakeRef s)"
  shows "spawnFood s = (sample_at (rng s) 500, s\<lparr>rng := sdrop 1002 (rng s)\<rparr>)"
  using place_exhausted [OF assms] by (simp add: spawnFood_eq)

theorem spawnFood_exhausted_witness:
  "fst (spawnFood (page_load (sconst (1 / 2)) [])) = Cell 10 10 \<and>
   snakeRef (page_load (sconst (1 / 2)) []) = [Cell 10 10] \<and>
   in_grid (Cell 0 0) \<and> Cell 0 0 \<notin> set (snakeRef (page_load (sconst (1 / 2)) []))"
proof -
  have "\<forall>k<500. sample_at (rng (page_load (sconst (1 / 2)) [])) k
      \<in> set (snakeRef (page_load (sconst (1 / 2)) []))"
    by (simp add: page_load_def randomTile_def tileCount_def)
  from spawnFood_exhausted [OF this] show ?thesis
    by (simp add: page_load_def randomTile_def tileCount_def in_grid_def)
qed

end
