(* ===== verification/Renderer.thy ===== *)
theory Renderer
  imports Grid_Model
begin

text \<open>
  The renderer: \<^verbatim>\<open>draw\<close> of \<^verbatim>\<open>src/app/components/SnakeGame.js\<close>, lines 102 to 131.
  It paints the background, one square per segment of the snake (the head in its own
  colour), the food (the logo once it is loaded, a red square before) and the score.
  The canvas is the list of painted operations of the browser's state; \<open>frame_ops\<close>
  is the list one call of \<^verbatim>\<open>draw\<close> appends, as a function of the game alone.
\<close>

section \<open>The drawing code\<close>

text \<open>The callback of \<^verbatim>\<open>snakeRef.current.forEach\<close>, and the iteration itself.\<close>

definition drawSegment :: "cell \<Rightarrow> nat \<Rightarrow> game \<Rightarrow> game" where
  "drawSegment seg idx s =
     fillRect (cx seg * boxSize) (cy seg * boxSize) (boxSize - 1) (boxSize - 1)
       (s\<lparr>fillStyle := (if idx = 0 then ''#4cafef'' else ''#33ff77'')\<rparr>)"

fun forEachSegment :: "cell list \<Rightarrow> nat \<Rightarrow> game \<Rightarrow> game" where
  "forEachSegment [] idx s = s"
| "forEachSegment (seg # segs) idx s = forEachSegment segs (Suc idx) (drawSegment seg idx s)"

definition drawFood :: "cell \<Rightarrow> game \<Rightarrow> game" where
  "drawFood food s =
     (case logoRef s of
        Some img \<Rightarrow>
          if logoLoadedRef s
          then drawImage img (cx food * boxSize) (cy food * boxSize) boxSize boxSize s
          else fillRect (cx food * boxSize) (cy food * boxSize) (boxSize - 1) (boxSize - 1)
                 (s\<lparr>fillStyle := ''red''\<rparr>)
      | None \<Rightarrow>
          fillRect (cx food * boxSize) (cy food * boxSize) (boxSize - 1) (boxSize - 1)
            (s\<lparr>fillStyle := ''red''\<rparr>))"

definition drawHud :: "game \<Rightarrow> game" where
  "drawHud s =
     fillText (''Score: '' @ string_of_nat (scoreRef s)) 8 16
       (s\<lparr>fillStyle := ''white'', font := ''14px Arial''\<rparr>)"

definition draw :: "game \<Rightarrow> game" where
  "draw s =
     (if \<not> canvasRef s then s
      else let s1 = fillRect 0 0 canvasSize canvasSize (s\<lparr>fillStyle := ''#0b0b0b''\<rparr>);
               s2 = forEachSegment (snakeRef s1) 0 s1
           in case foodRef s2 of
                None \<Rightarrow> s2
              | Some food \<Rightarrow> drawHud (drawFood food s2))"

section \<open>Reference definitions\<close>

definition segment_op :: "nat \<Rightarrow> cell \<Rightarrow> draw_op" where
  "segment_op idx seg =
     FillRect (if idx = 0 then ''#4cafef'' else ''#33ff77'') (cx seg * 20) (cy seg * 20) 19 19"

definition food_op :: "game \<Rightarrow> cell \<Rightarrow> draw_op" where
  "food_op s food =
     (case logoRef s of
        Some img \<Rightarrow>
          if logoLoadedRef s then DrawImage img (cx food * 20) (cy food * 20) 20 20
          else FillRect ''red'' (cx food * 20) (cy food * 20) 19 19
      | None \<Rightarrow> FillRect ''red'' (cx food * 20) (cy food * 20) 19 19)"

definition hud_op :: "game \<Rightarrow> draw_op" where
  "hud_op s = FillText ''white'' ''14px Arial'' (''Score: '' @ string_of_nat (scoreRef s)) 8 16"

definition frame_ops :: "game \<Rightarrow> draw_op list" where
  "frame_ops s =
     FillRect ''#0b0b0b'' 0 0 400 400 #
     map (\<lambda>(idx, seg). segment_op idx seg) (enumerate 0 (snakeRef s)) @
     (case foodRef s of None \<Rightarrow> [] | Some food \<Rightarrow> [food_op s food, hud_op s])"

text \<open>
  Two states show the same game when they differ in the canvas only, that is, when
  they are equal once the fields of the drawing context are blanked.
\<close>

definition blank_canvas :: "game \<Rightarrow> game" where
  "blank_canvas s = s\<lparr>fillStyle := [], font := [], painted := []\<rparr>"

definition same_game :: "game \<Rightarrow> game \<Rightarrow> bool" where
  "same_game s t \<longleftrightarrow> blank_canvas s = blank_canvas t"

section \<open>Facts\<close>

lemmas render_defs [model_defs] = drawSegment_def drawFood_def drawHud_def draw_def

lemmas render_ref_defs = segment_op_def food_op_def hud_op_def frame_ops_def

lemma same_game_refl [simp]: "same_game s s"
  by (simp add: same_game_def)

lemma same_game_trans: "same_game s t \<Longrightarrow> same_game t u \<Longrightarrow> same_game s u"
  by (simp add: same_game_def)

lemma same_game_fields:
  assumes "same_game s t"
  shows "snakeRef t = snakeRef s" "dirRef t = dirRef s" "foodRef t = foodRef s"
    "scoreRef t = scoreRef s" "score t = score s" "runningRef t = runningRef s"
    "intervalRef t = intervalRef s" "canvasRef t = canvasRef s" "logoRef t = logoRef s"
    "logoLoadedRef t = logoLoadedRef s" "timers t = timers s" "next_id t = next_id s"
    "rng t = rng s" "alerts t = alerts s" "listening t = listening s"
    "renderPending t = renderPending s" "scoreLine t = scoreLine s" "pauseLabel t = pauseLabel s"
proof -
  from assms have "f (blank_canvas t) = f (blank_canvas s)" for f :: "game \<Rightarrow> 'x"
    by (simp add: same_game_def)
  note eq = this [unfolded blank_canvas_def]
  show "snakeRef t = snakeRef s" "dirRef t = dirRef s" "foodRef t = foodRef s"
    "scoreRef t = scoreRef s" "score t = score s" "runningRef t = runningRef s"
    "intervalRef t = intervalRef s" "canvasRef t = canvasRef s" "logoRef t = logoRef s"
    "logoLoadedRef t = logoLoadedRef s"
    using eq [of snakeRef] eq [of dirRef] eq [of foodRef] eq [of scoreRef] eq [of score]
      eq [of runningRef] eq [of intervalRef] eq [of canvasRef] eq [of logoRef]
      eq [of logoLoadedRef]
    by simp_all
  show "timers t = timers s" "next_id t = next_id s"
    "rng t = rng s" "alerts t = alerts s" "listening t = listening s"
    using eq [of timers] eq [of next_id] eq [of rng] eq [of alerts] eq [of listening]
    by simp_all
  show "renderPending t = renderPending s" "scoreLine t = scoreLine s" "pauseLabel t = pauseLabel s"
    using eq [of renderPending] eq [of scoreLine] eq [of pauseLabel]
    by simp_all
qed

lemma same_game_drawSegment: "same_game s (drawSegment seg idx s)"
  by (simp add: same_game_def blank_canvas_def drawSegment_def fillRect_def)

lemma same_game_forEachSegment: "same_game s (forEachSegment segs idx s)"
proof (induction segs arbitrary: idx s)
  case Nil
  show ?case by simp
next
  case (Cons seg segs)
  from same_game_drawSegment Cons.IH show ?case
    unfolding forEachSegment.simps by (rule same_game_trans)
qed

lemma same_game_drawFood: "same_game s (drawFood food s)"
  by (simp add: same_game_def blank_canvas_def drawFood_def fillRect_def drawImage_def
      split: option.split)

lemma same_game_drawHud: "same_game s (drawHud s)"
  by (simp add: same_game_def blank_canvas_def drawHud_def fillText_def)

lemma same_game_background:
  "same_game s (fillRect 0 0 canvasSize canvasSize (s\<lparr>fillStyle := ''#0b0b0b''\<rparr>))"
  by (simp add: same_game_def blank_canvas_def fillRect_def)

lemma same_game_draw: "same_game s (draw s)"
proof (cases "canvasRef s")
  case False
  then show ?thesis by (simp add: draw_def)
next
  case True
  let ?s1 = "fillRect 0 0 canvasSize canvasSize (s\<lparr>fillStyle := ''#0b0b0b''\<rparr>)"
  let ?s2 = "forEachSegment (snakeRef ?s1) 0 ?s1"
  have s2: "same_game s ?s2"
    using same_game_background same_game_forEachSegment by (rule same_game_trans)
  show ?thesis
  proof (cases "foodRef ?s2")
    case None
    with True s2 show ?thesis by (simp add: draw_def Let_def)
  next
    case (Some food)
    have "same_game ?s2 (drawHud (drawFood food ?s2))"
      using same_game_drawFood same_game_drawHud by (rule same_game_trans)
    with s2 have "same_game s (drawHud (drawFood food ?s2))"
      by (rule same_game_trans)
    with True Some show ?thesis by (simp add: draw_def Let_def)
  qed
qed

lemmas draw_fields [frame, simp] = same_game_fields [OF same_game_draw]

lemma painted_forEachSegment:
  "painted (forEachSegment segs idx s) =
     painted s @ map (\<lambda>(i, seg). segment_op i seg) (enumerate idx segs)"
  by (induction segs arbitrary: idx s)
    (simp_all add: drawSegment_def fillRect_def segment_op_def boxSize_def)

lemma painted_drawFood: "painted (drawFood food s) = painted s @ [food_op s food]"
  by (simp add: drawFood_def food_op_def fillRect_def drawImage_def boxSize_def split: option.split)

lemma painted_drawHud: "painted (drawHud s) = painted s @ [hud_op s]"
  by (simp add: drawHud_def hud_op_def fillText_def)

lemma painted_draw: "canvasRef s \<Longrightarrow> painted (draw s) = painted s @ frame_ops s"
proof -
  assume attached: "canvasRef s"
  let ?s1 = "fillRect 0 0 canvasSize canvasSize (s\<lparr>fillStyle := ''#0b0b0b''\<rparr>)"
  let ?s2 = "forEachSegment (snakeRef ?s1) 0 ?s1"
  have s2: "same_game s ?s2"
    using same_game_background same_game_forEachSegment by (rule same_game_trans)
  have p2: "painted ?s2 = painted s @ FillRect ''#0b0b0b'' 0 0 400 400 #
      map (\<lambda>(i, seg). segment_op i seg) (enumerate 0 (snakeRef s))"
    by (simp add: painted_forEachSegment same_game_fields [OF same_game_background])
      (simp add: fillRect_def canvasSize_def tileCount_def boxSize_def)
  show ?thesis
  proof (cases "foodRef s")
    case None
    with attached p2 show ?thesis
      by (simp add: draw_def Let_def frame_ops_def same_game_fields [OF s2])
  next
    case (Some food)
    have "food_op ?s2 food = food_op s food" "hud_op (drawFood food ?s2) = hud_op s"
      by (simp_all add: food_op_def hud_op_def same_game_fields [OF s2]
          same_game_fields [OF same_game_drawFood] cong: option.case_cong)
    with attached Some p2 show ?thesis
      by (simp add: draw_def Let_def frame_ops_def same_game_fields [OF s2]
          painted_drawHud painted_drawFood)
  qed
qed

lemma frame_ops_cong: "same_game s t \<Longrightarrow> frame_ops t = frame_ops s"
  by (simp add: frame_ops_def food_op_def hud_op_def same_game_fields cong: option.case_cong)

section \<open>Properties of the renderer\<close>

text \<open>
  Claim C30.  \<^verbatim>\<open>draw\<close> does not change the game: the state after it differs from the
  state before in the drawing context only.  With a canvas attached it appends
  exactly the operations of \<open>frame_ops\<close> (background, the snake head first, food,
  score); without a canvas it paints nothing.
\<close>

theorem draw_paints_frame:
  "same_game s (draw s) \<and> painted (draw s) = painted s @ (if canvasRef s then frame_ops s else [])"
  by (simp add: same_game_draw painted_draw) (simp add: draw_def)

theorem draw_paints_frame_witness:
  "painted (draw ((page_load (sconst 0) [])\<lparr>foodRef := Some (Cell 3 4), scoreRef := 7\<rparr>)) =
     [FillRect ''#0b0b0b'' 0 0 400 400, FillRect ''#4cafef'' 200 200 19 19,
      FillRect ''red'' 60 80 19 19, FillText ''white'' ''14px Arial'' ''Score: 7'' 8 16]"
  using draw_paints_frame [of "(page_load (sconst 0) [])\<lparr>foodRef := Some (Cell 3 4), scoreRef := 7\<rparr>"]
  by (simp add: page_load_def render_ref_defs tileCount_def string_of_nat.simps digit_char_def)

text \<open>
  Claim C31.  Drawing is repeatable: a second \<^verbatim>\<open>draw\<close> right after the first paints
  the same frame again, whatever the first one left in the drawing context.
\<close>

theorem draw_twice:
  assumes "canvasRef s"
  shows "painted (draw (draw s)) = painted s @ frame_ops s @ frame_ops s"
  using assms by (simp add: painted_draw frame_ops_cong [OF same_game_draw])

theorem draw_twice_witness:
  "painted (draw (draw (page_load (sconst 0) []))) =
     [FillRect ''#0b0b0b'' 0 0 400 400, FillRect ''#4cafef'' 200 200 19 19,
      FillRect ''#0b0b0b'' 0 0 400 400, FillRect ''#4cafef'' 200 200 19 19]"
proof -
  have "canvasRef (page_load (sconst 0) [])"
    by (simp add: page_load_def)
  from draw_twice [OF this] show ?thesis
    by (simp add: page_load_def render_ref_defs tileCount_def)
qed

end
