(* ===== verification/View.thy ===== *)
theory View
  imports Grid_Model
begin

text \<open>
  The markup of the component (\<^verbatim>\<open>src/app/components/SnakeGame.js\<close>) as far as it
  depends on the state: the score line of line 173 and the label of the pause button
  of line 209.  React evaluates the markup when it renders the component: once when
  the page is loaded, and again after a handler has given \<^verbatim>\<open>setScore\<close> a value that
  differs from the state.  A change of a reference asks for no render.  The render,
  the setter and the moment of the render are React's and are modelled from its
  contract.
\<close>

section \<open>Rendering\<close>

text \<open>The two expressions in braces: the score line of line 173 and the label of line 209.\<close>

definition scoreText :: "game \<Rightarrow> string" where
  "scoreText s = ''Score: '' @ string_of_nat (score s)"

definition pauseText :: "game \<Rightarrow> string" where
  "pauseText s = (if runningRef s then ''Pause'' else ''Resume'')"

text \<open>
  A render, which is React's part: the component function is evaluated and the two
  texts it yields are put on the page.
\<close>

definition render :: "game \<Rightarrow> game" where
  "render s = s\<lparr>scoreLine := scoreText s, pauseLabel := pauseText s\<rparr>"

text \<open>
  The setter of the React state \<^verbatim>\<open>score\<close>: it stores the value and asks for a render if
  the value is new.
\<close>

definition setScore :: "nat \<Rightarrow> game \<Rightarrow> game" where
  "setScore n s = s\<lparr>score := n, renderPending := (renderPending s \<or> n \<noteq> score s)\<rparr>"

text \<open>What React does once a handler has returned: the render that was asked for.\<close>

definition flush :: "game \<Rightarrow> game" where
  "flush s = (if renderPending s then render (s\<lparr>renderPending := False\<rparr>) else s)"

section \<open>The view is up to date\<close>

text \<open>
  The markup shows the state it was rendered from if no render is pending and the two
  texts are those a render would produce now.
\<close>

definition view_current :: "game \<Rightarrow> bool" where
  "view_current s \<longleftrightarrow> \<not> renderPending s \<and> render s = s"

section \<open>Facts\<close>

lemmas view_defs [model_defs] = scoreText_def pauseText_def render_def setScore_def flush_def

lemma render_fields [frame, simp]:
  "snakeRef (render s) = snakeRef s" "dirRef (render s) = dirRef s" "foodRef (render s) = foodRef s"
  "scoreRef (render s) = scoreRef s" "score (render s) = score s" "runningRef (render s) = runningRef s"
  "intervalRef (render s) = intervalRef s" "canvasRef (render s) = canvasRef s"
  "logoRef (render s) = logoRef s" "logoLoadedRef (render s) = logoLoadedRef s"
  "timers (render s) = timers s" "next_id (render s) = next_id s" "rng (render s) = rng s"
  "alerts (render s) = alerts s" "listening (render s) = listening s" "painted (render s) = painted s"
  "fillStyle (render s) = fillStyle s" "font (render s) = font s"
  "renderPending (render s) = renderPending s"
  by (simp_all add: render_def scoreText_def pauseText_def)

lemma render_texts [simp]:
  "scoreLine (render s) = ''Score: '' @ string_of_nat (score s)"
  "pauseLabel (render s) = (if runningRef s then ''Pause'' else ''Resume'')"
  by (simp_all add: render_def scoreText_def pauseText_def)

lemma render_idem [simp]: "render (render s) = render s"
  by (simp add: render_def scoreText_def pauseText_def)

lemma flush_fields [frame, simp]:
  "snakeRef (flush s) = snakeRef s" "dirRef (flush s) = dirRef s" "foodRef (flush s) = foodRef s"
  "scoreRef (flush s) = scoreRef s" "score (flush s) = score s" "runningRef (flush s) = runningRef s"
  "intervalRef (flush s) = intervalRef s" "canvasRef (flush s) = canvasRef s"
  "logoRef (flush s) = logoRef s" "logoLoadedRef (flush s) = logoLoadedRef s"
  "timers (flush s) = timers s" "next_id (flush s) = next_id s" "rng (flush s) = rng s"
  "alerts (flush s) = alerts s" "listening (flush s) = listening s" "painted (flush s) = painted s"
  "fillStyle (flush s) = fillStyle s" "font (flush s) = font s"
  "\<not> renderPending (flush s)"
  by (simp_all add: flush_def)

lemma flush_quiet [simp]: "\<not> renderPending s \<Longrightarrow> flush s = s"
  by (simp add: flush_def)

lemma flush_pending: "renderPending s \<Longrightarrow> flush s = render (s\<lparr>renderPending := False\<rparr>)"
  by (simp add: flush_def)

lemma flush_idem [simp]: "flush (flush s) = flush s"
  by simp

lemma food_clear_flush [simp]: "food_clear (flush s) = food_clear s"
  by (simp add: food_clear_iff)

lemma setScore_fields [frame, simp]:
  "snakeRef (setScore n s) = snakeRef s" "dirRef (setScore n s) = dirRef s"
  "foodRef (setScore n s) = foodRef s" "scoreRef (setScore n s) = scoreRef s"
  "score (setScore n s) = n" "runningRef (setScore n s) = runningRef s"
  "intervalRef (setScore n s) = intervalRef s" "canvasRef (setScore n s) = canvasRef s"
  "logoRef (setScore n s) = logoRef s" "logoLoadedRef (setScore n s) = logoLoadedRef s"
  "timers (setScore n s) = timers s" "next_id (setScore n s) = next_id s" "rng (setScore n s) = rng s"
  "alerts (setScore n s) = alerts s" "listening (setScore n s) = listening s"
  "painted (setScore n s) = painted s" "fillStyle (setScore n s) = fillStyle s"
  "font (setScore n s) = font s" "scoreLine (setScore n s) = scoreLine s"
  "pauseLabel (setScore n s) = pauseLabel s"
  "renderPending (setScore n s) \<longleftrightarrow> renderPending s \<or> n \<noteq> score s"
  by (simp_all add: setScore_def)

lemma render_fixed:
  "render s = s \<longleftrightarrow>
     scoreLine s = ''Score: '' @ string_of_nat (score s) \<and>
     pauseLabel s = (if runningRef s then ''Pause'' else ''Resume'')"
proof
  assume "render s = s"
  then have "scoreLine (render s) = scoreLine s" and "pauseLabel (render s) = pauseLabel s"
    by simp_all
  then show "scoreLine s = ''Score: '' @ string_of_nat (score s) \<and>
      pauseLabel s = (if runningRef s then ''Pause'' else ''Resume'')"
    by (simp only: render_texts)
next
  assume "scoreLine s = ''Score: '' @ string_of_nat (score s) \<and>
      pauseLabel s = (if runningRef s then ''Pause'' else ''Resume'')"
  then have "render s = s\<lparr>scoreLine := scoreLine s, pauseLabel := pauseLabel s\<rparr>"
    unfolding render_def scoreText_def pauseText_def by (simp only:)
  then show "render s = s"
    by simp
qed

lemma view_current_iff:
  "view_current s \<longleftrightarrow>
     \<not> renderPending s \<and> scoreLine s = ''Score: '' @ string_of_nat (score s) \<and>
     pauseLabel s = (if runningRef s then ''Pause'' else ''Resume'')"
  by (simp only: view_current_def render_fixed)

lemma view_current_page_load: "view_current (page_load r shown)"
  by (simp add: view_current_iff) (simp add: page_load_def string_of_nat.simps digit_char_def)

end
