(* ===== verification/Simulation_Engine.thy ===== *)
theory Simulation_Engine
  imports Food_Placer Renderer View
begin

text \<open>
  The simulation engine: \<^verbatim>\<open>tick\<close> (lines 63 to 99) and \<^verbatim>\<open>gameOver\<close> (lines 147 to
  154) of \<^verbatim>\<open>src/app/components/SnakeGame.js\<close>.  One tick computes the next head,
  ends the game on a collision with a wall or with the snake, and otherwise moves the
  snake, growing it and placing new food when the head reaches the food.  The two
  property reads that can raise (\<^verbatim>\<open>snake[0].x\<close> and \<^verbatim>\<open>foodRef.current.x\<close>) are the
  \<open>Inl\<close> results of \<open>tick\<close>.  The reference definitions name the parts of a tick the
  way the specification speaks of them.
\<close>

section \<open>The engine\<close>

definition gameOver :: "game \<Rightarrow> game" where
  "gameOver s =
     alert (''Game Over! Final Score: '' @ string_of_nat (scoreRef s))
       (clearInterval (intervalRef s) (s\<lparr>runningRef := False\<rparr>))"

text \<open>The wall test of line 71 and the \<^verbatim>\<open>for\<close> loop of lines 77 to 82.\<close>

definition wallCollision :: "cell \<Rightarrow> bool" where
  "wallCollision head \<longleftrightarrow>
     cx head < 0 \<or> cx head \<ge> tileCount \<or> cy head < 0 \<or> cy head \<ge> tileCount"

fun selfCollision :: "cell list \<Rightarrow> cell \<Rightarrow> bool" where
  "selfCollision [] head = False"
| "selfCollision (seg # segs) head =
     (if cx seg = cx head \<and> cy seg = cy head then True else selfCollision segs head)"

definition tick :: "game \<Rightarrow> game result" where
  "tick s =
     (if \<not> runningRef s then Inr s
      else case snakeRef s of
        [] \<Rightarrow> Inl TypeError
      | seg0 # _ \<Rightarrow>
          let dir = dirRef s;
              head = Cell (cx seg0 + cx dir) (cy seg0 + cy dir)
          in if wallCollision head then Inr (gameOver s)
             else if selfCollision (snakeRef s) head then Inr (gameOver s)
             else let s1 = s\<lparr>snakeRef := head # snakeRef s\<rparr>
                  in case foodRef s1 of
                       None \<Rightarrow> Inl TypeError
                     | Some food \<Rightarrow>
                         if cx head = cx food \<and> cy head = cy food
                         then let s2 = s1\<lparr>scoreRef := scoreRef s1 + 1\<rparr>;
                                  s3 = setScore (scoreRef s2) s2;
                                  (c, s4) = spawnFood s3
                              in Inr (draw (s4\<lparr>foodRef := Some c\<rparr>))
                         else Inr (draw (s1\<lparr>snakeRef := butlast (snakeRef s1)\<rparr>)))"

section \<open>Reference definitions\<close>

text \<open>The cell in front of the head, and whether entering it ends the game.\<close>

definition next_head :: "game \<Rightarrow> cell" where
  "next_head s = Cell (cx (hd (snakeRef s)) + cx (dirRef s)) (cy (hd (snakeRef s)) + cy (dirRef s))"

definition collides :: "game \<Rightarrow> bool" where
  "collides s \<longleftrightarrow> \<not> in_grid (next_head s) \<or> next_head s \<in> set (snakeRef s)"

text \<open>The three results of a tick, as the specification names them.\<close>

datatype tick_result = Continue | Ate | Collided

definition outcome :: "game \<Rightarrow> tick_result" where
  "outcome s =
     (if collides s then Collided
      else if foodRef s = Some (next_head s) then Ate
      else Continue)"

text \<open>
  The game after a move that does not eat, and after one that does: with the snake
  grown and the score raised (\<open>grown\<close>, lines 85 to 90), and then with new food.
\<close>

definition advance :: "game \<Rightarrow> game" where
  "advance s = s\<lparr>snakeRef := next_head s # butlast (snakeRef s)\<rparr>"

definition grown :: "game \<Rightarrow> game" where
  "grown s =
     setScore (Suc (scoreRef s))
       (s\<lparr>snakeRef := next_head s # snakeRef s, scoreRef := Suc (scoreRef s)\<rparr>)"

definition eat :: "game \<Rightarrow> game" where
  "eat s = (snd (spawnFood (grown s)))\<lparr>foodRef := Some (fst (spawnFood (grown s)))\<rparr>"

section \<open>Facts\<close>

lemmas engine_defs [model_defs] = gameOver_def wallCollision_def tick_def

lemmas engine_ref_defs = next_head_def collides_def outcome_def advance_def grown_def eat_def

lemma selfCollision_iff [simp]: "selfCollision snake head \<longleftrightarrow> head \<in> set snake"
  by (induction snake) (auto intro: cell.expand)

lemma wallCollision_iff [simp]: "wallCollision head \<longleftrightarrow> \<not> in_grid head"
  by (auto simp: wallCollision_def in_grid_def)

subsection \<open>Game over\<close>

lemma gameOver_fields [frame, simp]:
  "snakeRef (gameOver s) = snakeRef s" "dirRef (gameOver s) = dirRef s"
  "foodRef (gameOver s) = foodRef s" "scoreRef (gameOver s) = scoreRef s"
  "score (gameOver s) = score s" "intervalRef (gameOver s) = intervalRef s"
  "canvasRef (gameOver s) = canvasRef s" "logoRef (gameOver s) = logoRef s"
  "logoLoadedRef (gameOver s) = logoLoadedRef s" "next_id (gameOver s) = next_id s"
  "rng (gameOver s) = rng s" "listening (gameOver s) = listening s"
  "painted (gameOver s) = painted s" "fillStyle (gameOver s) = fillStyle s"
  "font (gameOver s) = font s" "renderPending (gameOver s) = renderPending s"
  "scoreLine (gameOver s) = scoreLine s" "pauseLabel (gameOver s) = pauseLabel s"
  by (simp_all add: gameOver_def alert_def clearInterval_def split: option.split)

lemma gameOver_effect [simp]:
  "runningRef (gameOver s) = False"
  "timers (gameOver s) = timers (clearInterval (intervalRef s) s)"
  "alerts (gameOver s) = alerts s @ [''Game Over! Final Score: '' @ string_of_nat (scoreRef s)]"
  by (simp_all add: gameOver_def alert_def clearInterval_def split: option.split)

subsection \<open>The branches of a tick\<close>

lemma tick_paused: "\<not> runningRef s \<Longrightarrow> tick s = Inr s"
  by (simp add: tick_def)

lemma tick_no_snake: "runningRef s \<Longrightarrow> snakeRef s = [] \<Longrightarrow> tick s = Inl TypeError"
  by (simp add: tick_def)

lemma tick_running:
  assumes "runningRef s" and "snakeRef s \<noteq> []"
  shows "tick s =
     (if collides s then Inr (gameOver s)
      else case foodRef s of
        None \<Rightarrow> Inl TypeError
      | Some food \<Rightarrow> if food = next_head s then Inr (draw (eat s)) else Inr (draw (advance s)))"
proof -
  from assms(2) obtain seg0 rest where snake: "snakeRef s = seg0 # rest"
    by (cases "snakeRef s") auto
  then have nh: "Cell (cx seg0 + cx (dirRef s)) (cy seg0 + cy (dirRef s)) = next_head s"
    by (simp add: next_head_def)
  have same: "cx (next_head s) = cx food \<and> cy (next_head s) = cy food \<longleftrightarrow> food = next_head s"
    for food
    by (auto intro: cell.expand)
  show ?thesis
  proof (cases "collides s")
    case True
    with assms(1) snake show ?thesis
      by (auto simp: tick_def Let_def nh collides_def)
  next
    case False
    then have "in_grid (next_head s)" "next_head s \<notin> set (snakeRef s)"
      by (auto simp: collides_def)
    with assms(1) snake False show ?thesis
      by (simp add: tick_def Let_def nh same split_beta grown_def eat_def advance_def
          split: option.split)
  qed
qed

lemma tick_collides:
  "runningRef s \<Longrightarrow> snakeRef s \<noteq> [] \<Longrightarrow> collides s \<Longrightarrow> tick s = Inr (gameOver s)"
  by (simp add: tick_running)

lemma tick_no_food:
  "runningRef s \<Longrightarrow> snakeRef s \<noteq> [] \<Longrightarrow> \<not> collides s \<Longrightarrow> foodRef s = None \<Longrightarrow>
     tick s = Inl TypeError"
  by (simp add: tick_running)

lemma tick_eats:
  "runningRef s \<Longrightarrow> snakeRef s \<noteq> [] \<Longrightarrow> \<not> collides s \<Longrightarrow> foodRef s = Some (next_head s) \<Longrightarrow>
     tick s = Inr (draw (eat s))"
  by (simp add: tick_running)

lemma tick_moves:
  "runningRef s \<Longrightarrow> snakeRef s \<noteq> [] \<Longrightarrow> \<not> collides s \<Longrightarrow> foodRef s = Some food \<Longrightarrow>
     food \<noteq> next_head s \<Longrightarrow> tick s = Inr (draw (advance s))"
  by (simp add: tick_running)

lemma tick_cases [consumes 1, case_names paused crash moved eaten]:
  assumes "tick s = Inr t"
  obtains "\<not> runningRef s" and "t = s"
    | "runningRef s" and "snakeRef s \<noteq> []" and "collides s" and "t = gameOver s"
    | food where "runningRef s" and "snakeRef s \<noteq> []" and "\<not> collides s"
        and "foodRef s = Some food" and "food \<noteq> next_head s" and "t = draw (advance s)"
    | "runningRef s" and "snakeRef s \<noteq> []" and "\<not> collides s"
        and "foodRef s = Some (next_head s)" and "t = draw (eat s)"
proof (cases "runningRef s")
  case False
  with assms have "t = s"
    by (simp add: tick_paused)
  with False show ?thesis
    by (rule that(1))
next
  case running: True
  with assms have snake: "snakeRef s \<noteq> []"
    by (auto simp: tick_no_snake)
  show ?thesis
  proof (cases "collides s")
    case True
    with assms running snake have "t = gameOver s"
      by (simp add: tick_collides)
    with running snake True show ?thesis
      by (rule that(2))
  next
    case False
    with assms running snake obtain food where food: "foodRef s = Some food"
      by (cases "foodRef s") (auto simp: tick_no_food)
    show ?thesis
    proof (cases "food = next_head s")
      case True
      with assms running snake False food have "t = draw (eat s)"
        by (simp add: tick_eats)
      with running snake False food True show ?thesis
        by (intro that(4)) simp_all
    next
      case differs: False
      with assms running snake False food have "t = draw (advance s)"
        by (simp add: tick_moves)
      with running snake False food differs show ?thesis
        by (intro that(3)) simp_all
    qed
  qed
qed

subsection \<open>The reference steps keep the invariant\<close>

lemma model_inv_same_game: "same_game s t \<Longrightarrow> model_inv t = model_inv s"
  by (simp add: model_inv_def same_game_fields)

lemma model_inv_draw [simp]: "model_inv (draw s) = model_inv s"
  by (rule model_inv_same_game [OF same_game_draw])

lemma model_inv_gameOver [simp]: "model_inv (gameOver s) = model_inv s"
  by (simp add: model_inv_def)

lemma model_inv_advance:
  assumes "model_inv s" and "\<not> collides s"
  shows "model_inv (advance s)"
proof -
  from assms(1) obtain seg0 rest where snake: "snakeRef s = seg0 # rest"
    by (cases "snakeRef s") (auto simp: model_inv_def snake_ok_def)
  from assms(2) have head: "in_grid (next_head s)" "next_head s \<notin> set (snakeRef s)"
    by (auto simp: collides_def)
  with assms(1) have "snake_ok (butlast (next_head s # snakeRef s))"
    by (intro snake_ok_butlast_Cons) (simp_all add: model_inv_def)
  with assms(1) snake show ?thesis
    by (simp add: model_inv_def advance_def)
qed

lemma model_inv_eat:
  assumes "model_inv s" and "\<not> collides s"
  shows "model_inv (eat s)"
proof -
  from assms(2) have head: "in_grid (next_head s)" "next_head s \<notin> set (snakeRef s)"
    by (auto simp: collides_def)
  with assms(1) have "snake_ok (next_head s # snakeRef s)"
    by (intro snake_ok_Cons) (simp_all add: model_inv_def)
  moreover from assms(1) have "unit_interval (rng (grown s))"
    by (simp add: model_inv_def grown_def)
  then have "in_grid (fst (spawnFood (grown s)))" "unit_interval (rng (snd (spawnFood (grown s))))"
    by (rule in_grid_spawnFood, rule unit_interval_spawnFood)
  ultimately show ?thesis
    using assms(1) by (simp add: model_inv_def eat_def grown_def)
qed

subsection \<open>What a tick does to the snake and the score\<close>

lemma snakeRef_advance: "snakeRef s \<noteq> [] \<Longrightarrow> snakeRef (advance s) = butlast (next_head s # snakeRef s)"
  by (simp add: advance_def)

lemma grown_fields [frame, simp]:
  "snakeRef (grown s) = next_head s # snakeRef s" "scoreRef (grown s) = Suc (scoreRef s)"
  "score (grown s) = Suc (scoreRef s)" "dirRef (grown s) = dirRef s" "foodRef (grown s) = foodRef s"
  "runningRef (grown s) = runningRef s" "rng (grown s) = rng s" "timers (grown s) = timers s"
  "alerts (grown s) = alerts s" "intervalRef (grown s) = intervalRef s"
  "canvasRef (grown s) = canvasRef s" "listening (grown s) = listening s"
  "logoRef (grown s) = logoRef s" "logoLoadedRef (grown s) = logoLoadedRef s"
  "next_id (grown s) = next_id s" "painted (grown s) = painted s"
  "scoreLine (grown s) = scoreLine s" "pauseLabel (grown s) = pauseLabel s"
  "renderPending (grown s) \<longleftrightarrow> renderPending s \<or> Suc (scoreRef s) \<noteq> score s"
  by (simp_all add: grown_def)

lemma advance_fields [frame, simp]:
  "scoreRef (advance s) = scoreRef s" "score (advance s) = score s" "dirRef (advance s) = dirRef s"
  "foodRef (advance s) = foodRef s" "runningRef (advance s) = runningRef s" "rng (advance s) = rng s"
  "timers (advance s) = timers s" "alerts (advance s) = alerts s"
  "intervalRef (advance s) = intervalRef s" "canvasRef (advance s) = canvasRef s"
  "listening (advance s) = listening s" "logoRef (advance s) = logoRef s"
  "logoLoadedRef (advance s) = logoLoadedRef s" "next_id (advance s) = next_id s"
  "painted (advance s) = painted s" "renderPending (advance s) = renderPending s"
  "scoreLine (advance s) = scoreLine s" "pauseLabel (advance s) = pauseLabel s"
  by (simp_all add: advance_def)

lemma eat_fields [frame, simp]:
  "snakeRef (eat s) = next_head s # snakeRef s" "scoreRef (eat s) = Suc (scoreRef s)"
  "score (eat s) = Suc (scoreRef s)" "dirRef (eat s) = dirRef s"
  "runningRef (eat s) = runningRef s" "timers (eat s) = timers s" "alerts (eat s) = alerts s"
  "intervalRef (eat s) = intervalRef s" "canvasRef (eat s) = canvasRef s"
  "listening (eat s) = listening s" "logoRef (eat s) = logoRef s"
  "logoLoadedRef (eat s) = logoLoadedRef s" "next_id (eat s) = next_id s"
  "painted (eat s) = painted s" "scoreLine (eat s) = scoreLine s" "pauseLabel (eat s) = pauseLabel s"
  "renderPending (eat s) \<longleftrightarrow> renderPending s \<or> Suc (scoreRef s) \<noteq> score s"
  by (simp_all add: eat_def)

lemma foodRef_eat: "foodRef (eat s) = Some (fst (spawnFood (grown s)))"
  by (simp add: eat_def)

lemma foodRef_eat_first:
  assumes "sample_at (rng s) 0 \<notin> set (next_head s # snakeRef s)"
  shows "foodRef (eat s) = Some (sample_at (rng s) 0)" and "rng (eat s) = sdrop 2 (rng s)"
proof -
  from assms have "sample_at (rng (grown s)) 0 \<notin> set (snakeRef (grown s))"
    by simp
  then have "spawnFood (grown s) = (sample_at (rng (grown s)) 0, (grown s)\<lparr>rng := sdrop 2 (rng (grown s))\<rparr>)"
    by (rule spawnFood_first)
  then show "foodRef (eat s) = Some (sample_at (rng s) 0)" and "rng (eat s) = sdrop 2 (rng s)"
    by (simp_all add: eat_def)
qed

lemma food_clear_tick:
  assumes "tick s = Inr t" and "food_clear s"
    and "runningRef s \<Longrightarrow> outcome s = Ate \<Longrightarrow> finds (next_head s # snakeRef s) (rng s)"
  shows "food_clear t"
  using assms(1)
proof (cases rule: tick_cases)
  case paused
  with assms(2) show ?thesis by simp
next
  case crash
  with assms(2) show ?thesis by (simp add: food_clear_iff)
next
  case (moved food)
  with assms(2) show ?thesis
    by (auto simp: food_clear_iff advance_def dest: in_set_butlastD)
next
  case eaten
  then have "outcome s = Ate"
    by (simp add: outcome_def)
  with eaten(1) have "finds (snakeRef (grown s)) (rng (grown s))"
    using assms(3) by simp
  then have "fst (spawnFood (grown s)) \<notin> set (snakeRef (grown s))"
    by (rule spawnFood_finds)
  with eaten show ?thesis
    by (simp add: food_clear_iff foodRef_eat)
qed

lemma tick_score:
  assumes "tick s = Inr t"
  shows "scoreRef s \<le> scoreRef t \<and> scoreRef t \<le> Suc (scoreRef s)"
  using assms by (cases rule: tick_cases) simp_all

lemma tick_returns: "snakeRef s \<noteq> [] \<Longrightarrow> foodRef s \<noteq> None \<Longrightarrow> returns (tick s)"
  by (cases "runningRef s") (auto simp: tick_paused tick_running)

section \<open>Properties of the engine\<close>

text \<open>
  Claim C1.  A tick keeps the game well formed: from a state that satisfies
  \<open>model_inv\<close> (a snake that has a head, lies on the board and does not cross itself,
  a unit direction, food on the board, a score one less than the snake's length and
  mirrored in the React state, a random source within \<open>[0, 1)\<close>), every state that
  \<^verbatim>\<open>tick\<close> returns satisfies it again.
\<close>

theorem tick_preserves_inv:
  assumes "model_inv s" and "tick s = Inr t"
  shows "model_inv t"
  using assms(2,1) by (cases rule: tick_cases) (simp_all add: model_inv_advance model_inv_eat)

theorem tick_preserves_inv_witness:
  "model_inv (scenario [Cell 10 10] (Cell 1 0) (Some (Cell 11 10))) \<and>
   tick (scenario [Cell 10 10] (Cell 1 0) (Some (Cell 11 10))) =
     Inr (draw (eat (scenario [Cell 10 10] (Cell 1 0) (Some (Cell 11 10))))) \<and>
   model_inv (draw (eat (scenario [Cell 10 10] (Cell 1 0) (Some (Cell 11 10)))))"
proof -
  let ?s = "scenario [Cell 10 10] (Cell 1 0) (Some (Cell 11 10))"
  have inv: "model_inv ?s"
    by (simp add: model_inv_scenario inv_defs tileCount_def)
  have run: "tick ?s = Inr (draw (eat ?s))"
    by (rule tick_eats) (simp_all add: engine_ref_defs inv_defs tileCount_def)
  from inv run tick_preserves_inv [OF inv run] show ?thesis
    by simp
qed

text \<open>
  Claim C14.  \<^verbatim>\<open>tick\<close> raises an exception in exactly two situations, both while the
  game is running: the snake is empty, or the snake moves without a collision before
  any food has been placed.  In every other state it returns.
\<close>

theorem tick_returns_iff:
  "returns (tick s) \<longleftrightarrow>
     \<not> runningRef s \<or> (snakeRef s \<noteq> [] \<and> (collides s \<or> foodRef s \<noteq> None))"
proof (cases "runningRef s \<and> snakeRef s \<noteq> []")
  case True
  then show ?thesis
    by (simp add: tick_running split: option.split)
next
  case False
  then show ?thesis
    by (auto simp: tick_paused tick_no_snake)
qed

theorem tick_returns_iff_witness:
  "returns (tick (scenario [Cell 10 10] (Cell 1 0) (Some (Cell 3 3)))) \<and>
   \<not> returns (tick (scenario [Cell 10 10] (Cell 1 0) None)) \<and>
   \<not> returns (tick (scenario [] (Cell 1 0) (Some (Cell 3 3))))"
  by (simp add: tick_returns_iff engine_ref_defs inv_defs tileCount_def)

text \<open>
  Claim C9.  A tick of a running game whose next head is on the board and off the
  snake returns, puts the next head in front of the snake, keeps the tail exactly
  when the head has reached the food, and raises the score by one in that case and
  leaves it alone otherwise; the direction is unchanged and the game keeps running.
\<close>

theorem tick_moves_snake:
  assumes "runningRef s" and "snakeRef s \<noteq> []" and "\<not> collides s" and "foodRef s = Some food"
  shows "\<exists>t. tick s = Inr t \<and>
     snakeRef t = next_head s # (if food = next_head s then snakeRef s else butlast (snakeRef s)) \<and>
     scoreRef t = (if food = next_head s then Suc (scoreRef s) else scoreRef s) \<and>
     dirRef t = dirRef s \<and> runningRef t"
proof (cases "food = next_head s")
  case True
  with assms have "tick s = Inr (draw (eat s))"
    by (simp add: tick_eats)
  with True assms(1) show ?thesis
    by simp
next
  case False
  with assms have "tick s = Inr (draw (advance s))"
    by (simp add: tick_moves)
  with False assms(1,2) show ?thesis
    by (simp add: snakeRef_advance)
qed

theorem tick_moves_snake_witness:
  "\<exists>t. tick (scenario [Cell 10 10] (Cell 1 0) (Some (Cell 3 3))) = Inr t \<and>
     snakeRef t = [Cell 11 10] \<and> scoreRef t = 0 \<and> dirRef t = Cell 1 0 \<and> runningRef t"
  using tick_moves_snake [of "scenario [Cell 10 10] (Cell 1 0) (Some (Cell 3 3))" "Cell 3 3"]
  by (simp add: engine_ref_defs inv_defs tileCount_def)

text \<open>
  Claim C10.  In a tick without a collision the length of the snake grows by exactly
  one if the next head is the food cell, and stays the same if it is not.
\<close>

theorem tick_length:
  assumes "runningRef s" and "snakeRef s \<noteq> []" and "\<not> collides s" and "foodRef s = Some food"
  shows "\<exists>t. tick s = Inr t \<and>
     length (snakeRef t) = (if food = next_head s then Suc (length (snakeRef s)) else length (snakeRef s))"
proof (cases "food = next_head s")
  case True
  with assms have "tick s = Inr (draw (eat s))"
    by (simp add: tick_eats)
  with True show ?thesis
    by simp
next
  case False
  with assms have "tick s = Inr (draw (advance s))"
    by (simp add: tick_moves)
  with False assms(2) show ?thesis
    by (simp add: snakeRef_advance)
qed

theorem tick_length_witness:
  "\<exists>t. tick (scenario [Cell 10 10] (Cell 1 0) (Some (Cell 11 10))) = Inr t \<and>
     length (snakeRef t) = 2"
  using tick_length [of "scenario [Cell 10 10] (Cell 1 0) (Some (Cell 11 10))" "Cell 11 10"]
  by (simp add: engine_ref_defs inv_defs tileCount_def numeral_2_eq_2)

text \<open>
  Claim C11.  A tick of a running game whose next head is off the board or on the
  snake ends the game and leaves the model as it was: snake, direction, food, score
  and canvas are unchanged, the game stops running, the timer whose handle is stored
  is cancelled, and one alert reports the final score.
\<close>

theorem tick_collision:
  assumes "runningRef s" and "snakeRef s \<noteq> []" and "collides s"
  shows "\<exists>t. tick s = Inr t \<and>
     snakeRef t = snakeRef s \<and> dirRef t = dirRef s \<and> foodRef t = foodRef s \<and>
     scoreRef t = scoreRef s \<and> score t = score s \<and> painted t = painted s \<and>
     \<not> runningRef t \<and> timers t = timers (clearInterval (intervalRef s) s) \<and>
     alerts t = alerts s @ [''Game Over! Final Score: '' @ string_of_nat (scoreRef s)]"
  using assms by (simp add: tick_collides)

theorem tick_collision_witness:
  "\<exists>t. tick (scenario [Cell 19 10] (Cell 1 0) (Some (Cell 3 3))) = Inr t \<and>
     snakeRef t = [Cell 19 10] \<and> scoreRef t = 0 \<and> \<not> runningRef t \<and> timers t = Map.empty \<and>
     alerts t = [''Game Over! Final Score: 0'']"
proof -
  from tick_collision [of "scenario [Cell 19 10] (Cell 1 0) (Some (Cell 3 3))"]
  obtain t where "tick (scenario [Cell 19 10] (Cell 1 0) (Some (Cell 3 3))) = Inr t"
    and "snakeRef t = [Cell 19 10]" and "scoreRef t = 0" and "\<not> runningRef t"
    and "timers t = Map.empty" and "alerts t = [''Game Over! Final Score: 0'']"
    by (auto simp: engine_ref_defs inv_defs tileCount_def clearInterval_def
        string_of_nat.simps digit_char_def)
  then show ?thesis
    by blast
qed

end
