(* ===== verification/Game_Spec.thy ===== *)
theory Game_Spec
  imports Input_Controller Simulation_Engine
begin

text \<open>
  The game as its design describes it, independent of React and of the browser: a
  model of five entities and a phase, a tick that reports one of three results, a key
  rule that filters reversals, and a controller with the phases running, paused and
  over.  Nothing here is taken from \<^verbatim>\<open>src/\<close>; the theory \<open>Refinement\<close> compares the
  program with it.
\<close>

section \<open>The model\<close>

datatype phase = Running | Paused | GameOver

text \<open>
  The design keeps two directions: the one the snake moved in at the last tick and
  the one the keys have asked for since.  Food is absent only before the first
  placement.
\<close>

record model =
  m_snake :: "cell list"
  m_dir :: cell
  m_pending :: cell
  m_food :: "cell option"
  m_score :: nat
  m_phase :: phase

text \<open>A new game with the given food: one segment in the centre, heading right.\<close>

definition initial :: "cell \<Rightarrow> model" where
  "initial new =
     \<lparr>m_snake = [Cell (tileCount div 2) (tileCount div 2)], m_dir = Cell 1 0,
      m_pending = Cell 1 0, m_food = Some new, m_score = 0, m_phase = Running\<rparr>"

section \<open>Input\<close>

text \<open>
  A key is accepted unless it asks for the opposite of the direction of the last
  tick; an unknown key is ignored.
\<close>

definition on_key :: "string \<Rightarrow> model \<Rightarrow> model" where
  "on_key key m =
     (case key_dir key of
        None \<Rightarrow> m
      | Some n \<Rightarrow> if n = opposite (m_dir m) then m else m\<lparr>m_pending := n\<rparr>)"

section \<open>Simulation\<close>

text \<open>The direction a tick adopts: the pending one, filtered once more.\<close>

definition adopt :: "model \<Rightarrow> cell" where
  "adopt m = (if m_pending m = opposite (m_dir m) then m_dir m else m_pending m)"

text \<open>
  One tick, given the cell the food placer would answer with.  A collision leaves the
  model as it is.
\<close>

definition sim_tick :: "cell \<Rightarrow> model \<Rightarrow> tick_result \<times> model" where
  "sim_tick new m =
     (let d = adopt m;
          h = Cell (cx (hd (m_snake m)) + cx d) (cy (hd (m_snake m)) + cy d)
      in if \<not> in_grid h \<or> h \<in> set (m_snake m) then (Collided, m)
         else if m_food m = Some h
         then (Ate, m\<lparr>m_snake := h # m_snake m, m_dir := d, m_food := Some new,
                       m_score := Suc (m_score m)\<rparr>)
         else (Continue, m\<lparr>m_snake := h # butlast (m_snake m), m_dir := d\<rparr>))"

section \<open>Control\<close>

text \<open>
  The commands of the controller.  A tick and a reset carry the answer of the food
  placer.  Every command is defined in every phase: where the design names no
  transition, the command changes nothing.
\<close>

datatype command = Tick cell | Key string | Pause | Resume | Reset cell

fun control :: "command \<Rightarrow> model \<Rightarrow> model" where
  "control (Tick new) m =
     (if m_phase m = Running
      then (case sim_tick new m of
              (Collided, m') \<Rightarrow> m'\<lparr>m_phase := GameOver\<rparr>
            | (_, m') \<Rightarrow> m')
      else m)"
| "control (Key key) m = on_key key m"
| "control Pause m = (if m_phase m = Running then m\<lparr>m_phase := Paused\<rparr> else m)"
| "control Resume m = (if m_phase m = Paused then m\<lparr>m_phase := Running\<rparr> else m)"
| "control (Reset new) m = (if m_phase m = GameOver then initial new else m)"

section \<open>The invariants of the design\<close>

definition model_ok :: "model \<Rightarrow> bool" where
  "model_ok m \<longleftrightarrow>
     snake_ok (m_snake m) \<and> unit_dir (m_dir m) \<and> unit_dir (m_pending m) \<and>
     m_pending m \<noteq> opposite (m_dir m) \<and> (\<forall>f. m_food m = Some f \<longrightarrow> in_grid f) \<and>
     Suc (m_score m) = length (m_snake m)"

text \<open>
  The invariant of the food, which holds as long as the cell a tick or a reset carries
  is off the snake, as the design asks of the food placer.
\<close>

definition food_free :: "model \<Rightarrow> bool" where
  "food_free m \<longleftrightarrow> (case m_food m of None \<Rightarrow> True | Some f \<Rightarrow> f \<notin> set (m_snake m))"

section \<open>Facts\<close>

lemmas spec_defs = initial_def on_key_def adopt_def sim_tick_def

lemma adopt_pending [simp]: "m_pending m \<noteq> opposite (m_dir m) \<Longrightarrow> adopt m = m_pending m"
  by (simp add: adopt_def)

lemma on_key_steer: "m_pending m = m_dir m \<Longrightarrow> on_key key m = m\<lparr>m_pending := steer key (m_dir m)\<rparr>"
  by (simp add: on_key_def steer_def split: option.split)

lemma on_key_fields [simp]:
  "m_snake (on_key key m) = m_snake m" "m_dir (on_key key m) = m_dir m"
  "m_food (on_key key m) = m_food m" "m_score (on_key key m) = m_score m"
  "m_phase (on_key key m) = m_phase m"
  by (simp_all add: on_key_def split: option.split)

lemma key_dir_unit: "key_dir key = Some n \<Longrightarrow> unit_dir n"
  by (auto simp: key_dir_def unit_dir_def split: if_splits)

lemma model_ok_initial: "in_grid new \<Longrightarrow> model_ok (initial new)"
  by (simp add: model_ok_def initial_def inv_defs opposite_def tileCount_def)

lemma model_ok_on_key: "model_ok m \<Longrightarrow> model_ok (on_key key m)"
  by (auto simp: model_ok_def on_key_def key_dir_unit split: option.split)

lemma unit_dir_not_opposite: "unit_dir d \<Longrightarrow> d \<noteq> opposite d"
  using unit_dir_opposite [of d] by auto

lemma model_ok_sim_tick:
  assumes "model_ok m" and "in_grid new"
  shows "model_ok (snd (sim_tick new m))"
proof -
  let ?h = "Cell (cx (hd (m_snake m)) + cx (m_pending m)) (cy (hd (m_snake m)) + cy (m_pending m))"
  from assms(1) have ad: "adopt m = m_pending m" and unit: "unit_dir (m_pending m)"
    by (simp_all add: model_ok_def)
  show ?thesis
  proof (cases "\<not> in_grid ?h \<or> ?h \<in> set (m_snake m)")
    case True
    with assms(1) ad show ?thesis
      by (simp add: sim_tick_def Let_def)
  next
    case False
    with assms have "snake_ok (?h # m_snake m)" and "snake_ok (?h # butlast (m_snake m))"
      using snake_ok_butlast_Cons [of "m_snake m" ?h]
      by (auto simp: model_ok_def snake_ok_Cons snake_ok_def butlast_Cons_nonempty)
    with False assms ad unit unit_dir_not_opposite [OF unit] show ?thesis
      by (auto simp: sim_tick_def Let_def model_ok_def snake_ok_def)
  qed
qed

lemma model_ok_control:
  assumes "model_ok m" and "\<forall>new. c = Tick new \<or> c = Reset new \<longrightarrow> in_grid new"
  shows "model_ok (control c m)"
proof (cases c)
  case (Tick new)
  with assms model_ok_sim_tick [of m new] show ?thesis
    by (cases "sim_tick new m"; cases "fst (sim_tick new m)") (auto simp: model_ok_def)
next
  case (Reset new)
  with assms show ?thesis
    by (simp add: model_ok_initial)
qed (use assms in \<open>simp_all add: model_ok_on_key\<close>, simp_all add: model_ok_def)

lemma food_free_control:
  assumes "food_free m"
    and "\<forall>new. c = Tick new \<or> c = Reset new \<longrightarrow> new \<notin> set (m_snake (control c m))"
  shows "food_free (control c m)"
proof (cases c)
  case (Tick new)
  with assms show ?thesis
    by (auto simp: food_free_def sim_tick_def Let_def split: option.splits if_splits
        dest: in_set_butlastD)
next
  case (Reset new)
  with assms show ?thesis
    by (auto simp: food_free_def initial_def split: option.splits if_splits)
qed (use assms in \<open>simp_all add: food_free_def on_key_def split: option.splits\<close>)

end
