(* ===== verification/Game_Controller.thy ===== *)
theory Game_Controller
  imports Input_Controller Simulation_Engine
begin

text \<open>
  The controller: what \<^verbatim>\<open>src/app/components/SnakeGame.js\<close> does when the browser
  calls it.  \<open>mount\<close> is the body of the effect (lines 39 to 60, then \<open>startLoop\<close>,
  lines 133 to 135), \<open>onload\<close> the handler of the logo (lines 43 to 47), \<open>cleanup\<close>
  the function the effect returns (lines 138 to 142), \<open>restartClick\<close> and
  \<open>pauseClick\<close> the handlers of the two buttons (lines 182 to 188 and 193 to 206),
  \<open>resetGame\<close> the function of lines 156 to 168, which nothing calls.  \<open>reload\<close> is
  \<^verbatim>\<open>window.location.reload()\<close>: a new page, on which the effect runs again.
  \<open>handle\<close> hands one browser event to its handler, \<open>dispatch\<close> lets React render
  afterwards if the handler has asked for it; the reachable states are those a
  freshly loaded page reaches by events.  \<open>placing\<close> and \<open>lucky\<close> say when a session
  asks the placer for food and that the placer finds a free cell each time.
\<close>

section \<open>Handlers\<close>

definition onload :: "game \<Rightarrow> game" where
  "onload s = draw (s\<lparr>logoLoadedRef := True\<rparr>)"

text \<open>The last two statements of the effect, lines 133 to 135.\<close>

definition startLoop :: "game \<Rightarrow> game" where
  "startLoop s =
     (let s1 = s\<lparr>runningRef := True\<rparr>;
          (h, s2) = setInterval TickCb 120 s1
      in s2\<lparr>intervalRef := Some h\<rparr>)"

text \<open>
  The effect: the logo, the first food and the key listener of lines 39 to 60, then
  the start of the loop.
\<close>

definition mount :: "game \<Rightarrow> game" where
  "mount s =
     (let s1 = s\<lparr>logoRef := Some ''/intuition-logo.png''\<rparr>;
          s2 = (if foodRef s1 = None
                then (let (c, s') = spawnFood s1 in s'\<lparr>foodRef := Some c\<rparr>)
                else s1);
          s3 = s2\<lparr>listening := True\<rparr>
      in startLoop s3)"

definition cleanup :: "game \<Rightarrow> game" where
  "cleanup s = (clearInterval (intervalRef s) (s\<lparr>runningRef := False\<rparr>))\<lparr>listening := False\<rparr>"

definition reload :: "game \<Rightarrow> game" where
  "reload s = mount (page_load (rng s) (alerts s))"

definition resetGame :: "game \<Rightarrow> game" where
  "resetGame s =
     (let s1 = s\<lparr>snakeRef := [Cell (tileCount div 2) (tileCount div 2)]\<rparr>;
          s2 = s1\<lparr>dirRef := Cell 1 0\<rparr>;
          (c, s3) = spawnFood s2;
          s4 = s3\<lparr>foodRef := Some c\<rparr>;
          s5 = s4\<lparr>scoreRef := 0\<rparr>;
          s6 = setScore 0 s5;
          s7 = s6\<lparr>runningRef := True\<rparr>;
          (h, s8) = setInterval ReloadCb 120 s7
      in s8\<lparr>intervalRef := Some h\<rparr>)"

definition restartClick :: "game \<Rightarrow> game" where
  "restartClick s = (if \<not> runningRef s then reload s else s)"

definition pauseClick :: "game \<Rightarrow> game" where
  "pauseClick s =
     (if runningRef s then clearInterval (intervalRef s) (s\<lparr>runningRef := False\<rparr>)
      else let s1 = s\<lparr>runningRef := True\<rparr>;
               (h, s2) = setInterval ReloadCb 120 s1
           in s2\<lparr>intervalRef := Some h\<rparr>)"

section \<open>Events\<close>

text \<open>
  The events of the browser that reach the component: a key, the interval timer with
  a given handle, the logo finishing to load, a click on either button, and React
  removing the component.
\<close>

datatype event = KeyDown string | Timer nat | LogoLoaded | RestartClick | PauseClick | Unmount

definition fire :: "callback \<Rightarrow> game \<Rightarrow> game result" where
  "fire cb s = (case cb of TickCb \<Rightarrow> tick s | ReloadCb \<Rightarrow> Inr (reload s))"

fun handle :: "event \<Rightarrow> game \<Rightarrow> game result" where
  "handle (KeyDown key) s = Inr (if listening s then handleKey key s else s)"
| "handle (Timer h) s = (case timers s h of None \<Rightarrow> Inr s | Some (cb, ms) \<Rightarrow> fire cb s)"
| "handle LogoLoaded s = Inr (if logoRef s \<noteq> None then onload s else s)"
| "handle RestartClick s = Inr (if canvasRef s then restartClick s else s)"
| "handle PauseClick s = Inr (if canvasRef s then pauseClick s else s)"
| "handle Unmount s = Inr (if canvasRef s then cleanup (s\<lparr>canvasRef := False\<rparr>) else s)"

text \<open>One turn of the event loop: the handler, then the render it has asked for.\<close>

definition dispatch :: "event \<Rightarrow> game \<Rightarrow> game result" where
  "dispatch e s = (case handle e s of Inl err \<Rightarrow> Inl err | Inr t \<Rightarrow> Inr (flush t))"

text \<open>A sequence of events, stopped by the first exception.\<close>

fun run :: "event list \<Rightarrow> game \<Rightarrow> game result" where
  "run [] s = Inr s"
| "run (e # es) s = (case dispatch e s of Inl err \<Rightarrow> Inl err | Inr t \<Rightarrow> run es t)"

inductive reachable :: "game \<Rightarrow> bool" where
  boot: "unit_interval r \<Longrightarrow> reachable (mount (page_load r []))"
| step: "reachable s \<Longrightarrow> dispatch e s = Inr t \<Longrightarrow> reachable t"

text \<open>
  The snake for which the handler of an event asks the placer for food, if it does:
  the grown snake in a tick that eats, the snake of a new game in a reload.  A session
  is lucky when the placer finds a free cell each time it is asked; this says nothing
  about whether the handlers return.
\<close>

fun placing :: "event \<Rightarrow> game \<Rightarrow> cell list option" where
  "placing (Timer h) s =
     (case timers s h of
        None \<Rightarrow> None
      | Some (cb, ms) \<Rightarrow>
          (case cb of
             TickCb \<Rightarrow>
               if runningRef s \<and> outcome s = Ate then Some (next_head s # snakeRef s) else None
           | ReloadCb \<Rightarrow> Some (snakeRef (page_load (rng s) (alerts s)))))"
| "placing RestartClick s =
     (if canvasRef s \<and> \<not> runningRef s then Some (snakeRef (page_load (rng s) (alerts s)))
      else None)"
| "placing (KeyDown key) s = None"
| "placing LogoLoaded s = None"
| "placing PauseClick s = None"
| "placing Unmount s = None"

fun lucky :: "event list \<Rightarrow> game \<Rightarrow> bool" where
  "lucky [] s = True"
| "lucky (e # es) s =
     ((case placing e s of None \<Rightarrow> True | Some snake \<Rightarrow> finds snake (rng s)) \<and>
      (case dispatch e s of Inl err \<Rightarrow> True | Inr t \<Rightarrow> lucky es t))"

section \<open>The controller's invariant\<close>

text \<open>
  Beyond \<open>model_inv\<close>: food and logo exist, handles are fresh, the timer table holds
  exactly the timer whose handle is stored while the game runs and nothing while it
  does not, every timer has the period of 120 ms, the key listener is registered as
  long as the component is mounted, and an unmounted component does not run.
\<close>

definition timer_ok :: "game \<Rightarrow> bool" where
  "timer_ok s \<longleftrightarrow>
     (runningRef s \<longrightarrow> (\<exists>h cb. intervalRef s = Some h \<and> timers s = [h \<mapsto> (cb, 120)])) \<and>
     (\<not> runningRef s \<longrightarrow> timers s = Map.empty)"

definition ctrl_inv :: "game \<Rightarrow> bool" where
  "ctrl_inv s \<longleftrightarrow>
     model_inv s \<and> foodRef s \<noteq> None \<and> logoRef s \<noteq> None \<and> timers_fresh s \<and> timer_ok s \<and>
     (listening s \<longleftrightarrow> canvasRef s) \<and> (runningRef s \<longrightarrow> canvasRef s)"

text \<open>
  What the page shows: no render is pending between two events, the score line is
  the one of the React state, and the label of the pause button is the one of the
  first render.
\<close>

definition view_inv :: "game \<Rightarrow> bool" where
  "view_inv s \<longleftrightarrow>
     \<not> renderPending s \<and> scoreLine s = ''Score: '' @ string_of_nat (score s) \<and>
     pauseLabel s = ''Pause''"

section \<open>Facts\<close>

lemmas controller_defs [model_defs] =
  onload_def startLoop_def mount_def cleanup_def reload_def resetGame_def restartClick_def pauseClick_def fire_def

lemmas ctrl_inv_defs [inv_defs] = timer_ok_def ctrl_inv_def view_inv_def

subsection \<open>One turn of the event loop\<close>

lemma dispatch_cases [consumes 1]:
  assumes "dispatch e s = Inr t"
  obtains t' where "handle e s = Inr t'" and "t = flush t'"
  using assms by (auto simp: dispatch_def split: sum.splits)

lemma dispatch_quiet: "handle e s = Inr t \<Longrightarrow> \<not> renderPending t \<Longrightarrow> dispatch e s = Inr t"
  by (simp add: dispatch_def)

lemma dispatch_handle: "handle e s = Inr t \<Longrightarrow> dispatch e s = Inr (flush t)"
  by (simp add: dispatch_def)

lemma returns_dispatch_handle [simp]: "returns (dispatch e s) = returns (handle e s)"
  by (simp add: dispatch_def returns_iff split: sum.split)

inductive_cases reachable_cases: "reachable s"

lemma model_inv_page_load: "unit_interval r \<Longrightarrow> model_inv (page_load r shown)"
  by (simp add: page_load_def inv_defs tileCount_def)

lemma model_inv_handleKey: "model_inv s \<Longrightarrow> model_inv (handleKey key s)"
  by (simp add: model_inv_def dirRef_handleKey_steer steer_unit_dir)

lemma model_inv_place_food:
  assumes "model_inv s"
  shows "model_inv ((snd (spawnFood s))\<lparr>foodRef := Some (fst (spawnFood s))\<rparr>)"
  using assms in_grid_spawnFood [of s] unit_interval_spawnFood [of s]
  by (simp add: model_inv_def)

subsection \<open>Mounting\<close>

lemma mount_fields [simp]:
  "snakeRef (mount s) = snakeRef s" "dirRef (mount s) = dirRef s"
  "scoreRef (mount s) = scoreRef s" "score (mount s) = score s"
  "canvasRef (mount s) = canvasRef s" "alerts (mount s) = alerts s"
  "painted (mount s) = painted s" "logoLoadedRef (mount s) = logoLoadedRef s"
  "runningRef (mount s)" "listening (mount s)" "logoRef (mount s) = Some ''/intuition-logo.png''"
  "intervalRef (mount s) = Some (next_id s)" "next_id (mount s) = Suc (next_id s)"
  "timers (mount s) = (timers s)(next_id s \<mapsto> (TickCb, 120))"
  "renderPending (mount s) = renderPending s" "scoreLine (mount s) = scoreLine s"
  "pauseLabel (mount s) = pauseLabel s"
  by (simp_all add: mount_def startLoop_def setInterval_def Let_def split_beta)

lemma foodRef_mount:
  "foodRef (mount s) = (if foodRef s = None then Some (fst (spawnFood (s\<lparr>logoRef := Some ''/intuition-logo.png''\<rparr>))) else foodRef s)"
  by (simp add: mount_def startLoop_def setInterval_def Let_def split_beta)

lemma model_inv_mount: "model_inv s \<Longrightarrow> model_inv (mount s)"
proof -
  assume inv: "model_inv s"
  let ?s1 = "s\<lparr>logoRef := Some ''/intuition-logo.png''\<rparr>"
  from inv have "model_inv ?s1"
    by (simp add: model_inv_def)
  then have "model_inv ((snd (spawnFood ?s1))\<lparr>foodRef := Some (fst (spawnFood ?s1))\<rparr>)"
    by (rule model_inv_place_food)
  with \<open>model_inv ?s1\<close> show ?thesis
    by (simp add: mount_def startLoop_def setInterval_def Let_def split_beta model_inv_def)
qed

lemma ctrl_inv_mount:
  assumes "model_inv s" and "timers s = Map.empty" and "canvasRef s"
  shows "ctrl_inv (mount s)"
  using assms model_inv_mount [of s]
  by (auto simp: ctrl_inv_def timer_ok_def timers_fresh_def foodRef_mount)

lemma ctrl_inv_reload: "unit_interval (rng s) \<Longrightarrow> ctrl_inv (reload s)"
  unfolding reload_def
  by (rule ctrl_inv_mount) (simp_all add: model_inv_page_load, simp_all add: page_load_def)

subsection \<open>One lemma per handler\<close>

lemma ctrl_inv_rng: "ctrl_inv s \<Longrightarrow> unit_interval (rng s)"
  by (simp add: ctrl_inv_def model_inv_def)

text \<open>A step that touches the model only keeps the controller's part of the invariant.\<close>

lemma ctrl_inv_model_step:
  assumes "ctrl_inv s" and "model_inv t" and "foodRef t \<noteq> None"
    and "timers t = timers s" and "next_id t = next_id s" and "intervalRef t = intervalRef s"
    and "runningRef t = runningRef s" and "listening t = listening s"
    and "canvasRef t = canvasRef s" and "logoRef t = logoRef s"
  shows "ctrl_inv t"
  using assms by (simp add: ctrl_inv_def timer_ok_def timers_fresh_def)

text \<open>A step that stops the game and cancels the stored timer keeps it as well.\<close>

lemma ctrl_inv_stop_step:
  assumes "ctrl_inv s" and "model_inv t" and "foodRef t = foodRef s"
    and "timers t = timers (clearInterval (intervalRef s) s)" and "next_id t = next_id s"
    and "\<not> runningRef t" and "listening t = canvasRef t" and "logoRef t = logoRef s"
  shows "ctrl_inv t"
proof -
  have "timers (clearInterval (intervalRef s) s) = Map.empty"
  proof (cases "runningRef s")
    case True
    with assms(1) obtain h cb where "intervalRef s = Some h" "timers s = [h \<mapsto> (cb, 120)]"
      by (auto simp: ctrl_inv_def timer_ok_def)
    then show ?thesis
      by (simp add: clearInterval_def)
  next
    case False
    with assms(1) show ?thesis
      by (simp add: ctrl_inv_def timer_ok_def clearInterval_empty)
  qed
  with assms show ?thesis
    by (simp add: ctrl_inv_def timer_ok_def timers_fresh_def)
qed

lemma ctrl_inv_handleKey: "ctrl_inv s \<Longrightarrow> ctrl_inv (handleKey key s)"
  by (rule ctrl_inv_model_step [of s]) (simp_all add: ctrl_inv_def model_inv_handleKey)

lemma ctrl_inv_same_game: "same_game s t \<Longrightarrow> ctrl_inv t = ctrl_inv s"
  by (simp add: ctrl_inv_def timer_ok_def timers_fresh_def model_inv_same_game same_game_fields)

lemma ctrl_inv_draw [simp]: "ctrl_inv (draw s) = ctrl_inv s"
  by (rule ctrl_inv_same_game [OF same_game_draw])

lemma ctrl_inv_onload: "ctrl_inv s \<Longrightarrow> ctrl_inv (onload s)"
  unfolding onload_def ctrl_inv_draw
  by (rule ctrl_inv_model_step [of s]) (simp_all add: ctrl_inv_def model_inv_def)

lemma ctrl_inv_gameOver: "ctrl_inv s \<Longrightarrow> ctrl_inv (gameOver s)"
  by (rule ctrl_inv_stop_step [of s]) (simp_all add: ctrl_inv_def)

lemma ctrl_inv_advance: "ctrl_inv s \<Longrightarrow> \<not> collides s \<Longrightarrow> ctrl_inv (advance s)"
  by (rule ctrl_inv_model_step [of s])
    (simp_all add: ctrl_inv_def model_inv_advance)

lemma ctrl_inv_eat: "ctrl_inv s \<Longrightarrow> \<not> collides s \<Longrightarrow> ctrl_inv (eat s)"
  by (rule ctrl_inv_model_step [of s])
    (simp_all add: ctrl_inv_def model_inv_eat foodRef_eat)

lemma ctrl_inv_tick:
  assumes "ctrl_inv s" and "tick s = Inr t"
  shows "ctrl_inv t"
  using assms(2,1)
  by (cases rule: tick_cases) (simp_all add: ctrl_inv_gameOver ctrl_inv_advance ctrl_inv_eat)

lemma ctrl_inv_cleanup:
  assumes "ctrl_inv s" and "canvasRef s"
  shows "ctrl_inv (cleanup (s\<lparr>canvasRef := False\<rparr>))"
proof (rule ctrl_inv_stop_step [of s])
  show "model_inv (cleanup (s\<lparr>canvasRef := False\<rparr>))"
    using assms(1)
    by (simp add: ctrl_inv_def model_inv_def cleanup_def clearInterval_def split: option.split)
qed (use assms in \<open>simp_all add: ctrl_inv_def cleanup_def clearInterval_def split: option.split\<close>)

lemma ctrl_inv_restartClick: "ctrl_inv s \<Longrightarrow> ctrl_inv (restartClick s)"
  by (simp add: restartClick_def ctrl_inv_reload ctrl_inv_rng)

lemma pauseClick_running:
  "runningRef s \<Longrightarrow> pauseClick s = clearInterval (intervalRef s) (s\<lparr>runningRef := False\<rparr>)"
  by (simp add: pauseClick_def)

lemma pauseClick_stopped:
  "\<not> runningRef s \<Longrightarrow>
     pauseClick s = s\<lparr>timers := (timers s)(next_id s \<mapsto> (ReloadCb, 120)),
       next_id := Suc (next_id s), runningRef := True, intervalRef := Some (next_id s)\<rparr>"
  by (simp add: pauseClick_def setInterval_def Let_def)

lemma ctrl_inv_pauseClick:
  assumes "ctrl_inv s" and "canvasRef s"
  shows "ctrl_inv (pauseClick s)"
proof (cases "runningRef s")
  case True
  have "ctrl_inv (clearInterval (intervalRef s) (s\<lparr>runningRef := False\<rparr>))"
  proof (rule ctrl_inv_stop_step [of s])
    show "model_inv (clearInterval (intervalRef s) (s\<lparr>runningRef := False\<rparr>))"
      using assms(1) by (simp add: ctrl_inv_def model_inv_def clearInterval_def split: option.split)
  qed (use assms in \<open>simp_all add: ctrl_inv_def clearInterval_def split: option.split\<close>)
  with True show ?thesis
    by (simp add: pauseClick_running)
next
  case False
  with assms have empty: "timers s = Map.empty"
    by (simp add: ctrl_inv_def timer_ok_def)
  from assms False have "model_inv (pauseClick s)"
    by (simp add: pauseClick_stopped ctrl_inv_def model_inv_def)
  moreover have "\<exists>cb. [next_id s \<mapsto> (ReloadCb, 120::nat)] = [next_id s \<mapsto> (cb, 120)]"
    by (rule exI [of _ ReloadCb]) (rule refl)
  ultimately show ?thesis
    using assms False empty
    by (simp add: pauseClick_stopped ctrl_inv_def timer_ok_def timers_fresh_def)
qed

lemma ctrl_inv_fire: "ctrl_inv s \<Longrightarrow> fire cb s = Inr t \<Longrightarrow> ctrl_inv t"
  by (cases cb) (auto simp: fire_def ctrl_inv_tick ctrl_inv_reload ctrl_inv_rng)

lemma ctrl_inv_flush [simp]: "ctrl_inv (flush s) = ctrl_inv s"
  by (simp add: ctrl_inv_def timer_ok_def timers_fresh_def model_inv_def)

lemma ctrl_inv_handle:
  assumes "ctrl_inv s" and "handle e s = Inr t"
  shows "ctrl_inv t"
proof (cases e)
  case (KeyDown key)
  with assms show ?thesis by (auto simp: ctrl_inv_handleKey)
next
  case (Timer h)
  with assms show ?thesis by (auto simp: ctrl_inv_fire split: option.splits)
next
  case LogoLoaded
  with assms show ?thesis by (auto simp: ctrl_inv_onload)
next
  case RestartClick
  with assms show ?thesis by (auto simp: ctrl_inv_restartClick)
next
  case PauseClick
  with assms show ?thesis by (auto simp: ctrl_inv_pauseClick)
next
  case Unmount
  with assms show ?thesis by (auto simp: ctrl_inv_cleanup)
qed

lemma ctrl_inv_dispatch:
  assumes "ctrl_inv s" and "dispatch e s = Inr t"
  shows "ctrl_inv t"
  using assms(2,1) by (cases rule: dispatch_cases) (simp add: ctrl_inv_handle)

lemma ctrl_inv_boot: "unit_interval r \<Longrightarrow> ctrl_inv (mount (page_load r shown))"
  by (rule ctrl_inv_mount) (simp_all add: model_inv_page_load, simp_all add: page_load_def)

lemma reachable_ctrl_inv: "reachable s \<Longrightarrow> ctrl_inv s"
  by (induction rule: reachable.induct) (auto intro: ctrl_inv_boot ctrl_inv_dispatch)

subsection \<open>Runs\<close>

lemma returns_handle: "ctrl_inv s \<Longrightarrow> returns (handle e s)"
proof (cases e)
  case (Timer h)
  assume "ctrl_inv s"
  then have "returns (tick s)"
    by (intro tick_returns) (auto simp: ctrl_inv_def model_inv_def snake_ok_def)
  with Timer show ?thesis
    by (auto simp: fire_def split: option.split callback.split)
qed simp_all

lemma returns_dispatch: "ctrl_inv s \<Longrightarrow> returns (dispatch e s)"
  by (simp add: returns_handle)

lemma returns_run: "ctrl_inv s \<Longrightarrow> returns (run es s)"
proof (induction es arbitrary: s)
  case Nil
  show ?case by simp
next
  case (Cons e es)
  from Cons.prems obtain t where t: "dispatch e s = Inr t"
    using returns_dispatch [of s e] by (auto simp: returns_iff)
  with Cons.prems have "ctrl_inv t"
    by (rule ctrl_inv_dispatch)
  then have "returns (run es t)"
    by (rule Cons.IH)
  with t show ?case by simp
qed

lemma reachable_run: "reachable s \<Longrightarrow> run es s = Inr t \<Longrightarrow> reachable t"
proof (induction es arbitrary: s)
  case Nil
  then show ?case by simp
next
  case (Cons e es)
  from Cons.prems(2) obtain u where u: "dispatch e s = Inr u" and rest: "run es u = Inr t"
    by (auto split: sum.splits)
  from Cons.prems(1) u have "reachable u"
    by (rule reachable.step)
  from this rest show ?case
    by (rule Cons.IH)
qed

lemma fire_tick_timer: "timers s h = Some (TickCb, ms) \<Longrightarrow> handle (Timer h) s = tick s"
  by (simp add: fire_def)

lemma fire_reload_timer: "timers s h = Some (ReloadCb, ms) \<Longrightarrow> handle (Timer h) s = Inr (reload s)"
  by (simp add: fire_def)

lemma reload_fields [simp]:
  "snakeRef (reload s) = [Cell 10 10]" "dirRef (reload s) = Cell 1 0" "scoreRef (reload s) = 0"
  "score (reload s) = 0" "runningRef (reload s)" "canvasRef (reload s)" "listening (reload s)"
  "alerts (reload s) = alerts s" "painted (reload s) = []" "intervalRef (reload s) = Some 1"
  "timers (reload s) = [1 \<mapsto> (TickCb, 120)]" "\<not> renderPending (reload s)"
  "scoreLine (reload s) = ''Score: 0''" "pauseLabel (reload s) = ''Pause''"
  by (simp_all add: reload_def, simp_all add: page_load_def tileCount_def)

lemma handle_score:
  assumes "handle e s = Inr t"
  shows "scoreRef s \<le> scoreRef t \<or> t = reload s"
proof (cases e)
  case (Timer h)
  show ?thesis
  proof (cases "timers s h")
    case None
    with assms Timer show ?thesis by simp
  next
    case (Some entry)
    obtain cb ms where entry: "entry = (cb, ms)"
      by (cases entry)
    show ?thesis
    proof (cases cb)
      case TickCb
      with assms Timer Some entry have "tick s = Inr t"
        by (simp add: fire_def)
      then show ?thesis
        by (simp add: tick_score)
    next
      case ReloadCb
      with assms Timer Some entry show ?thesis
        by (simp add: fire_def)
    qed
  qed
qed (use assms in \<open>auto simp: onload_def restartClick_def pauseClick_def cleanup_def
      setInterval_def clearInterval_def split: if_splits option.splits\<close>)

lemma dispatch_score:
  assumes "dispatch e s = Inr t"
  shows "scoreRef s \<le> scoreRef t \<or> t = reload s"
  using assms
proof (cases rule: dispatch_cases)
  case (1 t')
  with handle_score [of e s t'] show ?thesis
    by auto
qed

subsection \<open>What the handlers leave of the view\<close>

lemma view_fields [frame, simp]:
  "renderPending (onload s) = renderPending s" "scoreLine (onload s) = scoreLine s"
  "pauseLabel (onload s) = pauseLabel s" "score (onload s) = score s"
  "renderPending (pauseClick s) = renderPending s" "scoreLine (pauseClick s) = scoreLine s"
  "pauseLabel (pauseClick s) = pauseLabel s" "score (pauseClick s) = score s"
  "renderPending (cleanup s) = renderPending s" "scoreLine (cleanup s) = scoreLine s"
  "pauseLabel (cleanup s) = pauseLabel s" "score (cleanup s) = score s"
  by (simp_all add: onload_def pauseClick_def cleanup_def setInterval_def clearInterval_def
      Let_def split: option.split)

lemma view_inv_reload [simp]: "view_inv (reload s)"
  by (simp add: view_inv_def string_of_nat.simps digit_char_def)

lemma view_inv_quiet: "view_inv s \<Longrightarrow> flush s = s"
  by (simp add: view_inv_def)

lemma view_inv_frame:
  assumes "view_inv s" and "renderPending t = renderPending s" and "scoreLine t = scoreLine s"
    and "pauseLabel t = pauseLabel s" and "score t = score s"
  shows "view_inv (flush t)"
  using assms by (simp add: view_inv_def)

lemma view_inv_tick:
  assumes "view_inv s" and "tick s = Inr t"
  shows "view_inv (flush t)"
  using assms(2)
proof (cases rule: tick_cases)
  case eaten
  with assms(1) show ?thesis
    by (cases "renderPending (eat s)") (auto simp: view_inv_def flush_def)
qed (use assms(1) in \<open>simp_all add: view_inv_frame\<close>)

lemma view_inv_handle:
  assumes "view_inv s" and "handle e s = Inr t"
  shows "view_inv (flush t)"
proof (cases e)
  case (Timer h)
  show ?thesis
  proof (cases "timers s h")
    case None
    with assms Timer show ?thesis
      by (simp add: view_inv_quiet)
  next
    case (Some entry)
    with assms Timer show ?thesis
      by (cases entry; cases "fst entry")
        (auto simp: fire_def view_inv_tick view_inv_quiet)
  qed
next
  case RestartClick
  with assms show ?thesis
    by (auto simp: restartClick_def view_inv_quiet)
qed (use assms in \<open>auto simp: view_inv_frame\<close>)

lemma view_inv_boot: "view_inv (mount (page_load r shown))"
  by (simp add: view_inv_def) (simp add: page_load_def string_of_nat.simps digit_char_def)

lemma reachable_view_inv: "reachable s \<Longrightarrow> view_inv s"
proof (induction rule: reachable.induct)
  case (boot r)
  show ?case by (rule view_inv_boot)
next
  case (step s e t)
  from step.hyps(2) show ?case
    by (cases rule: dispatch_cases) (simp add: view_inv_handle [OF step.IH])
qed

lemma reachable_quiet: "reachable s \<Longrightarrow> \<not> renderPending s"
  using reachable_view_inv [of s] by (simp add: view_inv_def)

text \<open>In a state without a pending render the handlers that do not tick ask for none.\<close>

lemma dispatch_simps [simp]:
  assumes "\<not> renderPending s"
  shows "dispatch (KeyDown key) s = Inr (if listening s then handleKey key s else s)"
    and "dispatch LogoLoaded s = Inr (if logoRef s \<noteq> None then onload s else s)"
    and "dispatch RestartClick s = Inr (if canvasRef s then restartClick s else s)"
    and "dispatch PauseClick s = Inr (if canvasRef s then pauseClick s else s)"
    and "dispatch Unmount s = Inr (if canvasRef s then cleanup (s\<lparr>canvasRef := False\<rparr>) else s)"
    and "timers s h = None \<Longrightarrow> dispatch (Timer h) s = Inr s"
    and "timers s h = Some (ReloadCb, ms) \<Longrightarrow> dispatch (Timer h) s = Inr (reload s)"
    and "timers s h = Some (TickCb, ms) \<Longrightarrow> tick s = Inr t \<Longrightarrow> dispatch (Timer h) s = Inr (flush t)"
  using assms by (simp_all add: dispatch_def fire_def restartClick_def)

subsection \<open>A reachable example\<close>

text \<open>
  The page right after loading it with a random source that offers \<open>(5, 5)\<close> for
  ever, and the same page after a click on the pause button.
\<close>

lemma reachable_booted: "reachable (mount (page_load (sconst (1 / 4)) []))"
  by (rule reachable.boot) simp

lemma foodRef_boot:
  assumes "sample_at r 0 \<noteq> Cell 10 10"
  shows "foodRef (mount (page_load r shown)) = Some (sample_at r 0)"
    and "rng (mount (page_load r shown)) = sdrop 2 r"
proof -
  let ?p = "(page_load r shown)\<lparr>logoRef := Some ''/intuition-logo.png''\<rparr>"
  from assms have "sample_at (rng ?p) 0 \<notin> set (snakeRef ?p)"
    by (simp add: page_load_def tileCount_def)
  then have food: "spawnFood ?p = (sample_at (rng ?p) 0, ?p\<lparr>rng := sdrop 2 (rng ?p)\<rparr>)"
    by (rule spawnFood_first)
  then show "foodRef (mount (page_load r shown)) = Some (sample_at r 0)"
    by (simp add: foodRef_mount) (simp add: page_load_def)
  from food show "rng (mount (page_load r shown)) = sdrop 2 r"
    by (simp add: mount_def startLoop_def setInterval_def Let_def split_beta) (simp add: page_load_def)
qed

lemma page_load_fields [simp]:
  "snakeRef (page_load r shown) = [Cell 10 10]" "dirRef (page_load r shown) = Cell 1 0"
  "scoreRef (page_load r shown) = 0" "score (page_load r shown) = 0"
  "canvasRef (page_load r shown)" "next_id (page_load r shown) = 1"
  "timers (page_load r shown) = Map.empty" "alerts (page_load r shown) = shown"
  "rng (page_load r shown) = r" "foodRef (page_load r shown) = None"
  "\<not> renderPending (page_load r shown)"
  by (simp_all add: page_load_def tileCount_def)

lemma booted_fields:
  "snakeRef (mount (page_load (sconst (1 / 4)) [])) = [Cell 10 10]"
  "foodRef (mount (page_load (sconst (1 / 4)) [])) = Some (Cell 5 5)"
  "timers (mount (page_load (sconst (1 / 4)) [])) = [1 \<mapsto> (TickCb, 120)]"
  "scoreRef (mount (page_load (sconst (1 / 4)) [])) = 0"
  "dirRef (mount (page_load (sconst (1 / 4)) [])) = Cell 1 0"
  using foodRef_boot(1) [of "sconst (1 / 4)" "[]"]
  by (simp_all add: randomTile_def tileCount_def)

subsection \<open>Food off the snake\<close>

lemma food_clear_mount:
  assumes "foodRef s = None" and "finds (snakeRef s) (rng s)"
  shows "food_clear (mount s)"
proof -
  let ?p = "s\<lparr>logoRef := Some ''/intuition-logo.png''\<rparr>"
  from assms(2) have "finds (snakeRef ?p) (rng ?p)"
    by simp
  then have "fst (spawnFood ?p) \<notin> set (snakeRef ?p)"
    by (rule spawnFood_finds)
  with assms(1) show ?thesis
    by (simp add: food_clear_iff foodRef_mount)
qed

lemma food_clear_reload:
  "finds (snakeRef (page_load (rng s) (alerts s))) (rng s) \<Longrightarrow> food_clear (reload s)"
  unfolding reload_def by (rule food_clear_mount) simp_all

lemma food_clear_fire:
  assumes "food_clear s" and "fire cb s = Inr t"
    and "\<And>snake. placing (Timer h) s = Some snake \<Longrightarrow> finds snake (rng s)"
    and "timers s h = Some (cb, ms)"
  shows "food_clear t"
proof (cases cb)
  case TickCb
  with assms(2) have "tick s = Inr t"
    by (simp add: fire_def)
  moreover have "finds (next_head s # snakeRef s) (rng s)" if "runningRef s" and "outcome s = Ate"
    using that assms(4) TickCb by (intro assms(3)) simp
  ultimately show ?thesis
    using assms(1) by (intro food_clear_tick [of s t])
next
  case ReloadCb
  with assms(4) have "finds (snakeRef (page_load (rng s) (alerts s))) (rng s)"
    by (intro assms(3)) simp
  then have "food_clear (reload s)"
    by (rule food_clear_reload)
  with assms(2) ReloadCb show ?thesis
    by (simp add: fire_def)
qed

text \<open>The handlers of keys, of the logo, of the pause button and of unmounting leave the board alone.\<close>

lemma handle_board:
  assumes "handle e s = Inr t" and "e \<in> {KeyDown key, LogoLoaded, PauseClick, Unmount}"
  shows "foodRef t = foodRef s" and "snakeRef t = snakeRef s"
  using assms
  by (auto simp: onload_def pauseClick_def cleanup_def clearInterval_def setInterval_def Let_def
      split: if_splits option.splits)

lemma food_clear_handle:
  assumes "food_clear s" and "handle e s = Inr t"
    and "\<And>snake. placing e s = Some snake \<Longrightarrow> finds snake (rng s)"
  shows "food_clear t"
proof (cases e)
  case (Timer h)
  show ?thesis
  proof (cases "timers s h")
    case None
    with assms(1,2) Timer show ?thesis by simp
  next
    case (Some entry)
    with assms(2) Timer have "fire (fst entry) s = Inr t" and "timers s h = Some (fst entry, snd entry)"
      by (simp_all add: split_beta)
    with assms(1) show ?thesis
      using assms(3) unfolding Timer by (intro food_clear_fire [of s "fst entry" t h "snd entry"])
  qed
next
  case RestartClick
  show ?thesis
  proof (cases "canvasRef s \<and> \<not> runningRef s")
    case True
    with RestartClick have "finds (snakeRef (page_load (rng s) (alerts s))) (rng s)"
      by (intro assms(3)) simp
    then have "food_clear (reload s)"
      by (rule food_clear_reload)
    with assms(2) RestartClick True show ?thesis
      by (simp add: restartClick_def)
  next
    case False
    with assms(1,2) RestartClick show ?thesis
      by (auto simp: restartClick_def)
  qed
qed (use assms(1,2) in \<open>blast intro: food_clear_frame handle_board\<close>)+

lemma food_clear_dispatch:
  assumes "food_clear s" and "dispatch e s = Inr t"
    and "\<And>snake. placing e s = Some snake \<Longrightarrow> finds snake (rng s)"
  shows "food_clear t"
  using assms(2)
proof (cases rule: dispatch_cases)
  case (1 t')
  from assms(1) 1(1) assms(3) have "food_clear t'"
    by (rule food_clear_handle)
  with 1(2) show ?thesis
    by simp
qed

lemma food_clear_run:
  assumes "food_clear s" and "lucky es s" and "run es s = Inr t"
  shows "food_clear t"
  using assms
proof (induction es arbitrary: s)
  case Nil
  then show ?case by simp
next
  case (Cons e es)
  from Cons.prems(3) obtain u where u: "dispatch e s = Inr u" and rest: "run es u = Inr t"
    by (auto split: sum.splits)
  from Cons.prems(2) u have here: "\<And>snake. placing e s = Some snake \<Longrightarrow> finds snake (rng s)"
    and later: "lucky es u"
    by simp_all
  from Cons.prems(1) u here have "food_clear u"
    by (rule food_clear_dispatch)
  from this later rest show ?case
    by (rule Cons.IH)
qed

section \<open>Properties of the controller\<close>

text \<open>
  Claim C2.  In every state the page can reach, the game is well formed: the snake
  has a head, lies on the board and does not cross itself, the direction is one of
  the four unit directions, food is placed on the board, the score is the number of
  segments the snake has gained, and the React state shows it.
\<close>

theorem reachable_well_formed:
  assumes "reachable s"
  shows "snake_ok (snakeRef s) \<and> unit_dir (dirRef s) \<and> (\<exists>f. foodRef s = Some f \<and> in_grid f) \<and>
     Suc (scoreRef s) = length (snakeRef s) \<and> score s = scoreRef s"
  using reachable_ctrl_inv [OF assms] by (auto simp: ctrl_inv_def model_inv_def)

theorem reachable_well_formed_witness:
  "snake_ok (snakeRef (mount (page_load (sconst (1 / 4)) []))) \<and>
   foodRef (mount (page_load (sconst (1 / 4)) [])) = Some (Cell 5 5) \<and> in_grid (Cell 5 5)"
  using reachable_well_formed [OF reachable_booted] by (simp add: booted_fields)

text \<open>
  Claim C7.  In every reachable state the game runs exactly when an interval timer
  is active; an active timer is the one whose handle \<^verbatim>\<open>intervalRef\<close> holds, it is
  the only one, and its period is 120 ms.
\<close>

theorem reachable_one_timer:
  assumes "reachable s"
  shows "(runningRef s \<longleftrightarrow> timers s \<noteq> Map.empty) \<and>
     (\<forall>h cb ms. timers s h = Some (cb, ms) \<longrightarrow> intervalRef s = Some h \<and> ms = 120)"
proof -
  from assms have ok: "timer_ok s"
    by (auto dest: reachable_ctrl_inv simp: ctrl_inv_def)
  show ?thesis
  proof (cases "runningRef s")
    case True
    with ok obtain h cb where "intervalRef s = Some h" "timers s = [h \<mapsto> (cb, 120)]"
      by (auto simp: timer_ok_def)
    with True show ?thesis
      by (auto split: if_splits)
  next
    case False
    with ok show ?thesis
      by (simp add: timer_ok_def)
  qed
qed

theorem reachable_one_timer_witness:
  "runningRef (mount (page_load (sconst (1 / 4)) [])) \<and>
   timers (mount (page_load (sconst (1 / 4)) [])) 1 = Some (TickCb, 120) \<and>
   intervalRef (mount (page_load (sconst (1 / 4)) [])) = Some 1"
  using reachable_one_timer [OF reachable_booted] by (simp add: booted_fields page_load_def)

text \<open>
  Claim C3.  No event raises an exception: from a reachable state every sequence of
  browser events is handled to its end.
\<close>

theorem reachable_no_exception:
  assumes "reachable s"
  shows "\<exists>t. run es s = Inr t \<and> reachable t"
proof -
  from assms have "returns (run es s)"
    by (intro returns_run reachable_ctrl_inv)
  then obtain t where "run es s = Inr t"
    by (auto simp: returns_iff)
  with assms show ?thesis
    by (auto intro: reachable_run)
qed

theorem reachable_no_exception_witness:
  "\<exists>t. run [KeyDown ''ArrowUp'', Timer 1, PauseClick] (mount (page_load (sconst (1 / 4)) [])) = Inr t
     \<and> reachable t"
  by (rule reachable_no_exception [OF reachable_booted])

text \<open>
  Claim C24.  The score never goes down within a page: an event either leaves the
  score at least as high as it was, or it is the reload of the page, which starts a
  new game with score 0.
\<close>

theorem score_drops_only_on_reload:
  assumes "dispatch e s = Inr t"
  shows "(scoreRef s \<le> scoreRef t \<or> t = reload s) \<and> scoreRef (reload s) = 0"
  using dispatch_score [OF assms] by simp

theorem score_drops_only_on_reload_witness:
  "\<exists>t. dispatch (Timer 1) (scenario [Cell 10 10] (Cell 1 0) (Some (Cell 11 10))) = Inr t \<and>
     scoreRef t = 1"
proof -
  let ?s = "scenario [Cell 10 10] (Cell 1 0) (Some (Cell 11 10))"
  have "tick ?s = Inr (draw (eat ?s))"
    by (rule tick_eats) (simp_all add: engine_ref_defs inv_defs tileCount_def)
  then have run: "dispatch (Timer 1) ?s = Inr (flush (draw (eat ?s)))"
    by simp
  from score_drops_only_on_reload [OF run] run show ?thesis
    by simp
qed

text \<open>
  Claim C25.  The score is bounded by the board: in every reachable state the snake
  has at most 400 segments and the score is at most 399, far below the integers a
  JavaScript number represents exactly.
\<close>

theorem reachable_score_bound:
  assumes "reachable s"
  shows "length (snakeRef s) \<le> 400 \<and> scoreRef s \<le> 399"
proof -
  from assms have inv: "model_inv s"
    by (auto dest: reachable_ctrl_inv simp: ctrl_inv_def)
  then have "length (snakeRef s) \<le> 400"
    by (simp add: model_inv_def snake_ok_length)
  with inv show ?thesis
    by (simp add: model_inv_def)
qed

theorem reachable_score_bound_witness:
  "length (snakeRef (mount (page_load (sconst (1 / 4)) []))) \<le> 400 \<and>
   scoreRef (mount (page_load (sconst (1 / 4)) [])) \<le> 399"
  by (rule reachable_score_bound [OF reachable_booted])

text \<open>
  Claim C23.  While the game does not run (paused or over), a timer event changes
  nothing: no timer is left that could fire, and a tick called in such a state
  returns at once.
\<close>

theorem stopped_is_frozen:
  assumes "reachable s" and "\<not> runningRef s"
  shows "dispatch (Timer h) s = Inr s \<and> tick s = Inr s"
proof -
  from assms have "timers s = Map.empty"
    by (auto dest: reachable_ctrl_inv simp: ctrl_inv_def timer_ok_def)
  with assms(2) reachable_quiet [OF assms(1)] show ?thesis
    by (simp add: tick_paused)
qed

theorem stopped_is_frozen_witness:
  "\<exists>t. run [PauseClick] (mount (page_load (sconst (1 / 4)) [])) = Inr t \<and>
     \<not> runningRef t \<and> dispatch (Timer 1) t = Inr t"
proof -
  let ?b = "mount (page_load (sconst (1 / 4)) [])"
  have "returns (run [PauseClick] ?b)"
    by (intro returns_run reachable_ctrl_inv reachable_booted)
  then obtain t where t: "run [PauseClick] ?b = Inr t"
    by (auto simp: returns_iff)
  with reachable_booted have "reachable t"
    by (rule reachable_run)
  moreover note t
  moreover from t reachable_quiet [OF reachable_booted] have "\<not> runningRef t"
    by (auto simp: pauseClick_def clearInterval_def split: if_splits)
  ultimately show ?thesis
    using stopped_is_frozen [of t 1] by blast
qed

text \<open>
  Claim C22.  The resume button does not resume: in a reachable state in which the
  game does not run, a click on the pause button installs a timer that reloads the
  page, and when it fires the game is a new one, with the initial snake and score 0,
  whatever the snake and the score were.  The same holds after a game over, where
  the specification wants the click to do nothing.
\<close>

theorem resume_starts_new_game:
  assumes "reachable s" and "canvasRef s" and "\<not> runningRef s"
  shows "run [PauseClick, Timer (next_id s)] s = Inr (reload s) \<and>
     snakeRef (reload s) = [Cell 10 10] \<and> scoreRef (reload s) = 0"
proof -
  from assms(1,3) have "timers s = Map.empty"
    by (auto dest: reachable_ctrl_inv simp: ctrl_inv_def timer_ok_def)
  with assms(2,3) reachable_quiet [OF assms(1)] show ?thesis
    by (simp add: pauseClick_stopped dispatch_def fire_def reload_def)
qed

theorem resume_starts_new_game_witness:
  "\<exists>s. reachable s \<and> canvasRef s \<and> \<not> runningRef s \<and> snakeRef s = [Cell 11 10] \<and>
     (\<exists>t. run [PauseClick, Timer (next_id s)] s = Inr t \<and> snakeRef t = [Cell 10 10])"
proof -
  let ?b = "mount (page_load (sconst (1 / 4)) [])"
  have boot: "timers ?b 1 = Some (TickCb, 120)" "runningRef ?b" "canvasRef ?b"
    by (simp_all add: booted_fields)
  have tick: "tick ?b = Inr (draw (advance ?b))"
    by (rule tick_moves [where food = "Cell 5 5"])
      (simp_all add: booted_fields engine_ref_defs inv_defs tileCount_def)
  let ?s = "pauseClick (draw (advance ?b))"
  from boot tick reachable_quiet [OF reachable_booted]
  have "run [Timer 1, PauseClick] ?b = Inr ?s"
    by simp
  with reachable_booted have s: "reachable ?s"
    by (rule reachable_run)
  have fields: "canvasRef ?s" "\<not> runningRef ?s" "snakeRef ?s = [Cell 11 10]"
    using boot
    by (simp_all add: pauseClick_running clearInterval_def advance_def booted_fields
        next_head_def split: option.split)
  from resume_starts_new_game [OF s fields(1,2)] s fields show ?thesis
    by blast
qed

text \<open>
  Claim C29.  A new game can always be had: from every reachable state in which the
  component is mounted, the restart button, after the pause button if the game runs,
  leads to a running game with the initial snake, score 0 and the tick timer
  installed.
\<close>

theorem new_game_reachable:
  assumes "reachable s" and "canvasRef s"
  shows "\<exists>es t. es \<in> {[RestartClick], [PauseClick, RestartClick]} \<and> run es s = Inr t \<and>
     snakeRef t = [Cell 10 10] \<and> scoreRef t = 0 \<and> runningRef t \<and>
     timers t = [1 \<mapsto> (TickCb, 120)]"
proof (cases "runningRef s")
  case True
  let ?p = "clearInterval (intervalRef s) (s\<lparr>runningRef := False\<rparr>)"
  from True assms(2) reachable_quiet [OF assms(1)]
  have "run [PauseClick, RestartClick] s = Inr (reload ?p)"
    by (simp add: pauseClick_running restartClick_def clearInterval_def split: option.split)
  then show ?thesis
    by (intro exI [of _ "[PauseClick, RestartClick]"] exI [of _ "reload ?p"]) simp
next
  case False
  with assms(2) reachable_quiet [OF assms(1)] have "run [RestartClick] s = Inr (reload s)"
    by (simp add: restartClick_def)
  then show ?thesis
    by (intro exI [of _ "[RestartClick]"] exI [of _ "reload s"]) simp
qed

theorem new_game_reachable_witness:
  "\<exists>es t. es \<in> {[RestartClick], [PauseClick, RestartClick]} \<and>
     run es (mount (page_load (sconst (1 / 4)) [])) = Inr t \<and> snakeRef t = [Cell 10 10] \<and>
     scoreRef t = 0 \<and> runningRef t \<and> timers t = [1 \<mapsto> (TickCb, 120)]"
  by (rule new_game_reachable [OF reachable_booted]) (simp add: page_load_def)

text \<open>
  Claim C21.  Two keys between two ticks can end the game: in a running game whose
  snake has at least two segments, the second right behind the head, there are two
  keys after which the next tick runs the head into the second segment and the game
  is over, although each key on its own is a legal turn.
\<close>

theorem two_keys_end_game:
  assumes "reachable s" and "runningRef s" and "timers s h = Some (TickCb, 120)"
    and "snakeRef s = a # b # rest"
    and "a = Cell (cx b + cx (dirRef s)) (cy b + cy (dirRef s))"
  shows "\<exists>k1 k2 t. run [KeyDown k1, KeyDown k2, Timer h] s = Inr t \<and> \<not> runningRef t \<and>
     snakeRef t = snakeRef s \<and>
     alerts t = alerts s @ [''Game Over! Final Score: '' @ string_of_nat (scoreRef s)]"
proof -
  from assms(1) have inv: "ctrl_inv s"
    by (rule reachable_ctrl_inv)
  with assms(2) have listen: "listening s" and unit: "unit_dir (dirRef s)"
    by (simp_all add: ctrl_inv_def model_inv_def)
  from handleKey_twice_flip [OF unit] obtain k1 k2
    where flip: "dirRef (handleKey k2 (handleKey k1 s)) = opposite (dirRef s)"
    by blast
  let ?u = "handleKey k2 (handleKey k1 s)"
  from flip assms(4,5) have "next_head ?u = b"
    by (cases b) (simp add: next_head_def opposite_def)
  with assms(4) have crash: "collides ?u"
    by (simp add: collides_def)
  from assms(2,4) crash have "tick ?u = Inr (gameOver ?u)"
    by (intro tick_collides) simp_all
  with listen assms(3) reachable_quiet [OF assms(1)]
  have "run [KeyDown k1, KeyDown k2, Timer h] s = Inr (gameOver ?u)"
    by simp
  then show ?thesis
    by (intro exI [of _ k1] exI [of _ k2] exI [of _ "gameOver ?u"]) simp
qed

theorem two_keys_end_game_witness:
  "\<exists>s k1 k2 t. snakeRef s = [Cell 11 10, Cell 10 10] \<and> dirRef s = Cell 1 0 \<and>
     run [KeyDown k1, KeyDown k2, Timer 1] s = Inr t \<and> \<not> runningRef t \<and>
     alerts t = [''Game Over! Final Score: 1'']"
proof -
  let ?r = "(11 / 20) ## (1 / 2) ## sconst (1 / 4)"
  let ?b = "mount (page_load ?r [])"
  define s where "s = flush (draw (eat ?b))"
  have "sample_at ?r 0 = Cell 11 10"
    by (simp add: sample_at_def randomTile_def tileCount_def)
  then have food: "foodRef ?b = Some (Cell 11 10)"
    using foodRef_boot(1) [of ?r "[]"] by simp
  have "tick ?b = Inr (draw (eat ?b))"
    by (rule tick_eats) (simp_all add: food engine_ref_defs, simp_all add: inv_defs tileCount_def)
  then have step: "dispatch (Timer 1) ?b = Inr s"
    by (simp add: s_def)
  have "reachable ?b"
    by (rule reachable.boot) simp
  from this step have reach: "reachable s"
    by (rule reachable.step)
  have fields: "runningRef s" "timers s 1 = Some (TickCb, 120)"
    "snakeRef s = [Cell 11 10, Cell 10 10]" "dirRef s = Cell 1 0"
    "alerts s = []" "scoreRef s = 1"
    by (simp_all add: s_def next_head_def)
  have neck: "Cell 11 10 = Cell (cx (Cell 10 10) + cx (dirRef s)) (cy (Cell 10 10) + cy (dirRef s))"
    by (simp add: fields)
  from two_keys_end_game [OF reach fields(1,2,3) neck]
  obtain k1 k2 t where "run [KeyDown k1, KeyDown k2, Timer 1] s = Inr t" and "\<not> runningRef t"
    and "alerts t = alerts s @ [''Game Over! Final Score: '' @ string_of_nat (scoreRef s)]"
    by blast
  with fields(3,4) show ?thesis
    by (intro exI [of _ s] exI [of _ k1] exI [of _ k2] exI [of _ t])
      (simp add: fields(5,6) string_of_nat_digit digit_char_def)
qed

text \<open>
  Claim C28.  The score line is always current: in every reachable state no render
  is pending and the line above the canvas shows the score of the game.
\<close>

theorem score_line_current:
  assumes "reachable s"
  shows "\<not> renderPending s \<and> scoreLine s = ''Score: '' @ string_of_nat (scoreRef s)"
  using reachable_view_inv [OF assms] reachable_ctrl_inv [OF assms]
  by (simp add: view_inv_def ctrl_inv_def model_inv_def)

theorem score_line_current_witness:
  "\<exists>s. reachable s \<and> scoreRef s = 1 \<and> scoreLine s = ''Score: 1''"
proof -
  let ?r = "(11 / 20) ## (1 / 2) ## sconst (1 / 4)"
  let ?b = "mount (page_load ?r [])"
  define s where "s = flush (draw (eat ?b))"
  have "sample_at ?r 0 = Cell 11 10"
    by (simp add: sample_at_def randomTile_def tileCount_def)
  then have food: "foodRef ?b = Some (Cell 11 10)"
    using foodRef_boot(1) [of ?r "[]"] by simp
  have "tick ?b = Inr (draw (eat ?b))"
    by (rule tick_eats) (simp_all add: food engine_ref_defs, simp_all add: inv_defs tileCount_def)
  then have step: "dispatch (Timer 1) ?b = Inr s"
    by (simp add: s_def)
  have "reachable ?b"
    by (rule reachable.boot) simp
  from this step have reach: "reachable s"
    by (rule reachable.step)
  moreover have "scoreRef s = 1"
    by (simp add: s_def)
  ultimately show ?thesis
    using score_line_current [of s]
    by (intro exI [of _ s]) (simp add: string_of_nat.simps digit_char_def)
qed

text \<open>
  Claim C27.  The label of the pause button never changes: in every reachable state
  it reads \<^verbatim>\<open>Pause\<close>, so the markup is up to date exactly while the game runs.  A
  paused or finished game still offers to pause and never to resume, because the
  label is computed from a reference, whose changes make React render nothing, and
  the only renders are those that follow a new score, in a running game.
\<close>

theorem pause_label_never_changes:
  assumes "reachable s"
  shows "pauseLabel s = ''Pause'' \<and> (view_current s \<longleftrightarrow> runningRef s)"
  using reachable_view_inv [OF assms]
  by (auto simp: view_inv_def view_current_iff)

theorem pause_label_never_changes_witness:
  "\<exists>s. reachable s \<and> \<not> runningRef s \<and> pauseLabel s = ''Pause'' \<and> \<not> view_current s"
proof -
  let ?b = "mount (page_load (sconst (1 / 4)) [])"
  let ?s = "pauseClick ?b"
  have "dispatch PauseClick ?b = Inr ?s"
    using reachable_quiet [OF reachable_booted] by simp
  with reachable_booted have reach: "reachable ?s"
    by (rule reachable.step)
  moreover have "\<not> runningRef ?s"
    by (simp add: pauseClick_running clearInterval_def split: option.split)
  ultimately show ?thesis
    using pause_label_never_changes [of ?s] by (intro exI [of _ ?s]) simp
qed

end
