(* ===== verification/Refinement.thy ===== *)
theory Refinement
  imports Game_Spec Game_Controller
begin

text \<open>
  The program against its design.  \<open>abstraction\<close> reads the model of the design off
  the state of the component; the direction of the last tick and the phase are not
  stored by the component and are supplied from outside.  \<open>refines\<close> is the simulation
  relation, \<open>admissible\<close> the events on which the component follows the design,
  and \<open>answer\<close> the command of the design that answers an event.
\<close>

section \<open>Abstraction\<close>

definition abstraction :: "cell \<Rightarrow> phase \<Rightarrow> game \<Rightarrow> model" where
  "abstraction cur p s =
     \<lparr>m_snake = snakeRef s, m_dir = cur, m_pending = dirRef s, m_food = foodRef s,
      m_score = scoreRef s, m_phase = p\<rparr>"

text \<open>Every installed timer calls \<^verbatim>\<open>tick\<close>.\<close>

definition ticking :: "game \<Rightarrow> bool" where
  "ticking s \<longleftrightarrow> (\<forall>h cb ms. timers s h = Some (cb, ms) \<longrightarrow> cb = TickCb)"

definition refines :: "model \<Rightarrow> game \<Rightarrow> bool" where
  "refines m s \<longleftrightarrow>
     ctrl_inv s \<and> canvasRef s \<and> ticking s \<and> m = abstraction (m_dir m) (m_phase m) s \<and>
     unit_dir (m_dir m) \<and> dirRef s \<noteq> opposite (m_dir m) \<and> (m_phase m = Running \<longleftrightarrow> runningRef s)"

section \<open>Events and commands\<close>

text \<open>
  The events on which the component follows the design: a key that is the first since
  the last tick, a timer, the logo, the restart button unless the game is paused, and
  the pause button while the game runs.
\<close>

fun admissible :: "event \<Rightarrow> model \<Rightarrow> bool" where
  "admissible (KeyDown key) m \<longleftrightarrow> m_pending m = m_dir m"
| "admissible (Timer h) m \<longleftrightarrow> True"
| "admissible LogoLoaded m \<longleftrightarrow> True"
| "admissible RestartClick m \<longleftrightarrow> m_phase m \<noteq> Paused"
| "admissible PauseClick m \<longleftrightarrow> m_phase m = Running"
| "admissible Unmount m \<longleftrightarrow> False"

fun matches :: "event \<Rightarrow> command \<Rightarrow> bool" where
  "matches (KeyDown key) c \<longleftrightarrow> c = Key key"
| "matches (Timer h) c \<longleftrightarrow> (case c of Tick new \<Rightarrow> in_grid new | _ \<Rightarrow> False)"
| "matches RestartClick c \<longleftrightarrow> (case c of Reset new \<Rightarrow> in_grid new | _ \<Rightarrow> False)"
| "matches PauseClick c \<longleftrightarrow> c = Pause"
| "matches LogoLoaded c \<longleftrightarrow> False"
| "matches Unmount c \<longleftrightarrow> False"

text \<open>
  The command that answers an event, read off the states before and after it: a tick
  and a reset carry the food that is on the board afterwards.  A timer that is not
  installed, the logo and the unmounting have no counterpart in the design.
\<close>

definition food_after :: "game \<Rightarrow> cell" where
  "food_after t = (case foodRef t of Some f \<Rightarrow> f | None \<Rightarrow> Cell 0 0)"

fun answer :: "event \<Rightarrow> game \<Rightarrow> game \<Rightarrow> command option" where
  "answer (KeyDown key) s t = Some (Key key)"
| "answer (Timer h) s t = (if timers s h = None then None else Some (Tick (food_after t)))"
| "answer LogoLoaded s t = None"
| "answer RestartClick s t = Some (Reset (food_after t))"
| "answer PauseClick s t = Some Pause"
| "answer Unmount s t = None"

definition follow :: "command option \<Rightarrow> model \<Rightarrow> model" where
  "follow c m = (case c of None \<Rightarrow> m | Some c' \<Rightarrow> control c' m)"

section \<open>Facts\<close>

lemma abstraction_fields [simp]:
  "m_snake (abstraction cur p s) = snakeRef s" "m_dir (abstraction cur p s) = cur"
  "m_pending (abstraction cur p s) = dirRef s" "m_food (abstraction cur p s) = foodRef s"
  "m_score (abstraction cur p s) = scoreRef s" "m_phase (abstraction cur p s) = p"
  by (simp_all add: abstraction_def)

lemma abstraction_cong:
  assumes "snakeRef t = snakeRef s" and "dirRef t = dirRef s" and "foodRef t = foodRef s"
    and "scoreRef t = scoreRef s"
  shows "abstraction cur p t = abstraction cur p s"
  using assms by (simp add: abstraction_def)

lemma abstraction_same_game: "same_game s t \<Longrightarrow> abstraction cur p t = abstraction cur p s"
  by (rule abstraction_cong) (simp_all add: same_game_fields)

lemma abstraction_draw [simp]: "abstraction cur p (draw s) = abstraction cur p s"
  by (rule abstraction_same_game [OF same_game_draw])

lemma refinesI:
  assumes "ctrl_inv t" and "canvasRef t" and "ticking t" and "unit_dir cur"
    and "dirRef t \<noteq> opposite cur" and "p = Running \<longleftrightarrow> runningRef t"
  shows "refines (abstraction cur p t) t"
  using assms by (simp add: refines_def)

lemma abstraction_flush [simp]: "abstraction cur p (flush s) = abstraction cur p s"
  by (rule abstraction_cong) simp_all

lemma refinesD:
  assumes "refines m s"
  shows "ctrl_inv s" and "canvasRef s" and "ticking s" and "m = abstraction (m_dir m) (m_phase m) s"
    and "unit_dir (m_dir m)" and "dirRef s \<noteq> opposite (m_dir m)"
    and "m_phase m = Running \<longleftrightarrow> runningRef s"
  using assms by (simp_all add: refines_def)

lemma ticking_same_timers: "timers t = timers s \<Longrightarrow> ticking t = ticking s"
  by (simp add: ticking_def)

lemma ticking_empty: "timers s = Map.empty \<Longrightarrow> ticking s"
  by (simp add: ticking_def)

lemma ticking_same_game: "same_game s t \<Longrightarrow> ticking t = ticking s"
  by (rule ticking_same_timers) (simp add: same_game_fields)

lemma ctrl_inv_stopped: "ctrl_inv s \<Longrightarrow> \<not> runningRef s \<Longrightarrow> timers s = Map.empty"
  by (simp add: ctrl_inv_def timer_ok_def)

lemma ctrl_inv_snake: "ctrl_inv s \<Longrightarrow> snakeRef s \<noteq> []"
  by (simp add: ctrl_inv_def model_inv_def snake_ok_def)

lemma refines_model_ok: "refines m s \<Longrightarrow> model_ok m"
proof -
  assume r: "refines m s"
  note d = refinesD [OF r]
  from d(1) have "model_inv s"
    by (simp add: ctrl_inv_def)
  then have "model_ok (abstraction (m_dir m) (m_phase m) s)"
    using d(5,6) by (simp add: model_ok_def model_inv_def)
  with d(4) show ?thesis
    by simp
qed

lemma ticking_flush [simp]: "ticking (flush s) = ticking s"
  by (rule ticking_same_timers) simp

lemma refines_flush [simp]: "refines m (flush s) = refines m s"
  by (simp add: refines_def)

lemma food_after_flush [simp]: "food_after (flush s) = food_after s"
  by (simp add: food_after_def)

lemma food_after_same_game: "same_game s t \<Longrightarrow> food_after t = food_after s"
  by (simp add: food_after_def same_game_fields)

lemma food_after_ctrl_inv:
  assumes "ctrl_inv t"
  shows "foodRef t = Some (food_after t)" and "in_grid (food_after t)"
  using assms by (auto simp: ctrl_inv_def model_inv_def food_after_def)

lemma food_free_abstraction [simp]: "food_free (abstraction cur p s) = food_clear s"
  by (simp add: food_free_def food_clear_def split: option.split)

lemma refines_food_free: "refines m s \<Longrightarrow> food_free m = food_clear s"
  using refinesD(4) [of m s] food_free_abstraction [of "m_dir m" "m_phase m" s] by simp

lemma follow_simps [simp]: "follow None m = m" "follow (Some c) m = control c m"
  by (simp_all add: follow_def)

subsection \<open>The tick\<close>

lemma sim_tick_abstraction:
  assumes "dirRef s \<noteq> opposite cur"
  shows "sim_tick new (abstraction cur p s) =
     (outcome s,
      case outcome s of
        Collided \<Rightarrow> abstraction cur p s
      | Ate \<Rightarrow> (abstraction (dirRef s) p s)\<lparr>m_snake := next_head s # snakeRef s,
          m_food := Some new, m_score := Suc (scoreRef s)\<rparr>
      | Continue \<Rightarrow> (abstraction (dirRef s) p s)\<lparr>m_snake := next_head s # butlast (snakeRef s)\<rparr>)"
  using assms
  by (auto simp: sim_tick_def Let_def adopt_def outcome_def collides_def next_head_def abstraction_def)

lemma abstraction_gameOver [simp]: "abstraction cur p (gameOver s) = abstraction cur p s"
  by (rule abstraction_cong) simp_all

lemma abstraction_advance:
  "snakeRef s \<noteq> [] \<Longrightarrow>
     abstraction cur p (advance s) = (abstraction cur p s)\<lparr>m_snake := next_head s # butlast (snakeRef s)\<rparr>"
  by (simp add: abstraction_def snakeRef_advance)

lemma abstraction_eat:
  "abstraction cur p (eat s) =
     (abstraction cur p s)\<lparr>m_snake := next_head s # snakeRef s, m_food := foodRef (eat s),
       m_score := Suc (scoreRef s)\<rparr>"
  by (simp add: abstraction_def)

lemma control_tick_abstraction:
  assumes "dirRef s \<noteq> opposite cur"
  shows "control (Tick new) (abstraction cur Running s) =
     (case outcome s of
        Collided \<Rightarrow> abstraction cur GameOver s
      | Ate \<Rightarrow> (abstraction (dirRef s) Running s)\<lparr>m_snake := next_head s # snakeRef s,
          m_food := Some new, m_score := Suc (scoreRef s)\<rparr>
      | Continue \<Rightarrow> (abstraction (dirRef s) Running s)\<lparr>m_snake := next_head s # butlast (snakeRef s)\<rparr>)"
  by (simp add: sim_tick_abstraction [OF assms] split: tick_result.split)

lemma outcome_simps:
  "collides s \<Longrightarrow> outcome s = Collided"
  "\<not> collides s \<Longrightarrow> foodRef s = Some (next_head s) \<Longrightarrow> outcome s = Ate"
  "\<not> collides s \<Longrightarrow> foodRef s = Some food \<Longrightarrow> food \<noteq> next_head s \<Longrightarrow> outcome s = Continue"
  by (simp_all add: outcome_def)

lemma refines_tick:
  assumes "refines m s" and "tick s = Inr t"
  shows "refines (control (Tick (food_after t)) m) t"
proof -
  note d = refinesD [OF assms(1)]
  define cur where "cur = m_dir m"
  define new where "new = food_after t"
  note step = control_tick_abstraction [OF d(6), folded cur_def]
  from d(1) have unit: "unit_dir (dirRef s)"
    by (simp add: ctrl_inv_def model_inv_def)
  note fwd = unit_dir_not_opposite [OF unit]
  from assms(2) show ?thesis
    unfolding new_def [symmetric]
  proof (cases rule: tick_cases)
    case paused
    with d(7) have "control (Tick new) m = m"
      by simp
    with paused assms(1) show "refines (control (Tick new) m) t"
      by simp
  next
    case crash
    with d(4,7) have m: "m = abstraction cur Running s"
      by (simp add: cur_def)
    from crash have "control (Tick new) m = abstraction cur GameOver t"
      unfolding m step by (simp add: outcome_simps)
    moreover have "refines (abstraction cur GameOver t) t"
      using d crash ctrl_inv_gameOver [of s]
      by (intro refinesI) (simp_all add: cur_def ticking_def clearInterval_def split: option.split)
    ultimately show "refines (control (Tick new) m) t"
      by simp
  next
    case (moved food)
    with d(4,7) have m: "m = abstraction cur Running s"
      by (simp add: cur_def)
    from moved have "control (Tick new) m = abstraction (dirRef s) Running t"
      unfolding m step by (simp add: outcome_simps abstraction_advance)
    moreover have "refines (abstraction (dirRef s) Running t) t"
      using d moved unit fwd ctrl_inv_advance [of s]
      by (intro refinesI) (simp_all add: ticking_def)
    ultimately show "refines (control (Tick new) m) t"
      by simp
  next
    case eaten
    then have "new = fst (spawnFood (grown s))"
      by (simp add: new_def food_after_def food_after_same_game [OF same_game_draw] foodRef_eat)
    moreover from eaten d(4,7) have m: "m = abstraction cur Running s"
      by (simp add: cur_def)
    ultimately have "control (Tick new) m = abstraction (dirRef s) Running t"
      using eaten unfolding m step by (simp add: outcome_simps abstraction_eat foodRef_eat)
    moreover have "refines (abstraction (dirRef s) Running t) t"
      using d eaten unit fwd ctrl_inv_eat [of s]
      by (intro refinesI) (simp_all add: ticking_def)
    ultimately show "refines (control (Tick new) m) t"
      by simp
  qed
qed

subsection \<open>Keys, buttons and the logo\<close>

lemma on_key_abstraction:
  assumes "unit_dir (dirRef s)"
  shows "on_key key (abstraction (dirRef s) p s) = abstraction (dirRef s) p (handleKey key s)"
  using assms
  by (simp add: on_key_steer dirRef_handleKey_steer)

lemma refines_key:
  assumes "refines m s" and "m_pending m = m_dir m"
  shows "refines (control (Key key) m) (handleKey key s)"
proof -
  note d = refinesD [OF assms(1)]
  from d(4) assms(2) have cur: "m_dir m = dirRef s"
    by (metis abstraction_fields(3))
  with d(4) have m: "m = abstraction (dirRef s) (m_phase m) s"
    by simp
  from d(5) cur have unit: "unit_dir (dirRef s)"
    by simp
  have "control (Key key) m = abstraction (dirRef s) (m_phase m) (handleKey key s)"
    by (subst m) (simp add: on_key_abstraction [OF unit])
  moreover have "refines (abstraction (dirRef s) (m_phase m) (handleKey key s)) (handleKey key s)"
    using d unit ctrl_inv_handleKey [of s key]
    by (intro refinesI) (simp_all add: ticking_def dirRef_handleKey_steer steer_not_opposite)
  ultimately show ?thesis
    by simp
qed

lemma refines_onload: "refines m s \<Longrightarrow> refines m (onload s)"
proof -
  assume r: "refines m s"
  note d = refinesD [OF r]
  have "refines (abstraction (m_dir m) (m_phase m) (onload s)) (onload s)"
    using d ctrl_inv_onload [of s]
    by (intro refinesI) (simp_all add: onload_def ticking_def)
  moreover have "abstraction (m_dir m) (m_phase m) (onload s) = m"
    by (subst (3) d(4)) (simp add: onload_def abstraction_def)
  ultimately show ?thesis
    by simp
qed

lemma refines_pause:
  assumes "refines m s" and "m_phase m = Running"
  shows "refines (control Pause m) (pauseClick s)"
proof -
  note d = refinesD [OF assms(1)]
  let ?t = "clearInterval (intervalRef s) (s\<lparr>runningRef := False\<rparr>)"
  from d(7) assms(2) have run: "runningRef s"
    by simp
  then have t: "pauseClick s = ?t"
    by (rule pauseClick_running)
  from d(1,2) have inv: "ctrl_inv (pauseClick s)"
    by (rule ctrl_inv_pauseClick)
  have fields: "snakeRef ?t = snakeRef s" "dirRef ?t = dirRef s" "foodRef ?t = foodRef s"
    "scoreRef ?t = scoreRef s" "canvasRef ?t = canvasRef s" "\<not> runningRef ?t"
    by (simp_all add: clearInterval_def split: option.split)
  from inv fields(6) have "timers ?t = Map.empty"
    unfolding t by (rule ctrl_inv_stopped)
  with inv d fields have "refines (abstraction (m_dir m) Paused ?t) ?t"
    unfolding t by (intro refinesI) (simp_all add: ticking_empty)
  moreover have "abstraction (m_dir m) Paused ?t = control Pause m"
    using assms(2) by (subst (2) d(4)) (simp add: abstraction_def fields)
  ultimately show ?thesis
    by (simp add: t)
qed

lemma refines_reload:
  assumes "unit_interval (rng s)"
  shows "refines (initial (food_after (reload s))) (reload s)"
proof -
  from assms have inv: "ctrl_inv (reload s)"
    by (rule ctrl_inv_reload)
  then have "refines (abstraction (Cell 1 0) Running (reload s)) (reload s)"
    by (intro refinesI) (simp_all add: ticking_def unit_dir_def opposite_def)
  moreover have "abstraction (Cell 1 0) Running (reload s) = initial (food_after (reload s))"
    by (simp add: abstraction_def initial_def food_after_ctrl_inv(1) [OF inv] tileCount_def)
  ultimately show ?thesis
    by simp
qed

lemma refines_restart:
  assumes "refines m s" and "m_phase m \<noteq> Paused"
  shows "refines (control (Reset (food_after (restartClick s))) m) (restartClick s)"
proof (cases "runningRef s")
  case True
  with refinesD(7) [OF assms(1)] have "control (Reset new) m = m" for new
    by simp
  with True assms(1) show ?thesis
    by (simp add: restartClick_def)
next
  case False
  with refinesD(7) [OF assms(1)] assms(2) have "m_phase m = GameOver"
    by (cases "m_phase m") simp_all
  then have "control (Reset new) m = initial new" for new
    by simp
  moreover from refinesD(1) [OF assms(1)] have "unit_interval (rng s)"
    by (rule ctrl_inv_rng)
  ultimately show ?thesis
    using False refines_reload [of s] by (simp add: restartClick_def)
qed

text \<open>The filter of the design against the filter of the program, on unit directions.\<close>

lemma filters_agree:
  assumes "unit_dir d" and "unit_dir c" and "d \<noteq> opposite c" and "unit_dir n"
  shows "(if n = opposite c then d else n) = (if n = opposite d then d else n) \<longleftrightarrow>
     c = d \<or> (n \<noteq> opposite c \<and> n \<noteq> opposite d)"
  using assms by (elim unit_dir_cases) (simp_all add: opposite_def)

lemma refines_boot:
  assumes "unit_interval r"
  shows "refines (initial (food_after (mount (page_load r [])))) (mount (page_load r []))"
proof -
  have "mount (page_load r []) = reload (page_load r [])"
    by (simp add: reload_def)
  with refines_reload [of "page_load r []"] assms show ?thesis
    by simp
qed

lemma refines_booted: "refines (initial (Cell 5 5)) (mount (page_load (sconst (1 / 4)) []))"
  using refines_boot [of "sconst (1 / 4)"] by (simp add: food_after_def booted_fields)

subsection \<open>One event\<close>

lemma timer_step:
  assumes "refines m s" and "handle (Timer h) s = Inr t"
  shows "refines (follow (answer (Timer h) s t) m) t"
proof (cases "timers s h")
  case None
  with assms show ?thesis
    by simp
next
  case (Some entry)
  with refinesD(3) [OF assms(1)] have "timers s h = Some (TickCb, snd entry)"
    by (cases entry) (auto simp: ticking_def)
  with assms(2) have "tick s = Inr t"
    by (simp add: fire_def)
  with assms(1) have "refines (control (Tick (food_after t)) m) t"
    by (rule refines_tick)
  with Some show ?thesis
    by simp
qed

lemma handle_step:
  assumes "refines m s" and "admissible e m" and "handle e s = Inr t"
  shows "refines (follow (answer e s t) m) t"
proof (cases e)
  case (KeyDown key)
  from refinesD(1,2) [OF assms(1)] have "listening s"
    by (simp add: ctrl_inv_def)
  with assms(2,3) KeyDown have t: "t = handleKey key s" and first: "m_pending m = m_dir m"
    by simp_all
  from assms(1) first have "refines (control (Key key) m) t"
    unfolding t by (rule refines_key)
  with KeyDown show ?thesis
    by simp
next
  case (Timer h)
  with assms(1,3) show ?thesis
    by (simp only: timer_step)
next
  case LogoLoaded
  with assms(3) have "t = onload s \<or> t = s"
    by (auto split: if_splits)
  with assms(1) LogoLoaded show ?thesis
    by (auto intro: refines_onload)
next
  case RestartClick
  with assms(2,3) refinesD(2) [OF assms(1)] have t: "t = restartClick s" and "m_phase m \<noteq> Paused"
    by simp_all
  with assms(1) have "refines (control (Reset (food_after t)) m) t"
    unfolding t by (intro refines_restart)
  then show ?thesis
    by (simp only: RestartClick answer.simps follow_simps)
next
  case PauseClick
  with assms(2,3) refinesD(2) [OF assms(1)] have t: "t = pauseClick s" and "m_phase m = Running"
    by simp_all
  with assms(1) have "refines (control Pause m) t"
    unfolding t by (intro refines_pause)
  with PauseClick show ?thesis
    by simp
next
  case Unmount
  with assms(2) show ?thesis by simp
qed

lemma answer_flush [simp]: "answer e s (flush t) = answer e s t"
  by (cases e) simp_all

lemma dispatch_step:
  assumes "refines m s" and "admissible e m" and "dispatch e s = Inr t"
  shows "refines (follow (answer e s t) m) t"
  using assms(3)
proof (cases rule: dispatch_cases)
  case (1 t')
  with handle_step [OF assms(1,2), of t'] show ?thesis
    by simp
qed

lemma answer_matches:
  assumes "ctrl_inv t" and "answer e s t = Some c"
  shows "matches e c"
  using assms food_after_ctrl_inv(2) [OF assms(1)]
  by (cases e) (auto split: if_splits)

section \<open>Properties of the refinement\<close>

text \<open>
  Claim C8.  \<^verbatim>\<open>tick\<close> implements the tick of the design.  In a running game with a
  snake and food, whose stored direction is not the opposite of the direction of the
  last tick, \<^verbatim>\<open>tick\<close> returns, and the tick of the design, run on the abstraction of the
  state before with the food \<^verbatim>\<open>spawnFood\<close> came up with, reports the outcome of the
  move and yields the abstraction of the state after: unchanged on a collision,
  moved in the stored direction otherwise.
\<close>

theorem tick_implements_sim_tick:
  assumes "runningRef s" and "snakeRef s \<noteq> []" and "foodRef s \<noteq> None"
    and "dirRef s \<noteq> opposite cur"
  shows "\<exists>t new. tick s = Inr t \<and>
     sim_tick new (abstraction cur p s) =
       (outcome s, abstraction (if collides s then cur else dirRef s) p t)"
proof -
  from assms(1-3) have "returns (tick s)"
    by (simp add: tick_returns)
  then obtain t where t: "tick s = Inr t"
    by (auto simp: returns_iff)
  note step = sim_tick_abstraction [OF assms(4)]
  from t show ?thesis
  proof (cases rule: tick_cases)
    case paused
    with assms(1) show ?thesis by simp
  next
    case crash
    with t have "sim_tick (Cell 0 0) (abstraction cur p s) = (outcome s, abstraction cur p t)"
      by (simp add: step outcome_simps)
    with t crash show ?thesis by auto
  next
    case (moved food)
    with t have "sim_tick (Cell 0 0) (abstraction cur p s) = (outcome s, abstraction (dirRef s) p t)"
      by (simp add: step outcome_simps abstraction_advance)
    with t moved show ?thesis by auto
  next
    case eaten
    let ?new = "fst (spawnFood (grown s))"
    from eaten t have "sim_tick ?new (abstraction cur p s) = (outcome s, abstraction (dirRef s) p t)"
      by (simp add: step outcome_simps abstraction_eat foodRef_eat)
    with t eaten show ?thesis by auto
  qed
qed

theorem tick_implements_sim_tick_witness:
  "\<exists>t new. tick (scenario [Cell 10 10] (Cell 1 0) (Some (Cell 11 10))) = Inr t \<and>
     sim_tick new (abstraction (Cell 1 0) Running (scenario [Cell 10 10] (Cell 1 0) (Some (Cell 11 10)))) =
       (Ate, abstraction (Cell 1 0) Running t)"
proof -
  let ?s = "scenario [Cell 10 10] (Cell 1 0) (Some (Cell 11 10))"
  have "\<exists>t new. tick ?s = Inr t \<and>
      sim_tick new (abstraction (Cell 1 0) Running ?s) =
        (outcome ?s, abstraction (if collides ?s then Cell 1 0 else dirRef ?s) Running t)"
    by (rule tick_implements_sim_tick) (simp_all add: opposite_def)
  moreover have "outcome ?s = Ate" and "\<not> collides ?s" and "dirRef ?s = Cell 1 0"
    by (simp_all add: outcome_def collides_def next_head_def inv_defs tileCount_def)
  ultimately show ?thesis
    by simp
qed

text \<open>
  Claim C13.  Where \<^verbatim>\<open>handleKey\<close> implements the key rule of the design, and where it
  does not.  The design compares a key with the direction of the last tick, the
  program with the stored direction.  The two agree on every key as long as no key
  has changed the stored direction since the last tick; after a turn they disagree
  on exactly two keys: the opposite of the last tick's direction, which the program
  accepts, and the opposite of the stored direction, which the program drops.
\<close>

theorem handleKey_implements_on_key:
  assumes "unit_dir (dirRef s)" and "unit_dir cur" and "dirRef s \<noteq> opposite cur"
  shows "on_key key (abstraction cur p s) = abstraction cur p (handleKey key s) \<longleftrightarrow>
     cur = dirRef s \<or> key_dir key \<notin> {Some (opposite cur), Some (opposite (dirRef s))}"
proof -
  have eq: "on_key key (abstraction cur p s) = abstraction cur p (handleKey key s) \<longleftrightarrow>
      m_pending (on_key key (abstraction cur p s)) = steer key (dirRef s)"
    using assms(1) by (auto simp: abstraction_def on_key_def dirRef_handleKey_steer split: option.split)
  show ?thesis
  proof (cases "key_dir key")
    case None
    then show ?thesis
      unfolding eq by (simp add: on_key_def steer_def)
  next
    case (Some n)
    then have "unit_dir n"
      by (rule key_dir_unit)
    with assms have "(if n = opposite cur then dirRef s else n) =
        (if n = opposite (dirRef s) then dirRef s else n) \<longleftrightarrow>
        cur = dirRef s \<or> (n \<noteq> opposite cur \<and> n \<noteq> opposite (dirRef s))"
      by (intro filters_agree)
    then have agree: "(if n = opposite cur then dirRef s else n) =
        (if n = opposite (dirRef s) then dirRef s else n) \<longleftrightarrow>
        cur = dirRef s \<or> key_dir key \<notin> {Some (opposite cur), Some (opposite (dirRef s))}"
      using Some by auto
    have "m_pending (on_key key (abstraction cur p s)) = (if n = opposite cur then dirRef s else n)"
      and "steer key (dirRef s) = (if n = opposite (dirRef s) then dirRef s else n)"
      using Some by (simp_all add: on_key_def steer_def)
    with agree show ?thesis
      unfolding eq by (simp only:)
  qed
qed

theorem handleKey_implements_on_key_witness:
  "on_key ''ArrowUp'' (abstraction (Cell 1 0) Running (scenario [Cell 10 10] (Cell 1 0) None)) =
     abstraction (Cell 1 0) Running (handleKey ''ArrowUp'' (scenario [Cell 10 10] (Cell 1 0) None)) \<and>
   on_key ''ArrowLeft'' (abstraction (Cell 1 0) Running (scenario [Cell 10 10] (Cell 0 (- 1)) None)) \<noteq>
     abstraction (Cell 1 0) Running (handleKey ''ArrowLeft'' (scenario [Cell 10 10] (Cell 0 (- 1)) None)) \<and>
   on_key ''ArrowDown'' (abstraction (Cell 1 0) Running (scenario [Cell 10 10] (Cell 0 (- 1)) None)) \<noteq>
     abstraction (Cell 1 0) Running (handleKey ''ArrowDown'' (scenario [Cell 10 10] (Cell 0 (- 1)) None))"
proof -
  let ?s = "scenario [Cell 10 10] (Cell 1 0) None"
  let ?u = "scenario [Cell 10 10] (Cell 0 (- 1)) None"
  have dirs: "unit_dir (Cell 1 0)" "unit_dir (Cell 0 (- 1))" "Cell 0 (- 1) \<noteq> opposite (Cell 1 0)"
    "Cell 1 0 \<noteq> opposite (Cell 1 0)"
    by (simp_all add: unit_dir_def opposite_def)
  have keys: "key_dir ''ArrowUp'' = Some (Cell 0 (- 1))" "key_dir ''ArrowLeft'' = Some (Cell (- 1) 0)"
    "key_dir ''ArrowDown'' = Some (Cell 0 1)"
    by (simp_all add: key_dir_def)
  have "on_key ''ArrowUp'' (abstraction (Cell 1 0) Running ?s) =
      abstraction (Cell 1 0) Running (handleKey ''ArrowUp'' ?s)"
    using handleKey_implements_on_key [of ?s "Cell 1 0" "''ArrowUp''" Running] dirs
    by simp
  moreover have "on_key ''ArrowLeft'' (abstraction (Cell 1 0) Running ?u) \<noteq>
      abstraction (Cell 1 0) Running (handleKey ''ArrowLeft'' ?u)"
    using handleKey_implements_on_key [of ?u "Cell 1 0" "''ArrowLeft''" Running] dirs
    by (simp add: keys opposite_def)
  moreover have "on_key ''ArrowDown'' (abstraction (Cell 1 0) Running ?u) \<noteq>
      abstraction (Cell 1 0) Running (handleKey ''ArrowDown'' ?u)"
    using handleKey_implements_on_key [of ?u "Cell 1 0" "''ArrowDown''" Running] dirs
    by (simp add: keys opposite_def)
  ultimately show ?thesis
    by (intro conjI)
qed

text \<open>
  Claim C4.  The component simulates the design on admissible events.  If a model
  of the design and a state of the component are related, and the component handles
  an event that is a timer, the logo, the first key since the last tick, the pause
  button in a running game or the restart button in a game that is not paused, then
  the state after is related to the model after the command of the design that
  answers the event (a tick or a reset with some cell of the board as food, the key,
  a pause), or to the same model when the event has no counterpart.
\<close>

theorem design_simulation:
  assumes "refines m s" and "admissible e m" and "dispatch e s = Inr t"
  shows "\<exists>m'. refines m' t \<and> (m' = m \<or> (\<exists>c. matches e c \<and> m' = control c m))"
proof -
  from assms have step: "refines (follow (answer e s t) m) t"
    by (rule dispatch_step)
  show ?thesis
  proof (cases "answer e s t")
    case None
    with step show ?thesis
      by auto
  next
    case (Some c)
    from assms(1,3) have "ctrl_inv t"
      by (auto intro: ctrl_inv_dispatch refinesD(1))
    then have "matches e c"
      using Some by (rule answer_matches)
    with step Some show ?thesis
      by auto
  qed
qed

theorem design_simulation_witness:
  "\<exists>m'. refines m' (handleKey ''ArrowUp'' (mount (page_load (sconst (1 / 4)) []))) \<and>
     (m' = initial (Cell 5 5) \<or>
      (\<exists>c. matches (KeyDown ''ArrowUp'') c \<and> m' = control c (initial (Cell 5 5))))"
proof -
  let ?b = "mount (page_load (sconst (1 / 4)) [])"
  have "admissible (KeyDown ''ArrowUp'') (initial (Cell 5 5))"
    by (simp add: initial_def)
  moreover have "dispatch (KeyDown ''ArrowUp'') ?b = Inr (handleKey ''ArrowUp'' ?b)"
    using reachable_quiet [OF reachable_booted] by simp
  ultimately show ?thesis
    by (rule design_simulation [OF refines_booted])
qed

text \<open>
  Claim C26.  A freshly loaded page starts where the design starts: the state after
  the effect has run is related to the initial model of the design, with the food
  \<^verbatim>\<open>spawnFood\<close> has placed, which is a cell of the board.
\<close>

theorem design_simulation_init:
  assumes "unit_interval r"
  shows "in_grid (food_after (mount (page_load r []))) \<and>
     refines (initial (food_after (mount (page_load r [])))) (mount (page_load r []))"
  using assms by (simp add: refines_boot food_after_ctrl_inv(2) ctrl_inv_boot)

theorem design_simulation_init_witness:
  "refines (initial (Cell 5 5)) (mount (page_load (sconst (1 / 4)) []))"
  using design_simulation_init [of "sconst (1 / 4)"]
  by (simp add: food_after_def booted_fields)

end
