(* ===== verification/Spec2Isabelle.thy ===== *)
theory Spec2Isabelle
  imports Refinement
begin

text \<open>
  \<^bold>\<open>A verification development for the Intuition snake game.\<close>

  \<^bold>\<open>The program.\<close>  The repository is a Next.js page.  \<^verbatim>\<open>src/app/page.js\<close> shows one
  React component, \<^verbatim>\<open>SnakeGame\<close> of \<^verbatim>\<open>src/app/components/SnakeGame.js\<close>, and that
  component is the whole game.  It keeps the game in mutable references (\<^verbatim>\<open>useRef\<close>):
  the snake as a list of cells with the head first, the direction, the food cell, the
  score, a running flag and the handle of an interval timer.  Its effect, run once
  when the component is mounted, creates the logo image, places the first food,
  registers a \<^verbatim>\<open>keydown\<close> listener and starts an interval timer of 120 ms that calls
  \<^verbatim>\<open>tick\<close>.  A tick moves the snake by one cell, ends the game on a collision, lets the
  snake grow and asks for new food when the head reaches the food, and paints the
  board on a canvas.  Two buttons restart the game and pause it; both do their work
  by reloading the page.

  \<^bold>\<open>The model.\<close>  A shallow embedding: each function of the component is a HOL function
  of the same name over one record of state, and the browser calls them through a
  dispatcher of events.  The theories follow the parts of the program.

  \<^item> \<open>Snake_Prelude\<close> holds the fact collections \<open>model_defs\<close>, \<open>inv_defs\<close> and \<open>frame\<close>,
    the result type \<open>error + 'a\<close> for functions that can raise a JavaScript
    \<^verbatim>\<open>TypeError\<close>, the promise of \<^verbatim>\<open>Math.random\<close> as the predicate \<open>unit_interval\<close> on a
    stream of reals, the decimal numerals that string concatenation produces
    (\<open>string_of_nat\<close>) and generic facts on lists and streams.

  \<^item> \<open>Browser\<close> is what the component uses of the platform, modelled from the
    platform's contract because this code is not in the repository: a table of
    interval timers with fresh handles (\<open>setInterval\<close>, \<open>clearInterval\<close>), the list of
    alerts shown, the random source as a stream that every call of \<^verbatim>\<open>Math.random\<close>
    consumes, the registration of the key listener, and the canvas context as the
    list of drawing operations performed on it (\<open>fillRect\<close>, \<open>drawImage\<close>, \<open>fillText\<close>)
    together with the current \<open>fillStyle\<close> and \<open>font\<close>.

  \<^item> \<open>Grid_Model\<close> (lines 6 to 23 of \<^verbatim>\<open>SnakeGame.js\<close>) holds the constants
    \<open>tileCount\<close>, \<open>boxSize\<close> and \<open>canvasSize\<close>, the cells, the record \<open>game\<close> with one field
    for each reference and for the React state \<open>score\<close>, with the two texts of the
    markup that depend on the state and a flag for a render that has been asked for,
    the state \<open>page_load\<close> of a fresh page, and the invariant \<open>model_inv\<close>: the snake
    has a head, lies on the board and does not cross itself, the direction is a unit
    direction, food lies on the board, the score is the number of segments gained
    and equals the React state, and the random source stays within \<open>[0, 1)\<close>.  The
    board has 400 cells, so a well-formed snake has at most 400 segments.  That the
    food is on no cell of the snake is a predicate of its own, \<open>food_clear\<close>: the
    program keeps it only while the placer finds free cells.

  \<^item> \<open>View\<close> holds the two expressions of the markup that depend on the state,
    \<open>scoreText\<close> (line 173) and \<open>pauseText\<close> (line 209), and what React does with
    them, modelled from React's contract: \<open>render\<close> puts the two texts on the page,
    \<open>setScore\<close> stores a score and asks for a render if the score is new, and \<open>flush\<close>
    is the render React performs once the handler has returned.  A change of a
    reference asks for no render.

  \<^item> \<open>Food_Placer\<close> (lines 26 to 37) models \<^verbatim>\<open>spawnFood\<close>.  The do-while loop is the
    function \<open>spawnLoop\<close> on the number of tries made, which terminates because the
    loop breaks after the 501st sample; \<open>place_from\<close> is the same search by structural
    recursion, \<open>place\<close> its specification by \<open>find\<close> over the first 500 samples.  The
    lemmas show that the three agree, that the result lies on the board, that it is
    the first sample off the snake among the first 500, how many random numbers are
    consumed, and that the 501st sample is returned unchecked.  \<open>finds\<close> says of a
    snake and a random source that one of the 500 checked samples is free.

  \<^item> \<open>Input_Controller\<close> (lines 53 to 59) models \<^verbatim>\<open>handleKey\<close> with its four
    conditionals in sequence, all reading the direction stored at the start, and
    shows that it equals the specification \<open>steer\<close>: an arrow key is adopted unless it
    is the opposite of the stored direction, any other key changes nothing.

  \<^item> \<open>Renderer\<close> (lines 102 to 131) models \<^verbatim>\<open>draw\<close> as the sequence of calls on the
    canvas context it makes, and shows that it paints exactly the frame \<open>frame_ops\<close>
    determined by the model, that it changes nothing but the canvas, and that a
    second call paints the same frame again.

  \<^item> \<open>Simulation_Engine\<close> (lines 63 to 99 and 147 to 154) models \<^verbatim>\<open>tick\<close> and
    \<^verbatim>\<open>gameOver\<close>.  \<open>tick\<close> returns \<open>Inl TypeError\<close> where the JavaScript reads a property
    of \<^verbatim>\<open>undefined\<close> or \<^verbatim>\<open>null\<close>: on an empty snake and on a move before food has
    been placed.  An exception is the value \<open>Inl TypeError\<close> alone: the state at the
    time of the throw (in which line 85 has already put the new head on the snake
    when line 88 raises) is not kept, and no theorem speaks of it.  The lemmas give
    the result of a tick on each of its four branches (\<open>tick_cases\<close>), against the
    reference definitions \<open>next_head\<close>, \<open>collides\<close>, \<open>advance\<close> and \<open>eat\<close>, and show that
    a tick keeps \<open>model_inv\<close>, and \<open>food_clear\<close> when the placer finds a free cell.

  \<^item> \<open>Game_Controller\<close> (lines 39 to 60, 133 to 145, 156 to 168 and 182 to 206) models
    the body of the effect (\<open>mount\<close>, which ends with \<open>startLoop\<close>), the \<^verbatim>\<open>onload\<close>
    handler of the logo, the cleanup function, the handlers of the two buttons,
    \<^verbatim>\<open>resetGame\<close> and the reload of the page.  \<^verbatim>\<open>resetGame\<close> is translated for the
    record: nothing calls it, so no event reaches it and no theorem is about it.
    \<open>handle\<close> hands an event of the browser (a key, a timer firing, the logo loaded,
    a click, the component unmounted) to its handler, \<open>dispatch\<close> adds the render
    that follows, \<open>run\<close> takes a sequence of events; \<open>reachable\<close> is the set of states
    a fresh page reaches.  \<open>placing\<close> names the snake for which the handler of an
    event asks the placer for food, and a session is \<open>lucky\<close> when the placer finds
    a free cell each time.  The invariant \<open>ctrl_inv\<close> adds to \<open>model_inv\<close> that
    food and logo exist, that timer handles are
    fresh, that the timer table holds exactly the timer whose handle is stored while
    the game runs and is empty while it does not, and that the listener is
    registered exactly while the component is mounted.  It holds in every reachable
    state, and with it no event raises an exception.  The invariant \<open>view_inv\<close> says
    what the page shows between two events.

  \<^item> \<open>Game_Spec\<close> is the game as its design describes it, with nothing taken from
    the source: a model with the snake, the direction of the last tick, the pending
    direction, the food, the score and a phase (running, paused, over); the key rule
    \<open>on_key\<close>, which compares a key with the direction of the last tick; the tick
    \<open>sim_tick\<close>, which reports \<open>Continue\<close>, \<open>Ate\<close> or \<open>Collided\<close>; and the controller
    \<open>control\<close> over the commands tick, key, pause, resume and reset.  Its invariant
    \<open>model_ok\<close> (snake, directions, food on the board, score) is kept by every
    command; its invariant \<open>food_free\<close> (food off the snake) is kept as long as the
    cell a tick or a reset carries is off the snake, which is what the design asks
    of the food placer.

  \<^item> \<open>Refinement\<close> compares the program with the design.  \<open>abstraction\<close> reads a model
    off a state of the component; the direction of the last tick and the phase,
    which the component does not store, are parameters.  The relation \<open>refines\<close> adds
    the controller's invariant and that every installed timer calls \<^verbatim>\<open>tick\<close>.
    The lemmas show that \<^verbatim>\<open>tick\<close> implements \<open>sim_tick\<close>, that \<^verbatim>\<open>handleKey\<close>
    implements \<open>on_key\<close> exactly on the keys characterised there, and that every
    \<open>admissible\<close> event of the component is answered by the command of the design
    that \<open>matches\<close> it (a forward simulation, started by the freshly loaded page).
    The events that are not admissible are the second key between two ticks, the
    pause button in a game that does not run, the restart button in a paused game
    and the unmounting of the component: on these the design asks for something
    else, or for nothing.

  \<^item> This theory holds the properties of whole sessions, which need all of the
    above.  \<open>admitted\<close> says that the events of a session are admissible one after the
    other, \<open>replay\<close> is the model the design reaches beside the session; \<open>meal_page\<close>,
    \<open>meal_fed\<close>, \<open>meal_turned\<close> and \<open>meal\<close> are an example session with a meal and a
    turn, on which the properties are instantiated.

  \<^bold>\<open>Correspondence of state and time.\<close>  JavaScript runs each handler to its end
  before the next event, so a handler is a function from state to state and a session
  a list of events.  Objects the component mutates in place (the array of the snake)
  are never aliased in a way a handler could observe, so the snake is a value.  The
  arithmetic is on integers well within the exact range of doubles: coordinates stay
  in \<open>[-1, 20]\<close> and the score below 400.  \<^verbatim>\<open>Math.floor(Math.random() * 20)\<close> is
  modelled on real numbers; rounding of the product in double precision is not
  modelled.  A reload keeps the random source and the alerts shown, and nothing else.

  \<^bold>\<open>Bounds.\<close>  The only loop that is not a traversal of a list is the loop of
  \<^verbatim>\<open>spawnFood\<close>; its bound of 501 samples is the program's own, so no fuel is chosen by
  the model and \<open>spawnLoop\<close> is a total function with a termination proof.

  \<^bold>\<open>What the properties show.\<close>  The engine keeps the invariant, moves, grows and
  stops as specified; the placer returns a free cell of the board whenever one of
  its first 500 samples is free; the key handler never stores the opposite of the
  stored direction; the renderer is a function of the model; every reachable state
  is well formed and has at most one timer; no session raises an exception; the
  score is bounded by the board and only a reload lowers it; on admissible events
  the component simulates the controller of the design, event by event and over
  whole sessions, in which the invariants of the design hold; the food stays off the
  snake in every session in which the placer finds free cells; the score line is
  always current.  Five properties record where the program departs from what its
  design says: food can land on the snake although free cells exist; two keys
  between two ticks reverse the snake and end the game, while a key the design
  accepts after a turn is dropped; the resume button starts a new game instead of
  resuming; a reload is the only way back to a running game; and the pause button
  never reads \<^verbatim>\<open>Resume\<close>.

  \<^bold>\<open>Not modelled.\<close>  The static part of the markup the component returns (lines 170
  to 214 apart from the two expressions and the two click handlers), its styling,
  and the page around it (\<^verbatim>\<open>page.js\<close>).  The state in which an exception leaves the
  component.  A render is taken to follow the handler that asked for it before the
  next event is handled.  The pixels of the canvas: the model records which drawing
  calls are made, not what they cover.
  The loading of the image over the network: the model has the event that it has
  loaded, at any time after the image was created.  The wall-clock time of the timer:
  a timer that is installed may fire at any point of a session.

  \<^bold>\<open>Plan.\<close>  To follow: the pixels a frame covers; the component mounted twice, as
  React does in its strict mode; events between a handler and the render it has
  asked for; a bound on the length of the snake below which a random source that is
  uniform finds a free cell with a stated probability.
\<close>

section \<open>Sessions\<close>

text \<open>
  The design running beside a session of the component.  \<open>admitted\<close> says that every
  event of the session is admissible for the model the design has reached when the
  event arrives; where a handler raises an exception it asks nothing of the events
  after it, so it does not say that the handlers return.  \<open>replay\<close> is the model the
  design reaches by the commands that answer the events.
\<close>

fun admitted :: "event list \<Rightarrow> model \<Rightarrow> game \<Rightarrow> bool" where
  "admitted [] m s = True"
| "admitted (e # es) m s =
     (admissible e m \<and>
      (case dispatch e s of
         Inl err \<Rightarrow> True
       | Inr t \<Rightarrow> admitted es (follow (answer e s t) m) t))"

fun replay :: "event list \<Rightarrow> model \<Rightarrow> game \<Rightarrow> model" where
  "replay [] m s = m"
| "replay (e # es) m s =
     (case dispatch e s of
        Inl err \<Rightarrow> m
      | Inr t \<Rightarrow> replay es (follow (answer e s t) m) t)"

text \<open>
  An example session: the random source first offers the cell \<open>(11, 10)\<close>, in front
  of the snake, and then \<open>(5, 5)\<close> for ever; the first tick eats, a key turns the snake
  up, and the second tick moves it.
\<close>

definition meal_page :: game where
  "meal_page = mount (page_load ((11 / 20) ## (1 / 2) ## sconst (1 / 4)) [])"

definition meal_fed :: game where
  "meal_fed = flush (draw (eat meal_page))"

definition meal_turned :: game where
  "meal_turned = handleKey ''ArrowUp'' meal_fed"

definition meal :: "event list" where
  "meal = [Timer 1, KeyDown ''ArrowUp'', Timer 1]"

subsection \<open>The design beside a session\<close>

lemma replay_simulation:
  assumes "refines m s" and "admitted es m s"
  shows "\<exists>t. run es s = Inr t \<and> refines (replay es m s) t"
  using assms
proof (induction es arbitrary: m s)
  case Nil
  then show ?case by simp
next
  case (Cons e es)
  from Cons.prems(1) have "returns (dispatch e s)"
    by (intro returns_dispatch refinesD(1))
  then obtain u where u: "dispatch e s = Inr u"
    by (auto simp: returns_iff)
  with Cons.prems(2) have ok: "admissible e m" and rest: "admitted es (follow (answer e s u) m) u"
    by simp_all
  from Cons.prems(1) ok u have "refines (follow (answer e s u) m) u"
    by (rule dispatch_step)
  from Cons.IH [OF this rest] u show ?case
    by simp
qed

subsection \<open>The example session\<close>

lemma meal_page_fields:
  "foodRef meal_page = Some (Cell 11 10)" "rng meal_page = sconst (1 / 4)"
  "snakeRef meal_page = [Cell 10 10]" "dirRef meal_page = Cell 1 0" "runningRef meal_page"
  "listening meal_page" "timers meal_page 1 = Some (TickCb, 120)" "scoreRef meal_page = 0"
  "\<not> renderPending meal_page"
proof -
  have "sample_at ((11 / 20) ## (1 / 2) ## sconst (1 / 4)) 0 = Cell 11 10"
    by (simp add: sample_at_def randomTile_def tileCount_def)
  then show "foodRef meal_page = Some (Cell 11 10)" "rng meal_page = sconst (1 / 4)"
    "snakeRef meal_page = [Cell 10 10]" "dirRef meal_page = Cell 1 0" "runningRef meal_page"
    "listening meal_page" "timers meal_page 1 = Some (TickCb, 120)" "scoreRef meal_page = 0"
    "\<not> renderPending meal_page"
    using foodRef_boot [of "(11 / 20) ## (1 / 2) ## sconst (1 / 4)" "[]"]
    by (simp_all add: meal_page_def numeral_2_eq_2)
qed

lemma meal_page_outcome: "outcome meal_page = Ate" "next_head meal_page = Cell 11 10"
  by (simp_all add: meal_page_fields engine_ref_defs inv_defs tileCount_def)

lemma meal_page_finds: "finds (next_head meal_page # snakeRef meal_page) (rng meal_page)"
proof (rule findsI)
  show "sample_at (rng meal_page) 0 \<notin> set (next_head meal_page # snakeRef meal_page)"
    by (simp add: meal_page_fields meal_page_outcome randomTile_def tileCount_def)
qed simp

lemma meal_fed_fields:
  "foodRef meal_fed = Some (Cell 5 5)" "snakeRef meal_fed = [Cell 11 10, Cell 10 10]"
  "dirRef meal_fed = Cell 1 0" "runningRef meal_fed" "listening meal_fed"
  "timers meal_fed 1 = Some (TickCb, 120)" "\<not> renderPending meal_fed"
proof -
  have "sample_at (rng meal_page) 0 \<notin> set (next_head meal_page # snakeRef meal_page)"
    by (simp add: meal_page_fields meal_page_outcome randomTile_def tileCount_def)
  then have "foodRef (eat meal_page) = Some (sample_at (rng meal_page) 0)"
    by (rule foodRef_eat_first)
  then show "foodRef meal_fed = Some (Cell 5 5)" "snakeRef meal_fed = [Cell 11 10, Cell 10 10]"
    "dirRef meal_fed = Cell 1 0" "runningRef meal_fed" "listening meal_fed"
    "timers meal_fed 1 = Some (TickCb, 120)" "\<not> renderPending meal_fed"
    using meal_page_fields(7)
    by (simp_all add: meal_fed_def meal_page_fields meal_page_outcome randomTile_def tileCount_def)
qed

lemma meal_turned_fields:
  "foodRef meal_turned = Some (Cell 5 5)" "snakeRef meal_turned = [Cell 11 10, Cell 10 10]"
  "dirRef meal_turned = Cell 0 (- 1)" "runningRef meal_turned"
  "timers meal_turned 1 = Some (TickCb, 120)" "\<not> renderPending meal_turned"
  "outcome meal_turned = Continue"
proof -
  show fields: "foodRef meal_turned = Some (Cell 5 5)"
    "snakeRef meal_turned = [Cell 11 10, Cell 10 10]" "dirRef meal_turned = Cell 0 (- 1)"
    "runningRef meal_turned" "timers meal_turned 1 = Some (TickCb, 120)"
    "\<not> renderPending meal_turned"
    using meal_fed_fields(6) by (simp_all add: meal_turned_def meal_fed_fields dirRef_handleKey)
  then show "outcome meal_turned = Continue"
    by (simp add: engine_ref_defs inv_defs tileCount_def)
qed

lemma meal_steps:
  "dispatch (Timer 1) meal_page = Inr meal_fed"
  "dispatch (KeyDown ''ArrowUp'') meal_fed = Inr meal_turned"
  "dispatch (Timer 1) meal_turned = Inr (draw (advance meal_turned))"
proof -
  have "tick meal_page = Inr (draw (eat meal_page))"
    by (rule tick_eats)
      (simp_all add: meal_page_fields engine_ref_defs, simp_all add: inv_defs tileCount_def)
  with meal_page_fields show "dispatch (Timer 1) meal_page = Inr meal_fed"
    by (simp add: meal_fed_def)
  show "dispatch (KeyDown ''ArrowUp'') meal_fed = Inr meal_turned"
    by (simp add: meal_turned_def meal_fed_fields)
  have "tick meal_turned = Inr (draw (advance meal_turned))"
    by (rule tick_moves [where food = "Cell 5 5"])
      (simp_all add: meal_turned_fields engine_ref_defs inv_defs tileCount_def)
  with meal_turned_fields show "dispatch (Timer 1) meal_turned = Inr (draw (advance meal_turned))"
    by simp
qed

lemma meal_lucky: "lucky meal meal_page"
  using meal_steps meal_page_fields(5,7) meal_turned_fields(4,5) meal_page_finds
  by (simp add: meal_def meal_page_outcome meal_turned_fields(7))

lemma refines_meal_page: "refines (initial (Cell 11 10)) meal_page"
  using refines_boot [of "(11 / 20) ## (1 / 2) ## sconst (1 / 4)"]
  by (simp add: meal_page_def [symmetric] food_after_def meal_page_fields)

text \<open>
  Claim C5.  The simulation holds for whole sessions, and it carries the invariants
  of the design.  Started in related states, a session whose events are admissible
  runs to its end without an exception; the state it ends in is related to the model
  the design reaches by the commands that answer the events, one command for every
  key, every click and every firing of an installed timer, none skipped; that model
  satisfies the invariants of the design on snake, directions, food on the board and
  score; and its food is off the snake if it was at the start and the placer found a
  free cell each time the session asked for food.  The last condition cannot be
  dropped: the placer returns its 501st sample unchecked.
\<close>

theorem session_simulation:
  assumes "refines m s" and "admitted es m s"
  shows "\<exists>t. run es s = Inr t \<and> refines (replay es m s) t \<and> model_ok (replay es m s) \<and>
     (food_free m \<and> lucky es s \<longrightarrow> food_free (replay es m s))"
proof -
  from assms obtain t where t: "run es s = Inr t" and sim: "refines (replay es m s) t"
    using replay_simulation by blast
  have "food_free (replay es m s)" if "food_free m" and "lucky es s"
  proof -
    from that(1) assms(1) have "food_clear s"
      by (simp add: refines_food_free)
    from this that(2) t have "food_clear t"
      by (rule food_clear_run)
    with sim show ?thesis
      by (simp add: refines_food_free)
  qed
  with t sim show ?thesis
    by (auto intro: refines_model_ok)
qed

theorem session_simulation_witness:
  "\<exists>t. run meal meal_page = Inr t \<and> refines (replay meal (initial (Cell 11 10)) meal_page) t \<and>
     model_ok (replay meal (initial (Cell 11 10)) meal_page) \<and>
     food_free (replay meal (initial (Cell 11 10)) meal_page)"
proof -
  have "m_pending (control (Tick (Cell 5 5)) (initial (Cell 11 10))) =
      m_dir (control (Tick (Cell 5 5)) (initial (Cell 11 10)))"
    by (simp add: spec_defs Let_def opposite_def in_grid_def tileCount_def)
  with meal_steps meal_page_fields(7) meal_fed_fields(1)
  have adm: "admitted meal (initial (Cell 11 10)) meal_page"
    by (simp add: meal_def food_after_def)
  have "food_free (initial (Cell 11 10))"
    by (simp add: food_free_def initial_def tileCount_def)
  with session_simulation [OF refines_meal_page adm] meal_lucky show ?thesis
    by blast
qed

text \<open>
  Claim C6.  Food stays off the snake as long as the placer is lucky.  On a freshly
  loaded page whose random source keeps to \<open>[0, 1)\<close>, every session of events,
  admissible or not, in which the placer finds a free cell each time it is asked for
  food (for the first food of the page, after every meal and at every reload) runs
  to its end without an exception and ends with the food on no cell of the snake.
\<close>

theorem food_stays_off_snake:
  assumes "unit_interval r" and "finds (snakeRef (page_load r [])) r"
    and "lucky es (mount (page_load r []))"
  shows "\<exists>t. run es (mount (page_load r [])) = Inr t \<and> food_clear t"
proof -
  from assms(1) have "returns (run es (mount (page_load r [])))"
    by (intro returns_run ctrl_inv_boot)
  then obtain t where t: "run es (mount (page_load r [])) = Inr t"
    by (auto simp: returns_iff)
  from assms(2) have "food_clear (mount (page_load r []))"
    by (intro food_clear_mount) simp_all
  from this assms(3) t have "food_clear t"
    by (rule food_clear_run)
  with t show ?thesis
    by blast
qed

theorem food_stays_off_snake_witness:
  "\<exists>t. run meal meal_page = Inr t \<and> food_clear t"
proof -
  let ?r = "(11 / 20) ## (1 / 2) ## sconst (1 / 4)"
  have "sample_at ?r 0 \<notin> set (snakeRef (page_load ?r []))"
    by (simp add: sample_at_def randomTile_def tileCount_def)
  then have "finds (snakeRef (page_load ?r [])) ?r"
    using findsI [of 0] by simp
  moreover have "unit_interval ?r"
    by simp
  ultimately show ?thesis
    using food_stays_off_snake [of ?r meal] meal_lucky by (simp add: meal_page_def)
qed

end
